(* ===== verification/Prelude.thy ===== *)
theory Prelude
  imports Main "HOL-Library.Word"
begin

text \<open>
  The vocabulary shared by every component of the development.

  \<^item> Python values: \<open>bytes\<close> is a list of 8-bit words; a \<open>str\<close> that comes from an ASCII or
    Latin-1 decode is a \<^typ>\<open>string\<close>, whose 256 characters are exactly the Latin-1 code points; a
    general \<open>str\<close> (in reports) is a list of code points. Python's unbounded integers are
    \<^typ>\<open>nat\<close> where the code only ever holds non-negative ones and \<^typ>\<open>int\<close> otherwise.
  \<^item> Python exceptions are the values of one datatype, \<open>exn\<close>, so that an \<open>except\<close> clause can be
    written as a test on the constructor.
  \<^item> A method that mutates its object and may raise is a function from the object's state to a
    pair of a result and the new state; the state survives an exception, as the object does.
  \<^item> The built-in operations the program uses: slicing, \<open>find\<close>, \<open>partition\<close>, \<open>split\<close>,
    \<open>strip\<close>, \<open>join\<close>, \<open>lower\<close>, decimal and hexadecimal formatting, \<open>struct\<close> packing.
\<close>

section \<open>Types\<close>

type_synonym byte = "8 word"
type_synonym bytes = "byte list"
type_synonym ustr = "nat list"

datatype exn =
    ValueError string
  | HTTP1Error string nat
  | FrameParsingError string nat
  | ProtocolError string nat
  | PyHPACKError string
  | ConnectionResetError string
  | PyConnectionError string
  | SSLError string
  | SSLWantReadError
  | SSLWantWriteError
  | IncompleteReadError
  | CancelledError bool
  | TimeoutError
  | RuntimeError string
  | StructError
  | Diverges

text \<open>
  \<open>HTTP1Error\<close> derives from \<open>ValueError\<close> in the source, so that an \<open>except ValueError\<close> catches
  both. The flag of \<open>CancelledError\<close> tells the expiry of an enclosing \<open>asyncio.timeout\<close> from a
  cancellation of the task. \<open>Diverges\<close> is not a Python exception: it is the result of a loop that never ends,
  for instance because the peer never stops sending. Where a loop is proved to end, its theorem says so; a
  theorem about a longer operation names \<open>Diverges\<close> where it does not exclude it.
\<close>

fun is_ValueError :: "exn \<Rightarrow> bool" where
  "is_ValueError (ValueError _) = True"
| "is_ValueError (HTTP1Error _ _) = True"
| "is_ValueError _ = False"

fun exn_str :: "exn \<Rightarrow> string" where
  "exn_str (ValueError m) = m"
| "exn_str (HTTP1Error m _) = m"
| "exn_str (FrameParsingError m _) = m"
| "exn_str (ProtocolError m _) = m"
| "exn_str (ConnectionResetError m) = m"
| "exn_str (PyConnectionError m) = m"
| "exn_str (SSLError m) = m"
| "exn_str SSLWantReadError = []"
| "exn_str SSLWantWriteError = []"
| "exn_str IncompleteReadError = []"
| "exn_str (CancelledError _) = []"
| "exn_str TimeoutError = []"
| "exn_str (RuntimeError m) = m"
| "exn_str StructError = []"
| "exn_str Diverges = []"

section \<open>Methods that mutate and raise\<close>

type_synonym ('s, 'a) meth = "'s \<Rightarrow> (exn + 'a) \<times> 's"

named_theorems meth_simps \<open>evaluation of method combinators\<close>

definition ret :: "'a \<Rightarrow> ('s, 'a) meth" where
  [meth_simps]: "ret x = (\<lambda>s. (Inr x, s))"

definition raise :: "exn \<Rightarrow> ('s, 'a) meth" where
  [meth_simps]: "raise e = (\<lambda>s. (Inl e, s))"

definition bindM :: "('s, 'a) meth \<Rightarrow> ('a \<Rightarrow> ('s, 'b) meth) \<Rightarrow> ('s, 'b) meth" where
  "bindM m f = (\<lambda>s. case m s of (Inl e, s') \<Rightarrow> (Inl e, s') | (Inr x, s') \<Rightarrow> f x s')"

definition seqM :: "('s, 'a) meth \<Rightarrow> ('s, 'b) meth \<Rightarrow> ('s, 'b) meth" where
  "seqM m k = bindM m (\<lambda>_. k)"

definition guardM :: "bool \<Rightarrow> exn \<Rightarrow> ('s, unit) meth" where
  [meth_simps]: "guardM b e = (if b then ret () else raise e)"

lemma bindM_eq_Inr:
  "bindM m f s = (Inr y, s2) \<longleftrightarrow> (\<exists>x s1. m s = (Inr x, s1) \<and> f x s1 = (Inr y, s2))"
  by (auto simp: bindM_def split: prod.splits sum.splits)

lemma bindM_eq_Inl:
  "bindM m f s = (Inl e, s2) \<longleftrightarrow>
     m s = (Inl e, s2) \<or> (\<exists>x s1. m s = (Inr x, s1) \<and> f x s1 = (Inl e, s2))"
  by (auto simp: bindM_def split: prod.splits sum.splits)

lemma bindM_Inr [meth_simps]: "m s = (Inr x, s1) \<Longrightarrow> bindM m f s = f x s1"
  by (simp add: bindM_def)

lemma bindM_Inl [meth_simps]: "m s = (Inl e, s1) \<Longrightarrow> bindM m f s = (Inl e, s1)"
  by (simp add: bindM_def)

lemma bindM_cong [fundef_cong]:
  assumes "m s = m' s'" and "\<And>x s1. m' s' = (Inr x, s1) \<Longrightarrow> f x s1 = f' x s1" and "s = s'"
  shows "bindM m f s = bindM m' f' s'"
  using assms by (auto simp: bindM_def split: prod.splits sum.splits)

lemma seqM_eq [meth_simps]: "seqM m k s = bindM m (\<lambda>_. k) s"
  by (simp add: seqM_def)

lemma ret_eq_iff [simp]: "ret x s = (r, s') \<longleftrightarrow> r = Inr x \<and> s' = s"
  by (auto simp: ret_def)

lemma raise_eq_iff [simp]: "raise e s = (r, s') \<longleftrightarrow> r = Inl e \<and> s' = s"
  by (auto simp: raise_def)

lemma bindM_ret [simp]: "bindM (ret x) f = f x"
  by (simp add: bindM_def ret_def)

lemma bindM_raise [simp]: "bindM (raise e) f = raise e"
  by (simp add: bindM_def raise_def fun_eq_iff)

lemma bindM_assoc: "bindM (bindM m f) g = bindM m (\<lambda>x. bindM (f x) g)"
  by (simp add: bindM_def fun_eq_iff split: prod.splits sum.splits)

lemma guardM_True [simp]: "guardM True e = ret ()"
  by (simp add: guardM_def)

lemma guardM_False [simp]: "guardM False e = raise e"
  by (simp add: guardM_def)

lemma guardM_eq_Inr: "guardM b e s = (Inr u, s') \<longleftrightarrow> b \<and> s' = s"
  by (simp add: guardM_def)

lemma guardM_eq_Inl: "guardM b e s = (Inl e', s') \<longleftrightarrow> \<not> b \<and> e' = e \<and> s' = s"
  by (auto simp: guardM_def)

text \<open>A pure computation that may raise, and its composition.\<close>

definition bindR :: "exn + 'a \<Rightarrow> ('a \<Rightarrow> exn + 'b) \<Rightarrow> exn + 'b" where
  "bindR r f = (case r of Inl e \<Rightarrow> Inl e | Inr x \<Rightarrow> f x)"

definition guardR :: "bool \<Rightarrow> exn \<Rightarrow> exn + unit" where
  "guardR b e = (if b then Inr () else Inl e)"

lemma bindR_simps [simp]: "bindR (Inl e) f = Inl e" "bindR (Inr x) f = f x"
  by (simp_all add: bindR_def)

lemma bindR_eq_Inr: "bindR r f = Inr y \<longleftrightarrow> (\<exists>x. r = Inr x \<and> f x = Inr y)"
  by (cases r) auto

lemma bindR_eq_Inl: "bindR r f = Inl e \<longleftrightarrow> r = Inl e \<or> (\<exists>x. r = Inr x \<and> f x = Inl e)"
  by (cases r) auto

lemma guardR_simps [simp]: "guardR True e = Inr ()" "guardR False e = Inl e"
  by (simp_all add: guardR_def)

lemma guardR_eq_Inr [simp]: "guardR b e = Inr u \<longleftrightarrow> b"
  by (simp add: guardR_def)

lemma guardR_eq_Inl: "guardR b e = Inl e' \<longleftrightarrow> \<not> b \<and> e' = e"
  by (auto simp: guardR_def)

text \<open>\<open>raises Q r\<close>: if the computation raises, the exception satisfies \<open>Q\<close>.\<close>

definition raises :: "(exn \<Rightarrow> bool) \<Rightarrow> exn + 'a \<Rightarrow> bool" where
  "raises Q r \<longleftrightarrow> (\<forall>e. r = Inl e \<longrightarrow> Q e)"

named_theorems raises_intros \<open>composition rules for \<open>raises\<close>\<close>

lemma raises_Inr [raises_intros]: "raises Q (Inr x)"
  by (simp add: raises_def)

lemma raises_Inl [raises_intros]: "Q e \<Longrightarrow> raises Q (Inl e)"
  by (simp add: raises_def)

lemma raises_bind [raises_intros]: "raises Q r \<Longrightarrow> (\<And>x. raises Q (f x)) \<Longrightarrow> raises Q (bindR r f)"
  by (auto simp: raises_def bindR_eq_Inl)

lemma raises_if [raises_intros]: "raises Q a \<Longrightarrow> raises Q b \<Longrightarrow> raises Q (if c then a else b)"
  by simp

lemma raises_prod [raises_intros]: "(\<And>a b. raises Q (f a b)) \<Longrightarrow> raises Q (case p of (a, b) \<Rightarrow> f a b)"
  by (cases p) simp

lemma raises_option [raises_intros]:
  "raises Q a \<Longrightarrow> (\<And>x. raises Q (f x)) \<Longrightarrow> raises Q (case p of None \<Rightarrow> a | Some x \<Rightarrow> f x)"
  by (cases p) simp_all

lemma raises_list [raises_intros]:
  "raises Q a \<Longrightarrow> (\<And>x xs. raises Q (f x xs)) \<Longrightarrow> raises Q (case l of [] \<Rightarrow> a | x # xs \<Rightarrow> f x xs)"
  by (cases l) simp_all

lemma raises_sum [raises_intros]:
  "(\<And>x. raises Q (g x)) \<Longrightarrow> (\<And>x. raises Q (f x)) \<Longrightarrow> raises Q (case l of Inl x \<Rightarrow> g x | Inr x \<Rightarrow> f x)"
  by (cases l) simp_all

text \<open>The same for methods: \<open>outcome P Q m\<close> says that from every state a returned value satisfies \<open>P\<close>
  and a raised exception satisfies \<open>Q\<close>.\<close>

definition outcome :: "('a \<Rightarrow> bool) \<Rightarrow> (exn \<Rightarrow> bool) \<Rightarrow> ('s, 'a) meth \<Rightarrow> bool" where
  "outcome P Q m \<longleftrightarrow> (\<forall>s. case fst (m s) of Inl e \<Rightarrow> Q e | Inr x \<Rightarrow> P x)"

named_theorems outcome_intros \<open>composition rules for \<open>outcome\<close>\<close>

lemma outcomeD: "outcome P Q m \<Longrightarrow> m s = (Inr x, s') \<Longrightarrow> P x" "outcome P Q m \<Longrightarrow> m s = (Inl e, s') \<Longrightarrow> Q e"
  unfolding outcome_def by (drule spec [of _ s], simp)+

lemma outcome_ret [outcome_intros]: "P x \<Longrightarrow> outcome P Q (ret x)"
  by (simp add: outcome_def ret_def)

lemma outcome_raise [outcome_intros]: "Q e \<Longrightarrow> outcome P Q (raise e)"
  by (simp add: outcome_def raise_def)

lemma outcome_bind_value:
  assumes "outcome R Q m" and "\<And>x. R x \<Longrightarrow> outcome P Q (f x)"
  shows "outcome P Q (bindM m f)"
  unfolding outcome_def
proof
  fix s
  obtain r s1 where m: "m s = (r, s1)" by fastforce
  show "case fst (bindM m f s) of Inl e \<Rightarrow> Q e | Inr x \<Rightarrow> P x"
  proof (cases r)
    case (Inl e)
    with m outcomeD(2) [OF assms(1)] show ?thesis by (auto simp: bindM_def)
  next
    case (Inr x)
    with m have "outcome P Q (f x)" by (intro assms(2) outcomeD(1) [OF assms(1)]) simp
    with m Inr show ?thesis by (auto simp: bindM_def outcome_def)
  qed
qed

lemma outcome_bind [outcome_intros]:
  "outcome (\<lambda>_. True) Q m \<Longrightarrow> (\<And>x. outcome P Q (f x)) \<Longrightarrow> outcome P Q (bindM m f)"
  by (rule outcome_bind_value)

lemma outcome_if [outcome_intros]:
  "(c \<Longrightarrow> outcome P Q a) \<Longrightarrow> (\<not> c \<Longrightarrow> outcome P Q b) \<Longrightarrow> outcome P Q (if c then a else b)"
  by simp

lemma outcome_let [outcome_intros]: "outcome P Q (f x) \<Longrightarrow> outcome P Q (let y = x in f y)"
  by simp

lemma outcome_option [outcome_intros]:
  "outcome P Q a \<Longrightarrow> (\<And>x. outcome P Q (f x)) \<Longrightarrow> outcome P Q (case p of None \<Rightarrow> a | Some x \<Rightarrow> f x)"
  by (cases p) simp_all

lemma outcome_state: "(\<And>s. outcome P Q (f s)) \<Longrightarrow> outcome P Q (\<lambda>s. f s s)"
  unfolding outcome_def by blast

lemma outcome_state_if:
  "outcome P Q a \<Longrightarrow> outcome P Q b \<Longrightarrow> outcome P Q (\<lambda>s. if c s then a s else b s)"
  by (simp add: outcome_def)

lemma outcome_mono: "outcome P Q m \<Longrightarrow> (\<And>x. P x \<Longrightarrow> P' x) \<Longrightarrow> (\<And>e. Q e \<Longrightarrow> Q' e) \<Longrightarrow> outcome P' Q' m"
  unfolding outcome_def by (auto split: sum.splits)

section \<open>Sequences\<close>

text \<open>\<open>xs[a:b]\<close> for \<open>0 \<le> a\<close> and \<open>0 \<le> b\<close>.\<close>

definition slice :: "'a list \<Rightarrow> nat \<Rightarrow> nat \<Rightarrow> 'a list" where
  "slice xs a b = take (b - a) (drop a xs)"

lemma length_slice [simp]: "length (slice xs a b) = min (length xs) b - a"
  by (simp add: slice_def)

lemma slice_append_left: "b \<le> length xs \<Longrightarrow> slice (xs @ ys) a b = slice xs a b"
  by (cases "a \<le> length xs") (auto simp: slice_def)

definition starts_with :: "'a list \<Rightarrow> 'a list \<Rightarrow> bool" where
  "starts_with p xs \<longleftrightarrow> take (length p) xs = p"

lemma starts_with_iff: "starts_with p xs \<longleftrightarrow> (\<exists>ys. xs = p @ ys)"
  by (metis append_eq_conv_conj append_take_drop_id starts_with_def)

lemma starts_with_code [code, simp]:
  "starts_with [] xs = True"
  "starts_with (p # ps) [] = False"
  "starts_with (p # ps) (x # xs) = (p = x \<and> starts_with ps xs)"
  by (auto simp: starts_with_def)

text \<open>\<open>xs.find(sub)\<close>, with \<open>None\<close> for \<open>-1\<close>.\<close>

fun find_sub :: "'a list \<Rightarrow> 'a list \<Rightarrow> nat option" where
  "find_sub sub [] = (if sub = [] then Some 0 else None)"
| "find_sub sub (x # xs) =
     (if starts_with sub (x # xs) then Some 0 else map_option Suc (find_sub sub xs))"

lemma find_sub_SomeD:
  "find_sub sub xs = Some i \<Longrightarrow>
     starts_with sub (drop i xs) \<and> (\<forall>j < i. \<not> starts_with sub (drop j xs)) \<and> i \<le> length xs"
proof (induction sub xs arbitrary: i rule: find_sub.induct)
  case (1 sub)
  then show ?case by (auto simp: starts_with_def split: if_splits)
next
  case (2 sub x xs)
  show ?case
  proof (cases "starts_with sub (x # xs)")
    case True
    with "2.prems" show ?thesis by simp
  next
    case False
    with "2.prems" obtain k where k: "find_sub sub xs = Some k" "i = Suc k" by auto
    from "2.IH" [OF False k(1)] have IH:
      "starts_with sub (drop k xs)" "\<forall>j<k. \<not> starts_with sub (drop j xs)" "k \<le> length xs"
      by auto
    have "\<not> starts_with sub (drop j (x # xs))" if "j < i" for j
      using that IH(2) False k(2) by (cases j) auto
    with IH k(2) show ?thesis by auto
  qed
qed

lemma find_sub_NoneD: "find_sub sub xs = None \<Longrightarrow> j \<le> length xs \<Longrightarrow> \<not> starts_with sub (drop j xs)"
proof (induction sub xs arbitrary: j rule: find_sub.induct)
  case (1 sub)
  then show ?case by (cases sub) auto
next
  case (2 sub x xs)
  then show ?case by (cases j) (auto split: if_splits)
qed

lemma find_sub_bound: "find_sub sub xs = Some i \<Longrightarrow> i + length sub \<le> length xs"
proof -
  assume a: "find_sub sub xs = Some i"
  from find_sub_SomeD [OF a] have "take (length sub) (drop i xs) = sub" "i \<le> length xs"
    by (auto simp: starts_with_def)
  then have "length sub \<le> length (drop i xs)"
    by (metis length_take min.cobounded1 min.absorb_iff2 min.commute)
  with \<open>i \<le> length xs\<close> show ?thesis by simp
qed

lemma starts_with_append: "starts_with p xs \<Longrightarrow> starts_with p (xs @ ys)"
  by (auto simp: starts_with_iff)

lemma starts_with_append_iff: "length p \<le> length xs \<Longrightarrow> starts_with p (xs @ ys) \<longleftrightarrow> starts_with p xs"
  by (simp add: starts_with_def)

text \<open>The first occurrence does not move when the buffer grows.\<close>

lemma find_sub_append: "find_sub sub xs = Some i \<Longrightarrow> find_sub sub (xs @ ys) = Some i"
proof (induction sub xs arbitrary: i rule: find_sub.induct)
  case (1 sub)
  then show ?case by (cases ys) (auto split: if_splits)
next
  case (2 sub x xs)
  show ?case
  proof (cases "starts_with sub (x # xs)")
    case True
    then have "starts_with sub ((x # xs) @ ys)" by (rule starts_with_append)
    with True "2.prems" show ?thesis by simp
  next
    case False
    with "2.prems" obtain k where k: "find_sub sub xs = Some k" "i = Suc k" by auto
    then have "length sub \<le> length (x # xs)" using find_sub_bound [OF k(1)] by simp
    with False have "\<not> starts_with sub ((x # xs) @ ys)"
      using starts_with_append_iff [of sub "x # xs" ys] by metis
    with "2.IH" [OF False k(1)] k(2) show ?thesis by simp
  qed
qed

lemma find_sub_take:
  assumes "find_sub sub xs = Some i" and "i + length sub \<le> n"
  shows "find_sub sub (take n xs) = Some i"
  using assms
proof (induction sub xs arbitrary: i n rule: find_sub.induct)
  case (1 sub)
  then show ?case by (auto split: if_splits)
next
  case (2 sub x xs)
  show ?case
  proof (cases "starts_with sub (x # xs)")
    case True
    with "2.prems" have "starts_with sub (take n (x # xs))"
      by (auto simp: starts_with_def take_all_iff min_def)
    moreover have "i = 0" using True "2.prems" by simp
    ultimately show ?thesis by (cases n) (auto, cases sub, auto)
  next
    case False
    with "2.prems" obtain k where k: "find_sub sub xs = Some k" "i = Suc k" by auto
    then obtain m where m: "n = Suc m" using "2.prems"(2) by (cases n) auto
    have "find_sub sub (take m xs) = Some k" using "2.IH" [OF False k(1)] "2.prems"(2) k(2) m by simp
    moreover have "\<not> starts_with sub (take n (x # xs))"
      using False starts_with_append [of sub "take n (x # xs)" "drop n (x # xs)"]
      by (metis append_take_drop_id)
    ultimately show ?thesis using m k(2) by simp
  qed
qed

text \<open>\<open>s.partition(c)\<close> for a one-element separator: head, whether it was found, tail.\<close>

definition partition_at :: "'a \<Rightarrow> 'a list \<Rightarrow> 'a list \<times> bool \<times> 'a list" where
  "partition_at c xs = (takeWhile (\<lambda>x. x \<noteq> c) xs, c \<in> set xs, tl (dropWhile (\<lambda>x. x \<noteq> c) xs))"

lemma partition_at_rebuild:
  "partition_at c xs = (a, True, b) \<Longrightarrow> xs = a @ c # b \<and> c \<notin> set a"
proof -
  assume a: "partition_at c xs = (a, True, b)"
  then have c: "c \<in> set xs" by (simp add: partition_at_def)
  then have "dropWhile (\<lambda>x. x \<noteq> c) xs = c # tl (dropWhile (\<lambda>x. x \<noteq> c) xs)"
    by (induction xs) auto
  with a show ?thesis
    unfolding partition_at_def
    by (metis (mono_tags, lifting) prod.inject set_takeWhileD takeWhile_dropWhile_id)
qed

lemma partition_at_absent: "c \<notin> set xs \<Longrightarrow> partition_at c xs = (xs, False, [])"
  by (induction xs) (auto simp: partition_at_def)

lemma partition_at_append: "c \<notin> set a \<Longrightarrow> partition_at c (a @ c # b) = (a, True, b)"
  by (induction a) (auto simp: partition_at_def)

text \<open>\<open>s.split(c)\<close> for a one-element separator.\<close>

fun split_on :: "'a \<Rightarrow> 'a list \<Rightarrow> 'a list list" where
  "split_on c [] = [[]]"
| "split_on c (x # xs) =
     (if x = c then [] # split_on c xs
      else (case split_on c xs of [] \<Rightarrow> [[x]] | p # ps \<Rightarrow> (x # p) # ps))"

fun join_with :: "'a list \<Rightarrow> 'a list list \<Rightarrow> 'a list" where
  "join_with sep [] = []"
| "join_with sep [x] = x"
| "join_with sep (x # y # ys) = x @ sep @ join_with sep (y # ys)"

lemma split_on_nonempty [simp]: "split_on c xs \<noteq> []"
  by (induction xs) (auto split: list.splits)

lemma join_split_on: "join_with [c] (split_on c xs) = xs"
proof (induction xs)
  case Nil
  then show ?case by simp
next
  case (Cons x xs)
  obtain p ps where s: "split_on c xs = p # ps" by (cases "split_on c xs") auto
  with Cons show ?case by (cases ps) auto
qed

lemma split_on_no_sep: "p \<in> set (split_on c xs) \<Longrightarrow> c \<notin> set p"
proof (induction xs arbitrary: p)
  case Nil
  then show ?case by simp
next
  case (Cons x xs)
  obtain q qs where s: "split_on c xs = q # qs" by (cases "split_on c xs") auto
  with Cons show ?case by (auto split: if_splits)
qed

lemma set_split_on: "p \<in> set (split_on c xs) \<Longrightarrow> set p \<subseteq> set xs"
proof (induction xs arbitrary: p)
  case Nil
  then show ?case by simp
next
  case (Cons x xs)
  obtain q qs where s: "split_on c xs = q # qs" by (cases "split_on c xs") auto
  with Cons.IH have "set q \<subseteq> set xs" "\<forall>r \<in> set qs. set r \<subseteq> set xs" by auto
  with Cons.prems s show ?case by (auto split: if_splits)
qed

lemma split_on_single: "c \<notin> set xs \<Longrightarrow> split_on c xs = [xs]"
  by (induction xs) auto

lemma split_on_append: "c \<notin> set a \<Longrightarrow> split_on c (a @ c # b) = a # split_on c b"
  by (induction a) auto

text \<open>\<open>lstrip\<close>, \<open>rstrip\<close> and \<open>strip\<close> of a set of characters.\<close>

definition lstrip :: "'a list \<Rightarrow> 'a list \<Rightarrow> 'a list" where
  "lstrip cs xs = dropWhile (\<lambda>x. x \<in> set cs) xs"

definition rstrip :: "'a list \<Rightarrow> 'a list \<Rightarrow> 'a list" where
  "rstrip cs xs = rev (dropWhile (\<lambda>x. x \<in> set cs) (rev xs))"

definition strip :: "'a list \<Rightarrow> 'a list \<Rightarrow> 'a list" where
  "strip cs xs = rstrip cs (lstrip cs xs)"

lemma hd_dropWhile_not: "dropWhile P xs \<noteq> [] \<Longrightarrow> \<not> P (hd (dropWhile P xs))"
  by (rule hd_dropWhile)

lemma set_dropWhile_subset: "set (dropWhile P xs) \<subseteq> set xs"
  by (auto dest: set_dropWhileD)

lemma set_strip: "set (strip cs xs) \<subseteq> set xs"
  unfolding strip_def rstrip_def lstrip_def set_rev
  by (metis set_dropWhile_subset set_rev subset_trans)

lemma last_strip: "strip cs xs \<noteq> [] \<Longrightarrow> last (strip cs xs) \<notin> set cs"
  unfolding strip_def rstrip_def
  using hd_dropWhile_not [of "\<lambda>x. x \<in> set cs" "rev (lstrip cs xs)"] by (simp add: last_rev)

lemma rstrip_prefix: "\<exists>ys. xs = rstrip cs xs @ ys"
  unfolding rstrip_def
  by (metis rev_append rev_rev_ident takeWhile_dropWhile_id)

lemma hd_strip:
  assumes "strip cs xs \<noteq> []" shows "hd (strip cs xs) \<notin> set cs"
proof -
  obtain ys where "lstrip cs xs = strip cs xs @ ys"
    using rstrip_prefix [of "lstrip cs xs" cs] unfolding strip_def by blast
  then have "hd (strip cs xs) = hd (lstrip cs xs)" "lstrip cs xs \<noteq> []" using assms by auto
  then show ?thesis using hd_dropWhile_not [of "\<lambda>x. x \<in> set cs" xs] by (simp add: lstrip_def)
qed

lemma dropWhile_id_hd: "xs = [] \<or> \<not> P (hd xs) \<Longrightarrow> dropWhile P xs = xs"
  by (cases xs) auto

lemma strip_id:
  "xs = [] \<or> hd xs \<notin> set cs \<and> last xs \<notin> set cs \<Longrightarrow> strip cs xs = xs"
  by (auto simp: strip_def rstrip_def lstrip_def dropWhile_id_hd hd_rev)

section \<open>Dictionaries in insertion order\<close>

text \<open>\<open>d[k] = v\<close>: a present key keeps its place, a new one goes to the end.\<close>

fun dict_set :: "'k \<Rightarrow> 'v \<Rightarrow> ('k \<times> 'v) list \<Rightarrow> ('k \<times> 'v) list" where
  "dict_set k v [] = [(k, v)]"
| "dict_set k v ((k', v') # d) = (if k' = k then (k, v) # d else (k', v') # dict_set k v d)"

text \<open>\<open>dict(entries)\<close>.\<close>

definition dict_of :: "('k \<times> 'v) list \<Rightarrow> ('k \<times> 'v) list" where
  "dict_of entries = foldl (\<lambda>d (k, v). dict_set k v d) [] entries"

text \<open>\<open>d.pop(k, None)\<close>.\<close>

definition dict_pop :: "'k \<Rightarrow> ('k \<times> 'v) list \<Rightarrow> ('k \<times> 'v) list" where
  "dict_pop k d = filter (\<lambda>(k', v). k' \<noteq> k) d"

lemma map_of_dict_set: "map_of (dict_set k v d) = (map_of d)(k \<mapsto> v)"
  by (induction d) (auto simp: fun_eq_iff)

lemma dict_set_new: "k \<notin> fst ` set d \<Longrightarrow> dict_set k v d = d @ [(k, v)]"
  by (induction d) auto

lemma keys_dict_set: "fst ` set (dict_set k v d) = insert k (fst ` set d)"
  by (induction k v d rule: dict_set.induct) (simp_all add: insert_commute)

lemma distinct_dict_set: "distinct (map fst d) \<Longrightarrow> distinct (map fst (dict_set k v d))"
  by (induction k v d rule: dict_set.induct) (auto simp: keys_dict_set)

lemma dict_of_snoc: "dict_of (es @ [(k, v)]) = dict_set k v (dict_of es)"
  by (simp add: dict_of_def)

lemma distinct_dict_of: "distinct (map fst (dict_of es))"
proof (induction es rule: rev_induct)
  case Nil
  then show ?case by (simp add: dict_of_def)
next
  case (snoc e es)
  then show ?case by (cases e) (simp add: dict_of_snoc distinct_dict_set)
qed

lemma dict_of_distinct: "distinct (map fst es) \<Longrightarrow> dict_of es = es"
proof (induction es rule: rev_induct)
  case Nil
  then show ?case by (simp add: dict_of_def)
next
  case (snoc e es)
  then show ?case by (cases e) (auto simp: dict_of_snoc dict_set_new)
qed

lemma map_of_dict_of: "map_of (dict_of es) = map_of (rev es)"
proof (induction es rule: rev_induct)
  case Nil
  then show ?case by (simp add: dict_of_def)
next
  case (snoc e es)
  then show ?case by (cases e) (simp add: dict_of_snoc map_of_dict_set)
qed

lemma map_of_dict_pop: "map_of (dict_pop k d) = (map_of d)(k := None)"
  by (induction d) (auto simp: dict_pop_def fun_eq_iff)

end
