(* ===== verification/Encodings.thy ===== *)
theory Encodings
  imports Prelude
begin

text \<open>
  Numbers, bytes and characters: big-endian packing as \<open>struct\<close> does it, decimal and hexadecimal
  text as \<open>str\<close>, \<open>int\<close>, \<open>bytes.hex\<close> and the format specifications do it, and the ASCII and
  Latin-1 codecs. Each encoder comes with its decoder and the round trip between them.
\<close>

section \<open>Big-endian integers\<close>

definition be_nat :: "bytes \<Rightarrow> nat" where
  "be_nat bs = foldl (\<lambda>a b. a * 256 + unat b) 0 bs"

fun be_bytes :: "nat \<Rightarrow> nat \<Rightarrow> bytes" where
  "be_bytes 0 v = []"
| "be_bytes (Suc k) v = be_bytes k (v div 256) @ [of_nat v]"

lemma length_be_bytes [simp]: "length (be_bytes k v) = k"
  by (induction k arbitrary: v) auto

lemma be_bytes_eq_Nil [simp]: "be_bytes k v = [] \<longleftrightarrow> k = 0"
  by (metis length_0_conv length_be_bytes)

lemma be_nat_Nil [simp]: "be_nat [] = 0"
  by (simp add: be_nat_def)

lemma be_nat_snoc [simp]: "be_nat (bs @ [b]) = be_nat bs * 256 + unat b"
  by (simp add: be_nat_def)

lemma unat_byte_less [simp]: "unat (b :: byte) < 256"
  using unsigned_less [of b] by simp

lemma unat_byte_le [simp]: "unat (b :: byte) \<le> 255"
  using unat_byte_less [of b] by linarith

lemma be_nat_bound: "be_nat bs < 256 ^ length bs"
proof (induction bs rule: rev_induct)
  case Nil
  then show ?case by simp
next
  case (snoc b bs)
  then have "be_nat bs + 1 \<le> 256 ^ length bs" by simp
  then have "(be_nat bs + 1) * 256 \<le> 256 ^ length bs * 256" by (rule mult_le_mono1)
  then have "be_nat bs * 256 + 256 \<le> 256 ^ length (bs @ [b])" by (simp add: algebra_simps)
  moreover have "unat b < 256" by simp
  ultimately have "be_nat bs * 256 + unat b < 256 ^ length (bs @ [b])" by linarith
  then show ?case by simp
qed

lemma unat_of_nat_byte: "unat (of_nat v :: byte) = v mod 256"
  by (simp add: unat_of_nat)

lemma be_nat_be_bytes: "v < 256 ^ k \<Longrightarrow> be_nat (be_bytes k v) = v"
proof (induction k arbitrary: v)
  case 0
  then show ?case by simp
next
  case (Suc k)
  then have "v div 256 < 256 ^ k" by (simp add: less_mult_imp_div_less mult.commute)
  then have "be_nat (be_bytes k (v div 256)) = v div 256" by (rule Suc.IH)
  then show ?case by (simp add: unat_of_nat_byte)
qed

lemma be_bytes_be_nat: "be_bytes (length bs) (be_nat bs) = bs"
proof (induction bs rule: rev_induct)
  case Nil
  then show ?case by simp
next
  case (snoc b bs)
  have "(of_nat (be_nat bs * 256 + unat b) :: byte) = b"
    by (rule word_unat_eq_iff [THEN iffD2], subst unat_of_nat_byte) (simp add: mod_less)
  with snoc show ?case by (simp add: div_mult_self3)
qed

lemma be_nat_zero_cons: "be_nat (0 # bs) = be_nat bs"
  by (simp add: be_nat_def)

section \<open>Characters\<close>

definition byte_char :: "byte \<Rightarrow> char" where
  "byte_char b = char_of (unat b)"

definition char_byte :: "char \<Rightarrow> byte" where
  "char_byte c = of_nat (of_char c)"

lemma char_byte_char [simp]: "byte_char (char_byte c) = c"
  by (simp add: byte_char_def char_byte_def unat_of_nat_byte)

lemma byte_char_byte [simp]: "char_byte (byte_char b) = b"
  by (simp add: byte_char_def char_byte_def mod_less)

lemma byte_char_inject [simp]: "byte_char a = byte_char b \<longleftrightarrow> a = b"
  by (metis byte_char_byte)

lemma char_byte_inject [simp]: "char_byte a = char_byte b \<longleftrightarrow> a = b"
  by (metis char_byte_char)

lemma of_char_less_256 [simp]: "(of_char c :: nat) < 256"
  by (metis of_char_mod_256 mod_less_divisor zero_less_numeral)

lemma of_char_byte_char [simp]: "(of_char (byte_char b) :: nat) = unat b"
  by (simp add: byte_char_def mod_less)

lemma unat_char_byte [simp]: "unat (char_byte c) = of_char c"
  by (simp add: char_byte_def unat_of_nat_byte mod_less)

text \<open>A \<open>bytes\<close> literal, the Latin-1 codec, the ASCII codec, and code points.\<close>

definition asc :: "string \<Rightarrow> bytes" where
  "asc s = map char_byte s"

definition latin1 :: "bytes \<Rightarrow> string" where
  "latin1 bs = map byte_char bs"

definition ascii_decode :: "bytes \<Rightarrow> exn + string" where
  "ascii_decode bs =
     (if \<forall>b \<in> set bs. unat b < 128 then Inr (map byte_char bs)
      else Inl (ValueError ''ordinal not in range(128)''))"

definition codes :: "string \<Rightarrow> ustr" where
  "codes s = map of_char s"

lemma asc_latin1 [simp]: "asc (latin1 bs) = bs"
  by (simp add: asc_def latin1_def comp_def)

lemma latin1_asc [simp]: "latin1 (asc s) = s"
  by (simp add: asc_def latin1_def comp_def)

lemma length_latin1 [simp]: "length (latin1 bs) = length bs"
  by (simp add: latin1_def)

lemma latin1_append [simp]: "latin1 (a @ b) = latin1 a @ latin1 b"
  by (simp add: latin1_def)

lemma inj_latin1: "latin1 a = latin1 b \<longleftrightarrow> a = b"
  by (metis asc_latin1)

lemma ascii_decode_latin1: "ascii_decode bs = Inr s \<Longrightarrow> s = latin1 bs"
  by (auto simp: ascii_decode_def latin1_def split: if_splits)

lemma inj_codes: "codes a = codes b \<longleftrightarrow> a = b"
proof
  assume "codes a = codes b"
  then have "map char_of (codes a) = map char_of (codes b)" by simp
  then show "a = b" by (simp add: codes_def comp_def)
qed simp

section \<open>Decimal text\<close>

definition digit_char :: "nat \<Rightarrow> char" where
  "digit_char d = char_of (48 + d)"

fun str_nat :: "nat \<Rightarrow> string" where
  "str_nat n = (if n < 10 then [digit_char n] else str_nat (n div 10) @ [digit_char (n mod 10)])"

declare str_nat.simps [simp del]

definition str_int :: "int \<Rightarrow> string" where
  "str_int i = (if i < 0 then CHR ''-'' # str_nat (nat (- i)) else str_nat (nat i))"

definition is_digit :: "char \<Rightarrow> bool" where
  "is_digit c \<longleftrightarrow> 48 \<le> (of_char c :: nat) \<and> of_char c \<le> (57 :: nat)"

definition dec_val :: "string \<Rightarrow> nat" where
  "dec_val s = foldl (\<lambda>a c. a * 10 + (of_char c - 48)) 0 s"

lemma dec_val_snoc [simp]: "dec_val (s @ [c]) = dec_val s * 10 + (of_char c - 48)"
  by (simp add: dec_val_def)

lemma dec_val_Nil [simp]: "dec_val [] = 0"
  by (simp add: dec_val_def)

lemma of_char_digit_char [simp]: "d < 10 \<Longrightarrow> (of_char (digit_char d) :: nat) = 48 + d"
  by (simp add: digit_char_def)

lemma is_digit_digit_char [simp]: "d < 10 \<Longrightarrow> is_digit (digit_char d)"
  by (simp add: is_digit_def)

lemma dec_val_str_nat [simp]: "dec_val (str_nat n) = n"
proof (induction n rule: str_nat.induct)
  case (1 n)
  show ?case
  proof (cases "n < 10")
    case True
    then show ?thesis using dec_val_snoc [of "[]" "digit_char n"] by (simp add: str_nat.simps [of n])
  next
    case False
    with 1 show ?thesis by (simp add: str_nat.simps [of n])
  qed
qed

lemma str_nat_inject [simp]: "str_nat a = str_nat b \<longleftrightarrow> a = b"
  by (metis dec_val_str_nat)

lemma str_nat_digits: "c \<in> set (str_nat n) \<Longrightarrow> is_digit c"
proof (induction n rule: str_nat.induct)
  case (1 n)
  then show ?case
    by (cases "n < 10") (auto simp: str_nat.simps [of n])
qed

lemma str_nat_nonempty [simp]: "str_nat n \<noteq> []"
  by (simp add: str_nat.simps)

lemma length_str_nat_le: "n < 10 ^ k \<Longrightarrow> 0 < k \<Longrightarrow> length (str_nat n) \<le> k"
proof (induction n arbitrary: k rule: str_nat.induct)
  case (1 n)
  show ?case
  proof (cases "n < 10")
    case True
    with 1 show ?thesis by (simp add: str_nat.simps [of n])
  next
    case False
    with "1.prems" obtain j where k: "k = Suc j" "0 < j" by (cases k) (auto, cases "k - 1", auto)
    with "1.prems" have "n div 10 < 10 ^ j" by (simp add: less_mult_imp_div_less mult.commute)
    with "1.IH" [OF False] k show ?thesis using False by (simp add: str_nat.simps [of n])
  qed
qed

text \<open>\<open>f"{n:0wd}"\<close>: padding with zeros on the left up to a width.\<close>

definition zfill :: "nat \<Rightarrow> string \<Rightarrow> string" where
  "zfill w s = replicate (w - length s) CHR ''0'' @ s"

lemma length_zfill: "length (zfill w s) = max w (length s)"
  by (simp add: zfill_def)

section \<open>Hexadecimal text\<close>

definition hex_digit :: "nat \<Rightarrow> char" where
  "hex_digit d = (if d < 10 then char_of (48 + d) else char_of (87 + d))"

definition hex_byte :: "byte \<Rightarrow> string" where
  "hex_byte b = [hex_digit (unat b div 16), hex_digit (unat b mod 16)]"

definition hex_bytes :: "bytes \<Rightarrow> string" where
  "hex_bytes bs = concat (map hex_byte bs)"

fun hex_nat :: "nat \<Rightarrow> string" where
  "hex_nat n = (if n < 16 then [hex_digit n] else hex_nat (n div 16) @ [hex_digit (n mod 16)])"

declare hex_nat.simps [simp del]

definition hex04 :: "nat \<Rightarrow> string" where
  "hex04 v = zfill 4 (hex_nat v)"

definition hex_val :: "char \<Rightarrow> nat" where
  "hex_val c = (let n = of_char c in
     if 48 \<le> n \<and> n \<le> 57 then n - 48 else if 97 \<le> n \<and> n \<le> 102 then n - 87
     else if 65 \<le> n \<and> n \<le> 70 then n - 55 else 0)"

fun unhex :: "string \<Rightarrow> bytes" where
  "unhex (a # b # s) = of_nat (hex_val a * 16 + hex_val b) # unhex s"
| "unhex _ = []"

lemma hex_val_digit [simp]: "d < 16 \<Longrightarrow> hex_val (hex_digit d) = d"
  by (auto simp: hex_val_def hex_digit_def Let_def)

lemma unhex_hex_bytes [simp]: "unhex (hex_bytes bs) = bs"
  by (induction bs) (auto simp: hex_bytes_def hex_byte_def less_mult_imp_div_less)

lemma hex_bytes_inject [simp]: "hex_bytes a = hex_bytes b \<longleftrightarrow> a = b"
  by (metis unhex_hex_bytes)

lemma length_hex_bytes [simp]: "length (hex_bytes bs) = 2 * length bs"
  by (induction bs) (auto simp: hex_bytes_def hex_byte_def)

lemma hex_nat_4: "v < 65536 \<Longrightarrow> length (hex_nat v) \<le> 4"
  by (simp add: hex_nat.simps [of v] hex_nat.simps [of "v div 16"]
      hex_nat.simps [of "v div 256"] hex_nat.simps [of "v div 4096"]
      div_mult2_eq [symmetric] less_mult_imp_div_less)

lemma length_hex04: "v < 65536 \<Longrightarrow> length (hex04 v) = 4"
  using hex_nat_4 [of v] by (simp add: hex04_def length_zfill)

section \<open>Case folding and character tests\<close>

text \<open>
  \<open>str.lower\<close> on Latin-1 text: besides ASCII it maps the accented capitals 0xC0 to 0xDE, the
  multiplication sign 0xD7 excepted. \<open>bytes.lower\<close> maps ASCII letters only.
\<close>

definition lower_char :: "char \<Rightarrow> char" where
  "lower_char c = (let n = of_char c :: nat in
     if 65 \<le> n \<and> n \<le> 90 \<or> 192 \<le> n \<and> n \<le> 222 \<and> n \<noteq> 215 then char_of (n + 32) else c)"

definition lower :: "string \<Rightarrow> string" where
  "lower s = map lower_char s"

definition lower_byte :: "byte \<Rightarrow> byte" where
  "lower_byte b = (if 65 \<le> unat b \<and> unat b \<le> 90 then b + 32 else b)"

definition bytes_lower :: "bytes \<Rightarrow> bytes" where
  "bytes_lower bs = map lower_byte bs"

definition is_upper_alpha :: "char \<Rightarrow> bool" where
  "is_upper_alpha c \<longleftrightarrow> 65 \<le> (of_char c :: nat) \<and> of_char c \<le> (90 :: nat)"

definition is_lower_alpha :: "char \<Rightarrow> bool" where
  "is_lower_alpha c \<longleftrightarrow> 97 \<le> (of_char c :: nat) \<and> of_char c \<le> (122 :: nat)"

definition is_alpha :: "char \<Rightarrow> bool" where
  "is_alpha c \<longleftrightarrow> is_upper_alpha c \<or> is_lower_alpha c"

definition is_alnum :: "char \<Rightarrow> bool" where
  "is_alnum c \<longleftrightarrow> is_alpha c \<or> is_digit c"

definition is_hex :: "char \<Rightarrow> bool" where
  "is_hex c \<longleftrightarrow> is_digit c \<or> 65 \<le> (of_char c :: nat) \<and> of_char c \<le> (70 :: nat) \<or>
     97 \<le> (of_char c :: nat) \<and> of_char c \<le> (102 :: nat)"

lemmas char_class_defs = is_upper_alpha_def is_lower_alpha_def is_alpha_def is_alnum_def is_hex_def
  is_digit_def

lemma length_lower [simp]: "length (lower s) = length s"
  by (simp add: lower_def)

lemma lower_char_idem [simp]: "lower_char (lower_char c) = lower_char c"
  by (auto simp: lower_char_def Let_def)

lemma lower_idem [simp]: "lower (lower s) = lower s"
  by (simp add: lower_def)

end
