(* ===== verification/Wire.thy ===== *)
theory Wire
  imports Encodings
begin

text \<open>
  The wire layer: \<open>solvetls/wire/reader.py\<close> (the bounds-checked big-endian reader) and
  \<open>solvetls/wire/naming.py\<close> (names of wire values, GREASE). The interface \<open>byte_source\<close> states
  what a reader promises; the TLS and SYN parsers use it through \<open>ByteReader\<close>, and the HTTP/2
  frame reader provides it a second time over the payload window of a frame.
\<close>

section \<open>The reader interface\<close>

text \<open>\<open>struct.unpack(">...", self.read(k))[0]\<close> for a \<open>k\<close>-byte field.\<close>

definition read_be :: "(int \<Rightarrow> ('s, bytes) meth) \<Rightarrow> nat \<Rightarrow> ('s, nat) meth" where
  "read_be rd k = bindM (rd (int k)) (\<lambda>bs. ret (be_nat bs))"

text \<open>
  \<open>decodes\<close>: on a buffer that starts with the bytes \<open>enc\<close> the method returns \<open>x\<close> and consumes
  exactly \<open>enc\<close>. \<open>yields\<close>: whenever the method returns, what it consumed is an encoding of what it
  returned. The two laws compose over \<open>bindM\<close>, so a parser is verified field by field.
\<close>

definition decodes :: "('s \<Rightarrow> bytes) \<Rightarrow> ('s \<Rightarrow> bool) \<Rightarrow> ('s, 'a) meth \<Rightarrow> 'a \<Rightarrow> bytes \<Rightarrow> bool" where
  "decodes rest ok m x enc \<longleftrightarrow>
     (\<forall>s ys. ok s \<and> rest s = enc @ ys \<longrightarrow> (\<exists>s'. m s = (Inr x, s') \<and> rest s' = ys \<and> ok s'))"

definition yields :: "('s \<Rightarrow> bytes) \<Rightarrow> ('s \<Rightarrow> bool) \<Rightarrow> ('s, 'a) meth \<Rightarrow> ('a \<Rightarrow> bytes \<Rightarrow> bool) \<Rightarrow> bool" where
  "yields rest ok m R \<longleftrightarrow>
     (\<forall>s x s'. ok s \<and> m s = (Inr x, s') \<longrightarrow> (\<exists>enc. rest s = enc @ rest s' \<and> R x enc) \<and> ok s')"

named_theorems decode_intros \<open>rules that verify a decoder field by field\<close>

lemma decodesE:
  assumes "decodes rest ok m x enc" and "ok s" and "rest s = enc @ ys"
  obtains s' where "m s = (Inr x, s')" and "rest s' = ys" and "ok s'"
  using assms by (auto simp: decodes_def)

lemma yieldsE:
  assumes "yields rest ok m R" and "ok s" and "m s = (Inr x, s')"
  obtains enc where "rest s = enc @ rest s'" and "R x enc" and "ok s'"
  using assms unfolding yields_def by blast

lemma decodes_ret [decode_intros]: "decodes rest ok (ret x) x []"
  by (simp add: decodes_def)

lemma decodes_bind [decode_intros]:
  assumes "decodes rest ok m x e1" and "decodes rest ok (f x) y e2"
  shows "decodes rest ok (bindM m f) y (e1 @ e2)"
  unfolding decodes_def
proof (intro allI impI)
  fix s ys
  assume a: "ok s \<and> rest s = (e1 @ e2) @ ys"
  then obtain s1 where 1: "m s = (Inr x, s1)" "rest s1 = e2 @ ys" "ok s1"
    using decodesE [OF assms(1), of s "e2 @ ys"] by auto
  then obtain s2 where "f x s1 = (Inr y, s2)" "rest s2 = ys" "ok s2"
    using decodesE [OF assms(2), of s1 ys] by auto
  with 1 show "\<exists>s'. bindM m f s = (Inr y, s') \<and> rest s' = ys \<and> ok s'"
    by (simp add: bindM_def)
qed

lemma decodes_bind_ret:
  assumes "decodes rest ok m x e" and "g x = y"
  shows "decodes rest ok (bindM m (\<lambda>v. ret (g v))) y e"
  using decodes_bind [OF assms(1), of "\<lambda>v. ret (g v)" y "[]"] assms(2) by (simp add: decodes_ret)

text \<open>A parser that looks whether the buffer ends is characterised on the whole buffer.\<close>

definition finishes :: "('s \<Rightarrow> bytes) \<Rightarrow> ('s \<Rightarrow> bool) \<Rightarrow> ('s, 'a) meth \<Rightarrow> 'a \<Rightarrow> bytes \<Rightarrow> bool" where
  "finishes rest ok m x enc \<longleftrightarrow> (\<forall>s. ok s \<and> rest s = enc \<longrightarrow> (\<exists>s'. m s = (Inr x, s')))"

lemma finishes_bind:
  assumes "decodes rest ok m x e1" and "finishes rest ok (f x) y e2"
  shows "finishes rest ok (bindM m f) y (e1 @ e2)"
  unfolding finishes_def
proof (intro allI impI)
  fix s
  assume a: "ok s \<and> rest s = e1 @ e2"
  then obtain s1 where 1: "m s = (Inr x, s1)" "rest s1 = e2" "ok s1"
    using decodesE [OF assms(1), of s e2] by auto
  then show "\<exists>s'. bindM m f s = (Inr y, s')"
    using assms(2) by (auto simp: bindM_def finishes_def)
qed

lemma finishes_bind_ret:
  "finishes rest ok m x e \<Longrightarrow> g x = y \<Longrightarrow> finishes rest ok (bindM m (\<lambda>v. ret (g v))) y e"
  by (fastforce simp: finishes_def bindM_def ret_def)

lemma yields_ret: "yields rest ok (ret x) (\<lambda>y enc. y = x \<and> enc = [])"
  by (simp add: yields_def)

lemma yields_raise: "yields rest ok (raise e) R"
  by (simp add: yields_def)

lemma yields_bind:
  assumes "yields rest ok m R" and "\<And>x e. R x e \<Longrightarrow> yields rest ok (f x) (Q x)"
  shows "yields rest ok (bindM m f) (\<lambda>y enc. \<exists>x e1 e2. enc = e1 @ e2 \<and> R x e1 \<and> Q x y e2)"
  unfolding yields_def
proof (intro allI impI)
  fix s y s2
  assume a: "ok s \<and> bindM m f s = (Inr y, s2)"
  then obtain x s1 where 1: "m s = (Inr x, s1)" "f x s1 = (Inr y, s2)" by (auto simp: bindM_eq_Inr)
  obtain e1 where 2: "rest s = e1 @ rest s1" "R x e1" "ok s1"
    using yieldsE [OF assms(1) _ 1(1)] a by blast
  obtain e2 where 3: "rest s1 = e2 @ rest s2" "Q x y e2" "ok s2"
    using yieldsE [OF assms(2) [OF 2(2)] 2(3) 1(2)] by blast
  have "rest s = (e1 @ e2) @ rest s2" using 2(1) 3(1) by simp
  with 2 3 show "(\<exists>enc. rest s = enc @ rest s2 \<and> (\<exists>x e1 e2. enc = e1 @ e2 \<and> R x e1 \<and> Q x y e2)) \<and> ok s2"
    by blast
qed

lemma yields_mono:
  "yields rest ok m R \<Longrightarrow> (\<And>x e. R x e \<Longrightarrow> Q x e) \<Longrightarrow> yields rest ok m Q"
  unfolding yields_def by blast

text \<open>\<open>fails ok m Q\<close>: every exception the method raises satisfies \<open>Q\<close>.\<close>

definition fails :: "('s \<Rightarrow> bool) \<Rightarrow> ('s, 'a) meth \<Rightarrow> (exn \<Rightarrow> bool) \<Rightarrow> bool" where
  "fails ok m Q \<longleftrightarrow> (\<forall>s e s'. ok s \<and> m s = (Inl e, s') \<longrightarrow> Q e)"

lemma fails_ret: "fails ok (ret x) Q"
  by (simp add: fails_def)

lemma fails_raise: "Q e \<Longrightarrow> fails ok (raise e) Q"
  by (simp add: fails_def)

lemma fails_bind:
  assumes "fails ok m Q" and "yields rest ok m R" and "\<And>x e. R x e \<Longrightarrow> fails ok (f x) Q"
  shows "fails ok (bindM m f) Q"
  unfolding fails_def
proof (intro allI impI)
  fix s e s2
  assume a: "ok s \<and> bindM m f s = (Inl e, s2)"
  then consider "m s = (Inl e, s2)" | x s1 where "m s = (Inr x, s1)" "f x s1 = (Inl e, s2)"
    by (auto simp: bindM_eq_Inl)
  then show "Q e"
  proof cases
    case 1
    with a assms(1) show ?thesis by (auto simp: fails_def)
  next
    case 2
    with a obtain enc where "R x enc" "ok s1" using yieldsE [OF assms(2), of s x s1] by blast
    from assms(3) [OF this(1)] this(2) 2(2) show ?thesis by (auto simp: fails_def)
  qed
qed

locale byte_source =
  fixes rd :: "int \<Rightarrow> ('s, bytes) meth"
    and rest :: "'s \<Rightarrow> bytes"
    and adv :: "nat \<Rightarrow> 's \<Rightarrow> 's"
    and ok :: "'s \<Rightarrow> bool"
  assumes rd_enough: "ok s \<Longrightarrow> n \<le> length (rest s) \<Longrightarrow> rd (int n) s = (Inr (take n (rest s)), adv n s)"
    and rd_short: "ok s \<Longrightarrow> length (rest s) < n \<Longrightarrow> \<exists>e. rd (int n) s = (Inl e, s)"
    and rest_adv: "ok s \<Longrightarrow> n \<le> length (rest s) \<Longrightarrow> rest (adv n s) = drop n (rest s)"
    and ok_adv: "ok s \<Longrightarrow> n \<le> length (rest s) \<Longrightarrow> ok (adv n s)"
begin

lemma rd_InrD:
  assumes "ok s" and "rd (int n) s = (Inr bs, s')"
  shows "n \<le> length (rest s) \<and> bs = take n (rest s) \<and> s' = adv n s \<and>
    rest s = bs @ rest s' \<and> length bs = n \<and> ok s'"
proof -
  have n: "n \<le> length (rest s)"
  proof (rule ccontr)
    assume "\<not> n \<le> length (rest s)"
    then obtain e where "rd (int n) s = (Inl e, s)" using rd_short [OF assms(1), of n] by auto
    with assms(2) show False by simp
  qed
  with rd_enough [OF assms(1) n] assms show ?thesis
    by (auto simp: rest_adv ok_adv)
qed

lemma rd_encoded:
  assumes "ok s" and "rest s = xs @ ys"
  shows "rd (int (length xs)) s = (Inr xs, adv (length xs) s) \<and>
    rest (adv (length xs) s) = ys \<and> ok (adv (length xs) s)"
  using assms by (simp add: rd_enough rest_adv ok_adv)

lemma read_be_short:
  assumes "ok s" and "length (rest s) < k"
  shows "\<exists>e. read_be rd k s = (Inl e, s)"
  using rd_short [OF assms] by (auto simp: read_be_def bindM_def)

lemma read_be_InrD:
  assumes "ok s" and "read_be rd k s = (Inr v, s')"
  shows "s' = adv k s \<and> rest s = be_bytes k v @ rest s' \<and> v < 256 ^ k \<and> ok s' \<and>
    k \<le> length (rest s) \<and> v = be_nat (take k (rest s))"
proof -
  from assms(2) obtain bs where "rd (int k) s = (Inr bs, s')" and v: "v = be_nat bs"
    by (auto simp: read_be_def bindM_eq_Inr)
  from rd_InrD [OF assms(1) this(1)] have
    d: "k \<le> length (rest s)" "bs = take k (rest s)" "s' = adv k s" "rest s = bs @ rest s'"
       "length bs = k" "ok s'"
    by blast+
  have "be_bytes k v = bs" using be_bytes_be_nat [of bs] d(5) v by simp
  moreover have "v < 256 ^ k" using be_nat_bound [of bs] d(5) v by simp
  moreover have "v = be_nat (take k (rest s))" using v d(2) by (rule subst [rotated])
  ultimately show ?thesis using d(1,3,4,6) by metis
qed

lemma read_be_encoded:
  assumes "ok s" and "rest s = be_bytes k v @ ys" and "v < 256 ^ k"
  shows "read_be rd k s = (Inr v, adv k s) \<and> rest (adv k s) = ys \<and> ok (adv k s)"
  using rd_encoded [OF assms(1,2)] assms(3)
  by (simp add: read_be_def bindM_def ret_def be_nat_be_bytes)

lemma decodes_rd: "length bs = n \<Longrightarrow> decodes rest ok (rd (int n)) bs bs"
  unfolding decodes_def using rd_encoded by blast

lemma decodes_be: "v < 256 ^ k \<Longrightarrow> decodes rest ok (read_be rd k) v (be_bytes k v)"
  unfolding decodes_def using read_be_encoded by blast

lemma yields_rd: "yields rest ok (rd (int n)) (\<lambda>bs enc. enc = bs \<and> length bs = n)"
  unfolding yields_def using rd_InrD by blast

lemma yields_be: "yields rest ok (read_be rd k) (\<lambda>v enc. enc = be_bytes k v \<and> v < 256 ^ k)"
  unfolding yields_def using read_be_InrD by blast

end

section \<open>ByteReader\<close>

record byte_reader =
  rdata :: bytes
  rpos :: nat

definition ByteReader :: "bytes \<Rightarrow> byte_reader" where
  "ByteReader data = \<lparr>rdata = data, rpos = 0\<rparr>"

definition has_more :: "byte_reader \<Rightarrow> bool" where
  "has_more r \<longleftrightarrow> rpos r < length (rdata r)"

definition read :: "int \<Rightarrow> (byte_reader, bytes) meth" where
  "read n r =
     (if n < 0 then raise (ValueError ''Read length must be non-negative'') r
      else if int (rpos r) + n > int (length (rdata r)) then raise (ValueError ''Insufficient data'') r
      else (Inr (slice (rdata r) (rpos r) (rpos r + nat n)), r\<lparr>rpos := rpos r + nat n\<rparr>))"

definition read_remaining :: "(byte_reader, bytes) meth" where
  "read_remaining r = read (int (length (rdata r)) - int (rpos r)) r"

definition read_uint8 :: "(byte_reader, nat) meth" where
  "read_uint8 = read_be read 1"

definition read_uint16 :: "(byte_reader, nat) meth" where
  "read_uint16 = read_be read 2"

definition read_uint24 :: "(byte_reader, nat) meth" where
  "read_uint24 = bindM (read 3) (\<lambda>bs. ret (be_nat (0 # bs)))"

definition read_uint32 :: "(byte_reader, nat) meth" where
  "read_uint32 = read_be read 4"

definition read_vector :: "nat \<Rightarrow> (byte_reader, bytes) meth" where
  "read_vector length_bytes =
     (if length_bytes = 1 then bindM read_uint8 (\<lambda>n. read (int n))
      else if length_bytes = 2 then bindM read_uint16 (\<lambda>n. read (int n))
      else if length_bytes = 3 then bindM read_uint24 (\<lambda>n. read (int n))
      else raise (ValueError ''Invalid length_bytes''))"

text \<open>
  The loop \<open>while reader.has_more(): xs.append(body(reader))\<close>. A body that does not advance the
  reader would repeat forever; the loop then has the value \<open>Diverges\<close>.
\<close>

definition remaining :: "byte_reader \<Rightarrow> nat" where
  "remaining r = length (rdata r) - rpos r"

function while_more :: "(byte_reader, 'a) meth \<Rightarrow> (byte_reader, 'a list) meth" where
  "while_more body r =
     (if has_more r then
        (case body r of
           (Inl e, r1) \<Rightarrow> (Inl e, r1)
         | (Inr x, r1) \<Rightarrow>
             (if remaining r1 < remaining r then
                (case while_more body r1 of
                   (Inl e, r2) \<Rightarrow> (Inl e, r2)
                 | (Inr xs, r2) \<Rightarrow> (Inr (x # xs), r2))
              else (Inl Diverges, r1)))
      else (Inr [], r))"
  by pat_completeness auto
termination
  by (relation "measure (\<lambda>(body, r). remaining r)") auto

declare while_more.simps [simp del]

section \<open>Laws of ByteReader\<close>

definition reader_rest :: "byte_reader \<Rightarrow> bytes" where
  "reader_rest r = drop (rpos r) (rdata r)"

definition reader_adv :: "nat \<Rightarrow> byte_reader \<Rightarrow> byte_reader" where
  "reader_adv n r = r\<lparr>rpos := rpos r + n\<rparr>"

definition reader_ok :: "byte_reader \<Rightarrow> bool" where
  "reader_ok r \<longleftrightarrow> rpos r \<le> length (rdata r)"

lemmas reader_defs = reader_rest_def reader_adv_def reader_ok_def

lemma ByteReader_simps [simp]:
  "reader_ok (ByteReader d)" "reader_rest (ByteReader d) = d"
  "rdata (ByteReader d) = d" "rpos (ByteReader d) = 0"
  by (simp_all add: ByteReader_def reader_defs)

interpretation br: byte_source read reader_rest reader_adv reader_ok
  by unfold_locales (auto simp: read_def reader_defs slice_def raise_def add.commute)

lemma has_more_iff: "reader_ok r \<Longrightarrow> has_more r \<longleftrightarrow> reader_rest r \<noteq> []"
  by (auto simp: has_more_def reader_defs)

lemma remaining_rest: "remaining r = length (reader_rest r)"
  by (simp add: remaining_def reader_rest_def)

lemma read_error: "fst (read n r) = Inl e \<Longrightarrow> is_ValueError e \<and> e \<noteq> Diverges"
  by (auto simp: read_def raise_def split: if_splits)

lemma read_error_state: "read n r = (Inl e, r') \<Longrightarrow> r' = r"
  by (auto simp: read_def split: if_splits)

lemma read_uint24_be: "read_uint24 = read_be read 3"
  by (simp add: read_uint24_def read_be_def be_nat_zero_cons)

lemmas read_uints = read_uint8_def read_uint16_def read_uint24_be read_uint32_def

lemma read_be_error: "read_be read k r = (Inl e, r') \<Longrightarrow> r' = r \<and> e = ValueError ''Insufficient data''"
  by (auto simp: read_be_def bindM_eq_Inl read_def split: if_splits)

lemma read_remaining_eq:
  "reader_ok r \<Longrightarrow> read_remaining r = (Inr (reader_rest r), reader_adv (remaining r) r)"
  unfolding read_remaining_def
  using br.rd_enough [of r "remaining r"]
  by (simp add: remaining_rest) (simp add: reader_defs of_nat_diff)

text \<open>The length-prefixed encoding that \<open>read_vector\<close> decodes.\<close>

definition vec :: "nat \<Rightarrow> bytes \<Rightarrow> bytes" where
  "vec k bs = be_bytes k (length bs) @ bs"

lemma length_vec [simp]: "length (vec k bs) = k + length bs"
  by (simp add: vec_def)

lemma vec_eq_Nil [simp]: "vec k bs = [] \<longleftrightarrow> k = 0 \<and> bs = []"
  by (simp add: vec_def)

lemma read_vector_cases:
  "k \<in> {1, 2, 3} \<Longrightarrow> read_vector k = bindM (read_be read k) (\<lambda>n. read (int n))"
  by (auto simp: read_vector_def read_uints)

abbreviation "br_decodes \<equiv> decodes reader_rest reader_ok"
abbreviation "br_yields \<equiv> yields reader_rest reader_ok"

lemmas br_decodes_rd [decode_intros] = br.decodes_rd

lemma br_decodes_uints [decode_intros]:
  "v < 256 \<Longrightarrow> br_decodes read_uint8 v (be_bytes 1 v)"
  "v < 65536 \<Longrightarrow> br_decodes read_uint16 v (be_bytes 2 v)"
  "v < 16777216 \<Longrightarrow> br_decodes read_uint24 v (be_bytes 3 v)"
  "v < 4294967296 \<Longrightarrow> br_decodes read_uint32 v (be_bytes 4 v)"
  using br.decodes_be [of v 1] br.decodes_be [of v 2] br.decodes_be [of v 3] br.decodes_be [of v 4]
  by (simp_all add: read_uints)

lemma br_yields_uints:
  "br_yields read_uint8 (\<lambda>v enc. enc = be_bytes 1 v \<and> v < 256)"
  "br_yields read_uint16 (\<lambda>v enc. enc = be_bytes 2 v \<and> v < 65536)"
  "br_yields read_uint24 (\<lambda>v enc. enc = be_bytes 3 v \<and> v < 16777216)"
  "br_yields read_uint32 (\<lambda>v enc. enc = be_bytes 4 v \<and> v < 4294967296)"
  using br.yields_be [of 1] br.yields_be [of 2] br.yields_be [of 3] br.yields_be [of 4]
  by (simp_all add: read_uints)

lemma br_decodes_vector [decode_intros]:
  "k \<in> {1, 2, 3} \<Longrightarrow> length bs < 256 ^ k \<Longrightarrow> br_decodes (read_vector k) bs (vec k bs)"
  unfolding vec_def by (auto simp: read_vector_cases intro!: decodes_bind br.decodes_be br.decodes_rd)

lemma br_yields_vector:
  "br_yields (read_vector k) (\<lambda>bs enc. enc = vec k bs \<and> length bs < 256 ^ k \<and> k \<in> {1, 2, 3})"
proof (cases "k \<in> {1, 2, 3}")
  case True
  have "br_yields (bindM (read_be read k) (\<lambda>n. read (int n)))
      (\<lambda>bs enc. \<exists>n e1 e2. enc = e1 @ e2 \<and> (e1 = be_bytes k n \<and> n < 256 ^ k) \<and> e2 = bs \<and> length bs = n)"
    by (rule yields_bind [OF br.yields_be br.yields_rd])
  then show ?thesis
    unfolding read_vector_cases [OF True] by (rule yields_mono) (use True in \<open>auto simp: vec_def\<close>)
next
  case False
  then show ?thesis by (simp add: read_vector_def yields_raise)
qed

abbreviation "insufficient \<equiv> (\<lambda>e. e = ValueError ''Insufficient data'')"
abbreviation "br_fails \<equiv> fails reader_ok"

lemma read_nonneg_fails: "0 \<le> n \<Longrightarrow> br_fails (read n) insufficient"
  by (auto simp: fails_def read_def split: if_splits)

lemma br_fails_uints:
  "br_fails read_uint8 insufficient" "br_fails read_uint16 insufficient"
  "br_fails read_uint24 insufficient" "br_fails read_uint32 insufficient"
  by (auto simp: fails_def read_uints dest: read_be_error)

lemma br_fails_vector: "k \<in> {1, 2, 3} \<Longrightarrow> br_fails (read_vector k) insufficient"
  by (auto simp: read_vector_cases fails_def bindM_eq_Inl dest!: read_be_error)
     (auto simp: read_def split: if_splits)

text \<open>
  A loop over the encodings of a list of items returns that list and leaves the reader at the
  end; conversely, whatever a successful loop returns is what the buffer encodes.
\<close>

lemma while_more_decodes:
  assumes step: "\<And>x. x \<in> set xs \<Longrightarrow> br_decodes body x (enc x)"
    and nonempty: "\<And>x. x \<in> set xs \<Longrightarrow> enc x \<noteq> []"
    and "reader_ok r" and "reader_rest r = concat (map enc xs)"
  shows "\<exists>r'. while_more body r = (Inr xs, r') \<and> reader_rest r' = []"
  using assms
proof (induction xs arbitrary: r)
  case Nil
  then show ?case by (simp add: while_more.simps has_more_iff)
next
  case (Cons x xs)
  have "br_decodes body x (enc x)" using Cons.prems(1) by simp
  then obtain r1 where 1: "body r = (Inr x, r1)" "reader_rest r1 = concat (map enc xs)" "reader_ok r1"
    by (rule decodesE) (use Cons.prems in simp_all)
  obtain r2 where 2: "while_more body r1 = (Inr xs, r2)" "reader_rest r2 = []"
    using Cons.IH [OF _ _ 1(3,2)] Cons.prems(1,2) by auto
  have "has_more r" "remaining r1 < remaining r"
    using Cons.prems 1 by (auto simp: has_more_iff remaining_rest)
  with 1 2 show ?case by (subst while_more.simps) simp
qed

lemma while_more_yields:
  assumes step: "br_yields body R"
    and "reader_ok r" and "while_more body r = (Inr xs, r')"
  shows "\<exists>encs. reader_rest r = concat encs \<and> list_all2 R xs encs \<and> reader_rest r' = []"
  using assms(2,3)
proof (induction xs arbitrary: r)
  case Nil
  then have "\<not> has_more r \<and> r' = r"
    by (subst (asm) while_more.simps) (auto split: if_splits prod.splits sum.splits)
  with Nil.prems show ?case by (intro exI [of _ "[]"]) (simp add: has_more_iff)
next
  case (Cons x xs)
  then obtain r1 where 1: "body r = (Inr x, r1)" "while_more body r1 = (Inr xs, r')"
    by (subst (asm) while_more.simps) (auto split: if_splits prod.splits sum.splits)
  obtain e where 2: "reader_rest r = e @ reader_rest r1" "R x e" "reader_ok r1"
    using yieldsE [OF step Cons.prems(1) 1(1)] by blast
  obtain encs where "reader_rest r1 = concat encs" "list_all2 R xs encs" "reader_rest r' = []"
    using Cons.IH [OF 2(3) 1(2)] by blast
  with 2 show ?case by (intro exI [of _ "e # encs"]) simp
qed

text \<open>A loop whose body consumes at least one byte terminates: it never has the value \<open>Diverges\<close>.\<close>

lemma while_more_error:
  assumes yield: "br_yields body R" and progress: "\<And>x enc. R x enc \<Longrightarrow> enc \<noteq> []"
    and err: "br_fails body Q"
    and "reader_ok r" and "while_more body r = (Inl e, r')"
  shows "Q e"
  using assms(4,5)
proof (induction "remaining r" arbitrary: r rule: less_induct)
  case less
  from less.prems(2) have "has_more r" by (subst (asm) while_more.simps) (auto split: if_splits)
  show ?case
  proof (cases "body r")
    case (Pair res r1)
    show ?thesis
    proof (cases res)
      case (Inl e')
      with Pair less.prems \<open>has_more r\<close> have "e' = e" by (subst (asm) while_more.simps) simp
      with err less.prems(1) Pair Inl show ?thesis by (auto simp: fails_def)
    next
      case (Inr x)
      obtain enc where "reader_rest r = enc @ reader_rest r1" "R x enc" "reader_ok r1"
        using yieldsE [OF yield less.prems(1), of x r1] Pair Inr by blast
      then have s: "remaining r1 < remaining r" "reader_ok r1"
        using progress by (auto simp: remaining_rest)
      with Pair Inr less.prems(2) \<open>has_more r\<close> obtain r2 where "while_more body r1 = (Inl e, r2)"
        by (subst (asm) while_more.simps) (auto split: prod.splits sum.splits)
      with less.prems(2) \<open>has_more r\<close> Pair Inr s have "while_more body r1 = (Inl e, r')"
        by (subst (asm) while_more.simps) auto
      with less.hyps [OF s] show ?thesis by blast
    qed
  qed
qed

text \<open>
  \<open>with_reader d m\<close>: run \<open>m\<close> on a fresh \<open>ByteReader(d)\<close> that is dropped afterwards; the enclosing
  reader does not move.
\<close>

definition with_reader :: "bytes \<Rightarrow> (byte_reader, 'a) meth \<Rightarrow> ('s, 'a) meth" where
  "with_reader d m = (\<lambda>s. (fst (m (ByteReader d)), s))"

definition parses :: "(byte_reader, 'a) meth \<Rightarrow> bytes \<Rightarrow> exn + 'a" where
  "parses m d = fst (m (ByteReader d))"

lemma with_reader_eq [simp]: "with_reader d m s = (parses m d, s)"
  by (simp add: with_reader_def parses_def)

lemma parses_decodes: "br_decodes m x enc \<Longrightarrow> parses m (enc @ ys) = Inr x"
  unfolding parses_def by (erule decodesE [of _ _ _ _ _ "ByteReader (enc @ ys)" ys]) simp_all

lemma parses_while_more:
  assumes "\<And>x. x \<in> set xs \<Longrightarrow> br_decodes body x (enc x)" and "\<And>x. x \<in> set xs \<Longrightarrow> enc x \<noteq> []"
  shows "parses (while_more body) (concat (map enc xs)) = Inr xs"
  using while_more_decodes [OF assms, of xs "ByteReader (concat (map enc xs))"]
  unfolding parses_def by auto

lemma parses_while_moreD:
  assumes "br_yields body R" and "parses (while_more body) d = Inr xs"
  shows "\<exists>encs. d = concat encs \<and> list_all2 R xs encs"
proof -
  obtain r' where "while_more body (ByteReader d) = (Inr xs, r')"
    using assms(2) unfolding parses_def by (metis prod.collapse)
  from while_more_yields [OF assms(1) _ this] show ?thesis by auto
qed

lemma parses_while_more_error:
  assumes "br_yields body R" and "\<And>x enc. R x enc \<Longrightarrow> enc \<noteq> []"
    and "br_fails body Q"
    and "parses (while_more body) d = Inl e"
  shows "Q e"
proof -
  obtain r' where "while_more body (ByteReader d) = (Inl e, r')"
    using assms(4) unfolding parses_def by (metis prod.collapse)
  from while_more_error [of body R Q, OF assms(1-3) _ this] show ?thesis by simp
qed

lemma decodes_with_reader [decode_intros]:
  "parses m d = Inr x \<Longrightarrow> decodes rest ok (with_reader d m) x []"
  by (simp add: decodes_def)

lemma yields_with_reader:
  "yields rest ok (with_reader d m) (\<lambda>x enc. parses m d = Inr x \<and> enc = [])"
  by (simp add: yields_def)

lemma fails_with_reader:
  "(\<And>e. parses m d = Inl e \<Longrightarrow> Q e) \<Longrightarrow> fails ok (with_reader d m) Q"
  by (simp add: fails_def)

lemma list_all2_function:
  "list_all2 (\<lambda>x e. e = enc x \<and> P x) xs encs \<longleftrightarrow> encs = map enc xs \<and> list_all P xs"
  by (induction xs arbitrary: encs) (auto simp: list_all2_Cons1)

end
