(* ===== verification/Naming.thy ===== *)
theory Naming
  imports Wire
begin

unbundle bit_operations_syntax

text \<open>
  \<open>solvetls/wire/naming.py\<close>: names for wire values and the GREASE code points. Reports are
  Python dictionaries that end up as JSON, so this theory also fixes the JSON values; a dictionary
  is an association list in insertion order, and a string is a list of code points.
\<close>

section \<open>JSON values\<close>

datatype json =
    JNull
  | JBool bool
  | JNum int
  | JStr ustr
  | JList "json list"
  | JObj "(string \<times> json) list"

type_synonym dict = "(string \<times> json) list"

definition jstr :: "string \<Rightarrow> json" where
  "jstr s = JStr (codes s)"

definition jnat :: "nat \<Rightarrow> json" where
  "jnat n = JNum (int n)"

definition jhex :: "bytes \<Rightarrow> json" where
  "jhex bs = jstr (hex_bytes bs)"

fun jopt :: "('a \<Rightarrow> json) \<Rightarrow> 'a option \<Rightarrow> json" where
  "jopt f None = JNull"
| "jopt f (Some x) = f x"

lemma jhex_inject [simp]: "jhex a = jhex b \<longleftrightarrow> a = b"
  by (simp add: jhex_def jstr_def inj_codes)

section \<open>GREASE\<close>

definition GREASE_VALUES :: "nat list" where
  "GREASE_VALUES = map (\<lambda>i. push_bit 12 i OR 0x0A00 OR push_bit 4 i OR 0x0A) [0..<16]"

lemma GREASE_VALUES_list:
  "GREASE_VALUES = [0x0a0a, 0x1a1a, 0x2a2a, 0x3a3a, 0x4a4a, 0x5a5a, 0x6a6a, 0x7a7a,
     0x8a8a, 0x9a9a, 0xaaaa, 0xbaba, 0xcaca, 0xdada, 0xeaea, 0xfafa]"
  by (simp add: GREASE_VALUES_def upt_rec push_bit_eq_mult)

lemma GREASE_VALUES_iff:
  "v \<in> set GREASE_VALUES \<longleftrightarrow> v < 65536 \<and> v div 256 = v mod 256 \<and> v mod 16 = 10"
proof
  assume "v \<in> set GREASE_VALUES"
  then show "v < 65536 \<and> v div 256 = v mod 256 \<and> v mod 16 = 10"
    by (auto simp: GREASE_VALUES_list)
next
  assume a: "v < 65536 \<and> v div 256 = v mod 256 \<and> v mod 16 = 10"
  define k where "k = v mod 256 div 16"
  have "v mod 256 mod 16 = v mod 16" by (rule mod_mod_cancel) simp
  then have "v mod 256 = 16 * k + 10"
    using a div_mult_mod_eq [of "v mod 256" 16] by (simp add: k_def)
  moreover have "v = 256 * (v div 256) + v mod 256" by simp
  moreover have "v div 256 = v mod 256" using a by simp
  ultimately have "v = 256 * (16 * k + 10) + (16 * k + 10)" by metis
  then have v: "v = 257 * (16 * k + 10)" by simp
  have eq: "GREASE_VALUES = map (\<lambda>k. 257 * (16 * k + 10)) [0..<16]"
    by (simp add: GREASE_VALUES_list upt_rec)
  have "k < 16" by (simp add: k_def less_mult_imp_div_less)
  then show "v \<in> set GREASE_VALUES" unfolding eq v by simp
qed

section \<open>Names\<close>

text \<open>An \<open>IntEnum\<close> is the list of its members, value and name, in declaration order.\<close>

type_synonym int_enum = "(nat \<times> string) list"

definition enum_name :: "nat \<Rightarrow> int_enum \<Rightarrow> string option" where
  "enum_name value enum_type = map_of enum_type value"

definition describe :: "nat \<Rightarrow> int_enum option \<Rightarrow> dict" where
  "describe value enum_type =
     [(''value'', jnat value),
      (''hex'', jstr (''0x'' @ hex04 value)),
      (''name'', (case enum_type of None \<Rightarrow> JNull | Some t \<Rightarrow> jopt jstr (enum_name value t)))] @
     (if value \<in> set GREASE_VALUES then [(''grease'', JBool True)] else [])"

lemma describe_value: "map_of (describe v t) ''value'' = Some (jnat v)"
  by (simp add: describe_def)

lemma describe_grease: "map_of (describe v t) ''grease'' = (if v \<in> set GREASE_VALUES then Some (JBool True) else None)"
  by (simp add: describe_def)

end
