(* ===== verification/Tls_Enums.thy ===== *)
theory Tls_Enums
  imports Naming
begin

text \<open>
  \<open>solvetls/tls/enums.py\<close>: the registries of TLS code points, member by member in declaration
  order, and the members the other components name.
\<close>

definition TLSVersion :: int_enum where
  "TLSVersion = [
     (0x0300, ''SSL_3_0''),
     (0x0301, ''TLS_1_0''),
     (0x0302, ''TLS_1_1''),
     (0x0303, ''TLS_1_2''),
     (0x0304, ''TLS_1_3'')]"

definition ExtensionType :: int_enum where
  "ExtensionType = [
     (0, ''SERVER_NAME''),
     (1, ''MAX_FRAGMENT_LENGTH''),
     (2, ''CLIENT_CERTIFICATE_URL''),
     (3, ''TRUSTED_CA_KEYS''),
     (4, ''TRUNCATED_HMAC''),
     (5, ''STATUS_REQUEST''),
     (6, ''USER_MAPPING''),
     (7, ''CLIENT_AUTHZ''),
     (8, ''SERVER_AUTHZ''),
     (9, ''CERT_TYPE''),
     (10, ''SUPPORTED_GROUPS''),
     (11, ''EC_POINT_FORMATS''),
     (12, ''SRP''),
     (13, ''SIGNATURE_ALGORITHMS''),
     (14, ''USE_SRTP''),
     (15, ''HEARTBEAT''),
     (16, ''APPLICATION_LAYER_PROTOCOL_NEGOTIATION''),
     (17, ''STATUS_REQUEST_V2''),
     (18, ''SIGNED_CERTIFICATE_TIMESTAMP''),
     (19, ''CLIENT_CERTIFICATE_TYPE''),
     (20, ''SERVER_CERTIFICATE_TYPE''),
     (21, ''PADDING''),
     (22, ''ENCRYPT_THEN_MAC''),
     (23, ''EXTENDED_MASTER_SECRET''),
     (24, ''TOKEN_BINDING''),
     (25, ''CACHED_INFO''),
     (26, ''TLS_LTS''),
     (27, ''COMPRESS_CERTIFICATE''),
     (28, ''RECORD_SIZE_LIMIT''),
     (29, ''PWD_PROTECT''),
     (30, ''PWD_CLEAR''),
     (31, ''PASSWORD_SALT''),
     (32, ''TICKET_PINNING''),
     (33, ''TLS_CERT_WITH_EXTERN_PSK''),
     (34, ''DELEGATED_CREDENTIAL''),
     (35, ''SESSION_TICKET_TLS''),
     (36, ''TLMSP''),
     (37, ''TLMSP_PROXYING''),
     (38, ''TLMSP_DELEGATE''),
     (39, ''SUPPORTED_EKT_CIPHERS''),
     (40, ''RESERVED_40''),
     (41, ''PRE_SHARED_KEY''),
     (42, ''EARLY_DATA''),
     (43, ''SUPPORTED_VERSIONS''),
     (44, ''COOKIE''),
     (45, ''PSK_KEY_EXCHANGE_MODES''),
     (46, ''RESERVED_46''),
     (47, ''CERTIFICATE_AUTHORITIES''),
     (48, ''OID_FILTERS''),
     (49, ''POST_HANDSHAKE_AUTH''),
     (50, ''SIGNATURE_ALGORITHMS_CERT''),
     (51, ''KEY_SHARE''),
     (52, ''TRANSPARENCY_INFO''),
     (53, ''CONNECTION_ID_DEPRECATED''),
     (54, ''CONNECTION_ID''),
     (55, ''EXTERNAL_ID_HASH''),
     (56, ''EXTERNAL_SESSION_ID''),
     (57, ''QUIC_TRANSPORT_PARAMETERS''),
     (58, ''TICKET_REQUEST''),
     (59, ''DNSSEC_CHAIN''),
     (60, ''SEQUENCE_NUMBER_ENCRYPTION_ALGORITHMS''),
     (61, ''RRC''),
     (62, ''TLS_FLAGS''),
     (2570, ''GREASE_0A''),
     (6682, ''GREASE_1A''),
     (10794, ''GREASE_2A''),
     (14906, ''GREASE_3A''),
     (19018, ''GREASE_4A''),
     (23130, ''GREASE_5A''),
     (27242, ''GREASE_6A''),
     (31354, ''GREASE_7A''),
     (35466, ''GREASE_8A''),
     (39578, ''GREASE_9A''),
     (43690, ''GREASE_AA''),
     (47802, ''GREASE_BA''),
     (51914, ''GREASE_CA''),
     (56026, ''GREASE_DA''),
     (60138, ''GREASE_EA''),
     (64250, ''GREASE_FA''),
     (65281, ''RENEGOTIATION_INFO''),
     (65037, ''ENCRYPTED_CLIENT_HELLO''),
     (30031, ''CHANNEL_ID_OLD''),
     (30032, ''CHANNEL_ID_NEW''),
     (13175, ''ORIGIN_BOUND_CERTS'')]"

definition CipherSuite :: int_enum where
  "CipherSuite = [
     (0x1301, ''TLS_AES_128_GCM_SHA256''),
     (0x1302, ''TLS_AES_256_GCM_SHA384''),
     (0x1303, ''TLS_CHACHA20_POLY1305_SHA256''),
     (0x1304, ''TLS_AES_128_CCM_SHA256''),
     (0x1305, ''TLS_AES_128_CCM_8_SHA256''),
     (0x0001, ''TLS_RSA_WITH_NULL_MD5''),
     (0x0002, ''TLS_RSA_WITH_NULL_SHA''),
     (0x0004, ''TLS_RSA_WITH_RC4_128_MD5''),
     (0x0005, ''TLS_RSA_WITH_RC4_128_SHA''),
     (0x000a, ''TLS_RSA_WITH_3DES_EDE_CBC_SHA''),
     (0x002f, ''TLS_RSA_WITH_AES_128_CBC_SHA''),
     (0x0035, ''TLS_RSA_WITH_AES_256_CBC_SHA''),
     (0x003b, ''TLS_RSA_WITH_NULL_SHA256''),
     (0x003c, ''TLS_RSA_WITH_AES_128_CBC_SHA256''),
     (0x003d, ''TLS_RSA_WITH_AES_256_CBC_SHA256''),
     (0x009c, ''TLS_RSA_WITH_AES_128_GCM_SHA256''),
     (0x009d, ''TLS_RSA_WITH_AES_256_GCM_SHA384''),
     (0x0016, ''TLS_DHE_RSA_WITH_3DES_EDE_CBC_SHA''),
     (0x0033, ''TLS_DHE_RSA_WITH_AES_128_CBC_SHA''),
     (0x0039, ''TLS_DHE_RSA_WITH_AES_256_CBC_SHA''),
     (0x0067, ''TLS_DHE_RSA_WITH_AES_128_CBC_SHA256''),
     (0x006b, ''TLS_DHE_RSA_WITH_AES_256_CBC_SHA256''),
     (0x009e, ''TLS_DHE_RSA_WITH_AES_128_GCM_SHA256''),
     (0x009f, ''TLS_DHE_RSA_WITH_AES_256_GCM_SHA384''),
     (0xccaa, ''TLS_DHE_RSA_WITH_CHACHA20_POLY1305_SHA256''),
     (0xc010, ''TLS_ECDHE_RSA_WITH_NULL_SHA''),
     (0xc011, ''TLS_ECDHE_RSA_WITH_RC4_128_SHA''),
     (0xc012, ''TLS_ECDHE_RSA_WITH_3DES_EDE_CBC_SHA''),
     (0xc013, ''TLS_ECDHE_RSA_WITH_AES_128_CBC_SHA''),
     (0xc014, ''TLS_ECDHE_RSA_WITH_AES_256_CBC_SHA''),
     (0xc027, ''TLS_ECDHE_RSA_WITH_AES_128_CBC_SHA256''),
     (0xc028, ''TLS_ECDHE_RSA_WITH_AES_256_CBC_SHA384''),
     (0xc02f, ''TLS_ECDHE_RSA_WITH_AES_128_GCM_SHA256''),
     (0xc030, ''TLS_ECDHE_RSA_WITH_AES_256_GCM_SHA384''),
     (0xcca8, ''TLS_ECDHE_RSA_WITH_CHACHA20_POLY1305_SHA256''),
     (0xc006, ''TLS_ECDHE_ECDSA_WITH_NULL_SHA''),
     (0xc007, ''TLS_ECDHE_ECDSA_WITH_RC4_128_SHA''),
     (0xc008, ''TLS_ECDHE_ECDSA_WITH_3DES_EDE_CBC_SHA''),
     (0xc009, ''TLS_ECDHE_ECDSA_WITH_AES_128_CBC_SHA''),
     (0xc00a, ''TLS_ECDHE_ECDSA_WITH_AES_256_CBC_SHA''),
     (0xc023, ''TLS_ECDHE_ECDSA_WITH_AES_128_CBC_SHA256''),
     (0xc024, ''TLS_ECDHE_ECDSA_WITH_AES_256_CBC_SHA384''),
     (0xc02b, ''TLS_ECDHE_ECDSA_WITH_AES_128_GCM_SHA256''),
     (0xc02c, ''TLS_ECDHE_ECDSA_WITH_AES_256_GCM_SHA384''),
     (0xcca9, ''TLS_ECDHE_ECDSA_WITH_CHACHA20_POLY1305_SHA256''),
     (0x008c, ''TLS_PSK_WITH_AES_128_CBC_SHA''),
     (0x008d, ''TLS_PSK_WITH_AES_256_CBC_SHA''),
     (0x00a8, ''TLS_PSK_WITH_AES_128_GCM_SHA256''),
     (0x00a9, ''TLS_PSK_WITH_AES_256_GCM_SHA384''),
     (0xccab, ''TLS_PSK_WITH_CHACHA20_POLY1305_SHA256''),
     (0xc035, ''TLS_ECDHE_PSK_WITH_AES_128_CBC_SHA''),
     (0xc036, ''TLS_ECDHE_PSK_WITH_AES_256_CBC_SHA''),
     (0xc037, ''TLS_ECDHE_PSK_WITH_AES_128_CBC_SHA256''),
     (0xc038, ''TLS_ECDHE_PSK_WITH_AES_256_CBC_SHA384''),
     (0xccac, ''TLS_ECDHE_PSK_WITH_CHACHA20_POLY1305_SHA256''),
     (0xd001, ''TLS_ECDHE_PSK_WITH_AES_128_GCM_SHA256''),
     (0xd002, ''TLS_ECDHE_PSK_WITH_AES_256_GCM_SHA384''),
     (0x0018, ''TLS_DH_anon_WITH_RC4_128_MD5''),
     (0x001b, ''TLS_DH_anon_WITH_3DES_EDE_CBC_SHA''),
     (0x0034, ''TLS_DH_anon_WITH_AES_128_CBC_SHA''),
     (0x003a, ''TLS_DH_anon_WITH_AES_256_CBC_SHA''),
     (0x0041, ''TLS_RSA_WITH_CAMELLIA_128_CBC_SHA''),
     (0x0084, ''TLS_RSA_WITH_CAMELLIA_256_CBC_SHA''),
     (0xc08a, ''TLS_ECDHE_RSA_WITH_CAMELLIA_128_GCM_SHA256''),
     (0xc08b, ''TLS_ECDHE_RSA_WITH_CAMELLIA_256_GCM_SHA384''),
     (0xc03c, ''TLS_RSA_WITH_ARIA_128_CBC_SHA256''),
     (0xc03d, ''TLS_RSA_WITH_ARIA_256_CBC_SHA384''),
     (0xc060, ''TLS_ECDHE_RSA_WITH_ARIA_128_GCM_SHA256''),
     (0xc061, ''TLS_ECDHE_RSA_WITH_ARIA_256_GCM_SHA384''),
     (0x00ff, ''TLS_EMPTY_RENEGOTIATION_INFO_SCSV''),
     (0x5600, ''TLS_FALLBACK_SCSV'')]"

definition NamedGroup :: int_enum where
  "NamedGroup = [
     (0x0001, ''SECT163K1''),
     (0x0002, ''SECT163R1''),
     (0x0003, ''SECT163R2''),
     (0x0004, ''SECT193R1''),
     (0x0005, ''SECT193R2''),
     (0x0006, ''SECT233K1''),
     (0x0007, ''SECT233R1''),
     (0x0008, ''SECT239K1''),
     (0x0009, ''SECT283K1''),
     (0x000a, ''SECT283R1''),
     (0x000b, ''SECT409K1''),
     (0x000c, ''SECT409R1''),
     (0x000d, ''SECT571K1''),
     (0x000e, ''SECT571R1''),
     (0x000f, ''SECP160K1''),
     (0x0010, ''SECP160R1''),
     (0x0011, ''SECP160R2''),
     (0x0012, ''SECP192K1''),
     (0x0013, ''SECP192R1''),
     (0x0014, ''SECP224K1''),
     (0x0015, ''SECP224R1''),
     (0x0016, ''SECP256K1''),
     (0x0017, ''SECP256R1''),
     (0x0018, ''SECP384R1''),
     (0x0019, ''SECP521R1''),
     (0x001a, ''BRAINPOOLP256R1''),
     (0x001b, ''BRAINPOOLP384R1''),
     (0x001c, ''BRAINPOOLP512R1''),
     (0x001d, ''X25519''),
     (0x001e, ''X448''),
     (0x001f, ''BRAINPOOLP256R1TLS13''),
     (0x0020, ''BRAINPOOLP384R1TLS13''),
     (0x0021, ''BRAINPOOLP512R1TLS13''),
     (0x0022, ''GC256A''),
     (0x0023, ''GC256B''),
     (0x0024, ''GC256C''),
     (0x0025, ''GC256D''),
     (0x0026, ''GC512A''),
     (0x0027, ''GC512B''),
     (0x0028, ''GC512C''),
     (0x0029, ''CURVESM2''),
     (0x0100, ''FFDHE2048''),
     (0x0101, ''FFDHE3072''),
     (0x0102, ''FFDHE4096''),
     (0x0103, ''FFDHE6144''),
     (0x0104, ''FFDHE8192''),
     (0x0200, ''MLKEM512''),
     (0x0201, ''MLKEM768''),
     (0x0202, ''MLKEM1024''),
     (0x11eb, ''SECP256R1MLKEM768''),
     (0x11ec, ''X25519MLKEM768''),
     (0x11ed, ''SECP384R1MLKEM1024''),
     (0x6399, ''X25519KYBER768DRAFT00''),
     (0xff01, ''ARBITRARY_EXPLICIT_PRIME_CURVES''),
     (0xff02, ''ARBITRARY_EXPLICIT_CHAR2_CURVES'')]"

definition SignatureScheme :: int_enum where
  "SignatureScheme = [
     (0x0101, ''RSA_PKCS1_MD5''),
     (0x0102, ''DSA_MD5''),
     (0x0103, ''ECDSA_MD5''),
     (0x0201, ''RSA_PKCS1_SHA1''),
     (0x0202, ''DSA_SHA1''),
     (0x0203, ''ECDSA_SHA1''),
     (0x0301, ''RSA_PKCS1_SHA224''),
     (0x0302, ''DSA_SHA224''),
     (0x0303, ''ECDSA_SHA224''),
     (0x0402, ''DSA_SHA256''),
     (0x0502, ''DSA_SHA384''),
     (0x0602, ''DSA_SHA512''),
     (0x0401, ''RSA_PKCS1_SHA256''),
     (0x0403, ''ECDSA_SECP256R1_SHA256''),
     (0x0501, ''RSA_PKCS1_SHA384''),
     (0x0503, ''ECDSA_SECP384R1_SHA384''),
     (0x0601, ''RSA_PKCS1_SHA512''),
     (0x0603, ''ECDSA_SECP521R1_SHA512''),
     (0x0804, ''RSA_PSS_RSAE_SHA256''),
     (0x0805, ''RSA_PSS_RSAE_SHA384''),
     (0x0806, ''RSA_PSS_RSAE_SHA512''),
     (0x0807, ''ED25519''),
     (0x0808, ''ED448''),
     (0x0809, ''RSA_PSS_PSS_SHA256''),
     (0x080a, ''RSA_PSS_PSS_SHA384''),
     (0x080b, ''RSA_PSS_PSS_SHA512''),
     (0x081a, ''ECDSA_BRAINPOOLP256R1TLS13_SHA256''),
     (0x081b, ''ECDSA_BRAINPOOLP384R1TLS13_SHA384''),
     (0x081c, ''ECDSA_BRAINPOOLP512R1TLS13_SHA512''),
     (0x0708, ''SM2SIG_SM3''),
     (0x0709, ''GOSTR34102012_256A''),
     (0x070a, ''GOSTR34102012_256B''),
     (0x070b, ''GOSTR34102012_256C''),
     (0x070c, ''GOSTR34102012_256D''),
     (0x070d, ''GOSTR34102012_512A''),
     (0x070e, ''GOSTR34102012_512B''),
     (0x070f, ''GOSTR34102012_512C''),
     (0x0420, ''RSA_PKCS1_SHA256_LEGACY''),
     (0x0520, ''RSA_PKCS1_SHA384_LEGACY''),
     (0x0620, ''RSA_PKCS1_SHA512_LEGACY'')]"

definition ECPointFormat :: int_enum where
  "ECPointFormat = [
     (0, ''UNCOMPRESSED''),
     (1, ''ANSIX962_COMPRESSED_PRIME''),
     (2, ''ANSIX962_COMPRESSED_CHAR2'')]"

definition PskKeyExchangeMode :: int_enum where
  "PskKeyExchangeMode = [
     (0, ''PSK_KE''),
     (1, ''PSK_DHE_KE'')]"

definition CertificateCompressionAlgorithm :: int_enum where
  "CertificateCompressionAlgorithm = [
     (1, ''ZLIB''),
     (2, ''BROTLI''),
     (3, ''ZSTD'')]"

definition ServerNameType :: int_enum where
  "ServerNameType = [
     (0, ''HOST_NAME'')]"
section \<open>Members named by other components\<close>

definition EXT_SERVER_NAME :: nat where [simp]: "EXT_SERVER_NAME = 0"
definition EXT_SUPPORTED_GROUPS :: nat where [simp]: "EXT_SUPPORTED_GROUPS = 10"
definition EXT_EC_POINT_FORMATS :: nat where [simp]: "EXT_EC_POINT_FORMATS = 11"
definition EXT_SIGNATURE_ALGORITHMS :: nat where [simp]: "EXT_SIGNATURE_ALGORITHMS = 13"
definition EXT_ALPN :: nat where [simp]: "EXT_ALPN = 16"
definition EXT_PADDING :: nat where [simp]: "EXT_PADDING = 21"
definition EXT_ENCRYPT_THEN_MAC :: nat where [simp]: "EXT_ENCRYPT_THEN_MAC = 22"
definition EXT_EXTENDED_MASTER_SECRET :: nat where [simp]: "EXT_EXTENDED_MASTER_SECRET = 23"
definition EXT_COMPRESS_CERTIFICATE :: nat where [simp]: "EXT_COMPRESS_CERTIFICATE = 27"
definition EXT_RECORD_SIZE_LIMIT :: nat where [simp]: "EXT_RECORD_SIZE_LIMIT = 28"
definition EXT_SUPPORTED_VERSIONS :: nat where [simp]: "EXT_SUPPORTED_VERSIONS = 43"
definition EXT_PSK_KEY_EXCHANGE_MODES :: nat where [simp]: "EXT_PSK_KEY_EXCHANGE_MODES = 45"
definition EXT_SIGNATURE_ALGORITHMS_CERT :: nat where [simp]: "EXT_SIGNATURE_ALGORITHMS_CERT = 50"
definition EXT_KEY_SHARE :: nat where [simp]: "EXT_KEY_SHARE = 51"

section \<open>The registries are functional and agree with GREASE\<close>

lemmas tls_enum_defs = TLSVersion_def ExtensionType_def CipherSuite_def NamedGroup_def
  SignatureScheme_def ECPointFormat_def PskKeyExchangeMode_def CertificateCompressionAlgorithm_def
  ServerNameType_def

lemma distinct_members:
  "distinct (map fst TLSVersion)" "distinct (map fst ExtensionType)" "distinct (map fst CipherSuite)"
  "distinct (map fst NamedGroup)" "distinct (map fst SignatureScheme)"
  "distinct (map fst ECPointFormat)" "distinct (map fst PskKeyExchangeMode)"
  "distinct (map fst CertificateCompressionAlgorithm)" "distinct (map fst ServerNameType)"
  by (simp_all add: tls_enum_defs)

text \<open>
  No two members of a registry share a value, so \<open>enum_type(value).name\<close> is the member's own name
  (a duplicate would make the later member an alias of the earlier one).
\<close>

lemma enum_name_member:
  "distinct (map fst t) \<Longrightarrow> (v, n) \<in> set t \<Longrightarrow> enum_name v t = Some n"
  by (simp add: enum_name_def)

lemma ExtensionType_grease:
  "v \<in> set GREASE_VALUES \<longleftrightarrow> (\<exists>n. enum_name v ExtensionType = Some n \<and> starts_with ''GREASE_'' n)"
proof -
  have "map fst (filter (\<lambda>(v, n). starts_with ''GREASE_'' n) ExtensionType) = GREASE_VALUES"
    by (simp add: ExtensionType_def GREASE_VALUES_list)
  then have "set GREASE_VALUES = fst ` set (filter (\<lambda>(v, n). starts_with ''GREASE_'' n) ExtensionType)"
    by (metis list.set_map)
  moreover have "enum_name v ExtensionType = Some n \<longleftrightarrow> (v, n) \<in> set ExtensionType" for n
    unfolding enum_name_def by (rule map_of_eq_Some_iff) (rule distinct_members)
  ultimately show ?thesis by force
qed

end
