(* ===== verification/Client_Hello.thy ===== *)
theory Client_Hello
  imports Tls_Enums
begin

text \<open>
  \<open>solvetls/tls/clienthello.py\<close>: the capture of a ClientHello. The parser is a sequence of reads
  on a \<open>ByteReader\<close>; \<open>enc_hello\<close> is the TLS wire format it is meant to read, written down
  independently, and the lemmas relate the two in both directions.
\<close>

section \<open>Data and parser\<close>

record extension =
  ext_type :: nat
  ext_data :: bytes

record client_hello =
  ch_version :: nat
  ch_random :: bytes
  ch_session_id :: bytes
  ch_cipher_suites :: "nat list"
  ch_compression_methods :: "nat list"
  ch_extensions :: "extension list"

definition read_extension :: "(byte_reader, extension) meth" where
  "read_extension =
     bindM read_uint16 (\<lambda>t. bindM (read_vector 2) (\<lambda>d. ret \<lparr>ext_type = t, ext_data = d\<rparr>))"

definition read_extensions :: "(byte_reader, extension list) meth" where
  "read_extensions r =
     (if has_more r
      then bindM (read_vector 2) (\<lambda>d. with_reader d (while_more read_extension)) r
      else ret [] r)"

definition parse_client_hello :: "(byte_reader, client_hello) meth" where
  "parse_client_hello =
     bindM read_uint16 (\<lambda>client_version.
     bindM (read 32) (\<lambda>random.
     bindM (read_vector 1) (\<lambda>session_id.
     bindM (read_vector 2) (\<lambda>ciphers.
     bindM (with_reader ciphers (while_more read_uint16)) (\<lambda>cipher_suites.
     bindM (read_vector 1) (\<lambda>compression_methods.
     bindM read_extensions (\<lambda>extensions.
     ret \<lparr>ch_version = client_version, ch_random = random, ch_session_id = session_id,
          ch_cipher_suites = cipher_suites,
          ch_compression_methods = map unat compression_methods,
          ch_extensions = extensions\<rparr>)))))))"

section \<open>The wire format\<close>

definition enc_extension :: "extension \<Rightarrow> bytes" where
  "enc_extension e = be_bytes 2 (ext_type e) @ vec 2 (ext_data e)"

definition enc_extensions :: "extension list \<Rightarrow> bytes" where
  "enc_extensions es = concat (map enc_extension es)"

definition enc_ciphers :: "nat list \<Rightarrow> bytes" where
  "enc_ciphers cs = concat (map (be_bytes 2) cs)"

definition enc_hello_fields :: "client_hello \<Rightarrow> bytes" where
  "enc_hello_fields ch =
     be_bytes 2 (ch_version ch) @ ch_random ch @ vec 1 (ch_session_id ch) @
     vec 2 (enc_ciphers (ch_cipher_suites ch)) @
     vec 1 (map of_nat (ch_compression_methods ch))"

definition enc_hello :: "client_hello \<Rightarrow> bytes" where
  "enc_hello ch = enc_hello_fields ch @ vec 2 (enc_extensions (ch_extensions ch))"

definition wf_extension :: "extension \<Rightarrow> bool" where
  "wf_extension e \<longleftrightarrow> ext_type e < 65536 \<and> length (ext_data e) < 65536"

definition wf_hello :: "client_hello \<Rightarrow> bool" where
  "wf_hello ch \<longleftrightarrow>
     ch_version ch < 65536 \<and> length (ch_random ch) = 32 \<and> length (ch_session_id ch) < 256 \<and>
     list_all (\<lambda>c. c < 65536) (ch_cipher_suites ch) \<and> 2 * length (ch_cipher_suites ch) < 65536 \<and>
     list_all (\<lambda>c. c < 256) (ch_compression_methods ch) \<and> length (ch_compression_methods ch) < 256 \<and>
     list_all wf_extension (ch_extensions ch) \<and> length (enc_extensions (ch_extensions ch)) < 65536"

section \<open>Encoding then parsing\<close>

lemma length_enc_ciphers [simp]: "length (enc_ciphers cs) = 2 * length cs"
  by (induction cs) (auto simp: enc_ciphers_def)

lemma map_unat_of_nat: "list_all (\<lambda>c. c < 256) cs \<Longrightarrow> map unat (map (of_nat :: nat \<Rightarrow> byte) cs) = cs"
  by (induction cs) (auto simp: unat_of_nat_byte)

lemma read_extension_decodes: "wf_extension e \<Longrightarrow> br_decodes read_extension e (enc_extension e)"
  unfolding read_extension_def enc_extension_def wf_extension_def
  by (auto intro!: decode_intros decodes_bind_ret)

lemma enc_extension_nonempty: "enc_extension e \<noteq> []"
  by (simp add: enc_extension_def)

lemma parses_ciphers:
  assumes "list_all (\<lambda>c. c < 65536) cs"
  shows "parses (while_more read_uint16) (enc_ciphers cs) = Inr cs"
  unfolding enc_ciphers_def using assms
  by (intro parses_while_more) (auto simp: list_all_iff intro: br_decodes_uints)

lemma parses_extensions:
  assumes "list_all wf_extension es"
  shows "parses (while_more read_extension) (enc_extensions es) = Inr es"
  unfolding enc_extensions_def using assms
  by (intro parses_while_more) (auto simp: list_all_iff enc_extension_nonempty intro: read_extension_decodes)

lemma read_extensions_decodes:
  assumes "list_all wf_extension es" and "length (enc_extensions es) < 65536"
  shows "br_decodes read_extensions es (vec 2 (enc_extensions es))"
proof -
  have "br_decodes (bindM (read_vector 2) (\<lambda>d. with_reader d (while_more read_extension)))
     es (vec 2 (enc_extensions es) @ [])"
    using assms by (intro decodes_bind [OF br_decodes_vector decodes_with_reader]) (auto simp: parses_extensions)
  then show ?thesis
    unfolding decodes_def read_extensions_def
    by (auto simp: has_more_iff)
qed

lemma read_extensions_absent: "reader_ok r \<Longrightarrow> reader_rest r = [] \<Longrightarrow> read_extensions r = (Inr [], r)"
  by (simp add: read_extensions_def has_more_iff)

lemma parse_client_hello_decodes:
  assumes "wf_hello ch"
  shows "br_decodes parse_client_hello ch (enc_hello ch)"
proof -
  have "br_decodes parse_client_hello ch
      (be_bytes 2 (ch_version ch) @ ch_random ch @ vec 1 (ch_session_id ch) @
       vec 2 (enc_ciphers (ch_cipher_suites ch)) @ [] @
       vec 1 (map of_nat (ch_compression_methods ch)) @ vec 2 (enc_extensions (ch_extensions ch)))"
    unfolding parse_client_hello_def
    using assms map_unat_of_nat [of "ch_compression_methods ch"]
    by - (rule decodes_bind_ret [OF read_extensions_decodes] decodes_bind
        br_decodes_uints(2) br.decodes_rd [of _ 32, simplified] br_decodes_vector
        decodes_with_reader parses_ciphers | force simp: wf_hello_def)+
  then show ?thesis by (simp add: enc_hello_def enc_hello_fields_def)
qed

text \<open>The fields before the extension block, and the same message without one (TLS 1.2 and older).\<close>

definition parse_hello_fields :: "(byte_reader, client_hello) meth" where
  "parse_hello_fields =
     bindM read_uint16 (\<lambda>client_version.
     bindM (read 32) (\<lambda>random.
     bindM (read_vector 1) (\<lambda>session_id.
     bindM (read_vector 2) (\<lambda>ciphers.
     bindM (with_reader ciphers (while_more read_uint16)) (\<lambda>cipher_suites.
     bindM (read_vector 1) (\<lambda>compression_methods.
     ret \<lparr>ch_version = client_version, ch_random = random, ch_session_id = session_id,
          ch_cipher_suites = cipher_suites,
          ch_compression_methods = map unat compression_methods,
          ch_extensions = []\<rparr>))))))"

lemma parse_client_hello_split:
  "parse_client_hello =
     bindM parse_hello_fields (\<lambda>ch. bindM read_extensions (\<lambda>es. ret (ch\<lparr>ch_extensions := es\<rparr>)))"
  by (simp add: parse_client_hello_def parse_hello_fields_def bindM_assoc)

lemma parse_hello_fields_decodes:
  assumes "wf_hello ch"
  shows "br_decodes parse_hello_fields (ch\<lparr>ch_extensions := []\<rparr>) (enc_hello_fields ch)"
proof -
  have "br_decodes parse_hello_fields (ch\<lparr>ch_extensions := []\<rparr>)
      (be_bytes 2 (ch_version ch) @ ch_random ch @ vec 1 (ch_session_id ch) @
       vec 2 (enc_ciphers (ch_cipher_suites ch)) @ [] @
       vec 1 (map of_nat (ch_compression_methods ch)))"
    unfolding parse_hello_fields_def
    using assms map_unat_of_nat [of "ch_compression_methods ch"]
    by - (rule decodes_bind_ret [OF br_decodes_vector] decodes_bind
        br_decodes_uints(2) br.decodes_rd [of _ 32, simplified] br_decodes_vector
        decodes_with_reader parses_ciphers | force simp: wf_hello_def)+
  then show ?thesis by (simp add: enc_hello_fields_def)
qed

lemma parse_client_hello_without_extensions:
  assumes "wf_hello ch" and "ch_extensions ch = []"
  shows "parses parse_client_hello (enc_hello_fields ch) = Inr ch"
proof -
  obtain r where "parse_hello_fields (ByteReader (enc_hello_fields ch)) = (Inr (ch\<lparr>ch_extensions := []\<rparr>), r)"
      "reader_ok r" "reader_rest r = []"
    by (rule decodesE [OF parse_hello_fields_decodes [OF assms(1)],
          of "ByteReader (enc_hello_fields ch)" "[]"]) auto
  with assms(2) show ?thesis
    by (simp add: parses_def parse_client_hello_split bindM_def read_extensions_absent ret_def)
qed

section \<open>Parsing implies encoding\<close>

lemma read_extension_yields:
  "br_yields read_extension (\<lambda>e enc. enc = enc_extension e \<and> wf_extension e)"
  unfolding read_extension_def
  by (rule yields_mono [OF yields_bind [OF br_yields_uints(2)
        yields_bind [OF br_yields_vector [of 2] yields_ret]]])
     (auto simp: enc_extension_def wf_extension_def)

lemma parses_extensionsD:
  "parses (while_more read_extension) d = Inr es \<Longrightarrow> d = enc_extensions es \<and> list_all wf_extension es"
  by (drule parses_while_moreD [OF read_extension_yields])
     (auto simp: list_all2_function enc_extensions_def)

lemma parses_ciphersD:
  "parses (while_more read_uint16) d = Inr cs \<Longrightarrow> d = enc_ciphers cs \<and> list_all (\<lambda>c. c < 65536) cs"
  by (drule parses_while_moreD [OF br_yields_uints(2)])
     (auto simp: list_all2_function enc_ciphers_def)

lemma map_of_nat_unat: "map ((of_nat :: nat \<Rightarrow> byte) \<circ> unat) bs = bs"
  by (induction bs) auto

lemma parse_hello_fields_yields:
  "br_yields parse_hello_fields
     (\<lambda>ch enc. enc = enc_hello_fields ch \<and> wf_hello ch \<and> ch_extensions ch = [])"
  unfolding parse_hello_fields_def
  by (rule yields_mono [OF yields_bind [OF br_yields_uints(2)
        yields_bind [OF br.yields_rd [of 32, simplified]
        yields_bind [OF br_yields_vector [of 1]
        yields_bind [OF br_yields_vector [of 2]
        yields_bind [OF yields_with_reader
        yields_bind [OF br_yields_vector [of 1] yields_ret]]]]]]])
     (auto simp: enc_hello_fields_def wf_hello_def enc_extensions_def list_all_iff map_of_nat_unat
       dest!: parses_ciphersD)

lemma parse_client_hello_InrD:
  assumes "parses parse_client_hello d = Inr ch"
  shows "wf_hello ch \<and> ((\<exists>ys. d = enc_hello ch @ ys) \<or> (ch_extensions ch = [] \<and> d = enc_hello_fields ch))"
proof -
  obtain r where "parse_client_hello (ByteReader d) = (Inr ch, r)"
    using assms unfolding parses_def by (metis prod.collapse)
  then obtain c es r1 r2 where
    1: "parse_hello_fields (ByteReader d) = (Inr c, r1)" "read_extensions r1 = (Inr es, r2)"
    and ch: "ch = c\<lparr>ch_extensions := es\<rparr>"
    by (auto simp: parse_client_hello_split bindM_eq_Inr)
  from yieldsE [OF parse_hello_fields_yields _ 1(1)]
  have d: "d = enc_hello_fields c @ reader_rest r1" and c: "wf_hello c" "ch_extensions c = []" "reader_ok r1"
    by auto
  have f: "enc_hello_fields ch = enc_hello_fields c" by (simp add: ch enc_hello_fields_def)
  show ?thesis
  proof (cases "has_more r1")
    case True
    with 1(2) obtain b where b: "read_vector 2 r1 = (Inr b, r2)" "parses (while_more read_extension) b = Inr es"
      by (auto simp: read_extensions_def bindM_eq_Inr)
    from yieldsE [OF br_yields_vector c(3) b(1)]
    have "reader_rest r1 = vec 2 b @ reader_rest r2" "length b < 65536" by auto
    with parses_extensionsD [OF b(2)] d f c(1) show ?thesis
      by (auto simp: ch enc_hello_def wf_hello_def)
  next
    case False
    with 1(2) c(3) have "es = []" "reader_rest r1 = []" by (auto simp: read_extensions_def has_more_iff)
    with d f c show ?thesis by (auto simp: ch wf_hello_def)
  qed
qed

section \<open>Errors\<close>

lemma read_extension_fails: "br_fails read_extension insufficient"
  unfolding read_extension_def
  by (intro fails_bind [OF br_fails_uints(2) br_yields_uints(2)]
      fails_bind [OF br_fails_vector br_yields_vector] fails_ret) simp

lemma parses_extensions_error:
  "parses (while_more read_extension) d = Inl e \<Longrightarrow> e = ValueError ''Insufficient data''"
  by (rule parses_while_more_error [OF read_extension_yields _ read_extension_fails])
     (auto simp: enc_extension_nonempty)

lemma parses_ciphers_error:
  "parses (while_more read_uint16) d = Inl e \<Longrightarrow> e = ValueError ''Insufficient data''"
  by (rule parses_while_more_error [OF br_yields_uints(2) _ br_fails_uints(2)]) auto

lemma read_extensions_fails: "br_fails read_extensions insufficient"
proof -
  have "br_fails (bindM (read_vector 2) (\<lambda>d. with_reader d (while_more read_extension))) insufficient"
    by (intro fails_bind [OF br_fails_vector br_yields_vector] fails_with_reader parses_extensions_error) simp_all
  then show ?thesis by (auto simp: fails_def read_extensions_def)
qed

lemma parse_hello_fields_fails: "br_fails parse_hello_fields insufficient"
  unfolding parse_hello_fields_def
  by (intro fails_bind [OF br_fails_uints(2) br_yields_uints(2)]
      fails_bind [OF read_nonneg_fails br.yields_rd [of 32, simplified]]
      fails_bind [OF br_fails_vector br_yields_vector]
      fails_bind [OF fails_with_reader yields_with_reader] fails_ret parses_ciphers_error) simp_all

lemma parse_client_hello_InlD:
  assumes "parses parse_client_hello d = Inl e"
  shows "e = ValueError ''Insufficient data''"
proof -
  have "br_fails parse_client_hello insufficient"
    unfolding parse_client_hello_split
    by (intro fails_bind [OF parse_hello_fields_fails parse_hello_fields_yields])
       (use read_extensions_fails in \<open>auto simp: fails_def bindM_eq_Inl\<close>)
  then show ?thesis
    using assms unfolding parses_def fails_def by (metis ByteReader_simps(1) prod.collapse)
qed

section \<open>Properties\<close>

text \<open>C18. Round trip: every well-formed ClientHello, written in the TLS wire format with its extension block and
  followed by any further bytes, is parsed back to exactly itself. One that has no extensions may also be
  written without the block; then it is parsed back to itself if nothing follows.\<close>

theorem client_hello_roundtrip:
  assumes "wf_hello ch"
  shows "parses parse_client_hello (enc_hello ch @ trailing) = Inr ch \<and>
    (ch_extensions ch = [] \<longrightarrow> parses parse_client_hello (enc_hello_fields ch) = Inr ch)"
  using parses_decodes [OF parse_client_hello_decodes [OF assms]]
    parse_client_hello_without_extensions [OF assms] by simp

definition sample_hello :: client_hello where
  "sample_hello = \<lparr>ch_version = 771, ch_random = replicate 32 7, ch_session_id = [1, 2],
     ch_cipher_suites = [4865, 2570], ch_compression_methods = [0],
     ch_extensions = [\<lparr>ext_type = 16, ext_data = [0, 3, 2, 104, 50]\<rparr>]\<rparr>"

theorem client_hello_roundtrip_witness:
  "wf_hello sample_hello \<and>
   parses parse_client_hello (enc_hello sample_hello @ [9]) = Inr sample_hello"
proof -
  have w: "wf_hello sample_hello"
    by (simp add: wf_hello_def sample_hello_def wf_extension_def enc_extensions_def enc_extension_def)
  from w client_hello_roundtrip [OF w, of "[9]"] show ?thesis by blast
qed

text \<open>C19. Capture fidelity: whatever the parser returns is a well-formed ClientHello, and the bytes
  it read are exactly the wire encoding of that value: nothing is dropped, reordered or invented.\<close>

theorem client_hello_capture:
  assumes "parses parse_client_hello d = Inr ch"
  shows "wf_hello ch \<and> ((\<exists>ys. d = enc_hello ch @ ys) \<or> (ch_extensions ch = [] \<and> d = enc_hello_fields ch))"
  by (rule parse_client_hello_InrD [OF assms])

theorem client_hello_capture_witness:
  "parses parse_client_hello (enc_hello sample_hello) = Inr sample_hello \<and> wf_hello sample_hello"
proof -
  have "wf_hello sample_hello"
    by (simp add: wf_hello_def sample_hello_def wf_extension_def enc_extensions_def enc_extension_def)
  then have p: "parses parse_client_hello (enc_hello sample_hello) = Inr sample_hello"
    using parses_decodes [OF parse_client_hello_decodes, of sample_hello "[]"] by simp
  from p client_hello_capture [OF p] show ?thesis by blast
qed

text \<open>The parser's only failure is running out of bytes. In particular both of its loops end on
  every input, and no length field can make it read a negative number of bytes.\<close>

theorem client_hello_errors:
  assumes "parses parse_client_hello d = Inl e"
  shows "e = ValueError ''Insufficient data''"
  by (rule parse_client_hello_InlD [OF assms])

theorem client_hello_errors_witness:
  "parses parse_client_hello [3, 3, 0] = Inl (ValueError ''Insufficient data'')"
proof -
  have "\<exists>e. parses parse_client_hello [3, 3, 0] = Inl e"
    by (simp add: parses_def parse_client_hello_def bindM_def read_uint16_def read_be_def read_def
        ByteReader_def slice_def ret_def raise_def)
  with client_hello_errors show ?thesis by blast
qed

end
