(* ===== verification/Utf8.thy ===== *)
theory Utf8
  imports Encodings
begin

text \<open>
  \<open>bytes.decode("utf-8", "replace")\<close> of the Python library: every ill-formed sequence becomes one
  replacement character, and a sequence that is cut short is replaced as far as it was well formed.
\<close>

definition REPLACEMENT :: nat where [simp]: "REPLACEMENT = 0xFFFD"

definition in_range :: "nat \<Rightarrow> nat \<Rightarrow> byte \<Rightarrow> bool" where
  "in_range a b c \<longleftrightarrow> a \<le> unat c \<and> unat c \<le> b"

abbreviation "continuation \<equiv> in_range 0x80 0xBF"

text \<open>The second byte after \<open>E0\<close>, \<open>ED\<close>, \<open>F0\<close> and \<open>F4\<close> has a smaller range: no overlong forms, no
  surrogates and nothing above \<open>10FFFF\<close>.\<close>

definition second_byte :: "nat \<Rightarrow> byte \<Rightarrow> bool" where
  "second_byte b = in_range (if b = 0xE0 then 0xA0 else if b = 0xF0 then 0x90 else 0x80)
                            (if b = 0xED then 0x9F else if b = 0xF4 then 0x8F else 0xBF)"

definition low6 :: "byte \<Rightarrow> nat" where
  "low6 c = unat c - 0x80"

text \<open>The code point at the front of the input and the number of bytes it takes beyond the first.\<close>

definition utf8_step :: "nat \<Rightarrow> bytes \<Rightarrow> nat \<times> nat" where
  "utf8_step b bs =
     (if b < 0x80 then (0, b)
      else if 0xC2 \<le> b \<and> b \<le> 0xDF then
        (case bs of c # _ \<Rightarrow> if continuation c then (1, (b - 0xC0) * 64 + low6 c) else (0, REPLACEMENT)
         | [] \<Rightarrow> (0, REPLACEMENT))
      else if 0xE0 \<le> b \<and> b \<le> 0xEF then
        (case bs of
           c # cs \<Rightarrow> if second_byte b c then
             (case cs of d # _ \<Rightarrow>
                if continuation d then (2, ((b - 0xE0) * 64 + low6 c) * 64 + low6 d) else (1, REPLACEMENT)
              | [] \<Rightarrow> (1, REPLACEMENT))
            else (0, REPLACEMENT)
         | [] \<Rightarrow> (0, REPLACEMENT))
      else if 0xF0 \<le> b \<and> b \<le> 0xF4 then
        (case bs of
           c # cs \<Rightarrow> if second_byte b c then
             (case cs of d # ds \<Rightarrow> if continuation d then
                (case ds of e # _ \<Rightarrow>
                   if continuation e
                   then (3, (((b - 0xF0) * 64 + low6 c) * 64 + low6 d) * 64 + low6 e)
                   else (2, REPLACEMENT)
                 | [] \<Rightarrow> (2, REPLACEMENT))
               else (1, REPLACEMENT)
              | [] \<Rightarrow> (1, REPLACEMENT))
            else (0, REPLACEMENT)
         | [] \<Rightarrow> (0, REPLACEMENT))
      else (0, REPLACEMENT))"

fun utf8_replace :: "bytes \<Rightarrow> ustr" where
  "utf8_replace [] = []"
| "utf8_replace (b # bs) = (let (n, c) = utf8_step (unat b) bs in c # utf8_replace (drop n bs))"

text \<open>The encoding of a Unicode scalar value, and that the decoder inverts it.\<close>

definition scalar :: "nat \<Rightarrow> bool" where
  "scalar c \<longleftrightarrow> c < 0xD800 \<or> 0xE000 \<le> c \<and> c \<le> 0x10FFFF"

definition utf8_encode :: "nat \<Rightarrow> bytes" where
  "utf8_encode c =
     (if c < 0x80 then [of_nat c]
      else if c < 0x800 then [of_nat (0xC0 + c div 64), of_nat (0x80 + c mod 64)]
      else if c < 0x10000 then [of_nat (0xE0 + c div 4096), of_nat (0x80 + c div 64 mod 64), of_nat (0x80 + c mod 64)]
      else [of_nat (0xF0 + c div 262144), of_nat (0x80 + c div 4096 mod 64),
            of_nat (0x80 + c div 64 mod 64), of_nat (0x80 + c mod 64)])"

lemma unat_small_byte: "v < 256 \<Longrightarrow> unat (of_nat v :: byte) = v"
  by (simp add: unat_of_nat_byte)

lemma low6_of_nat: "v < 64 \<Longrightarrow> low6 (of_nat (128 + v)) = v \<and> continuation (of_nat (128 + v))"
  by (simp add: low6_def in_range_def unat_small_byte del: of_nat_add)

lemma utf8_replace_encode:
  assumes "scalar c"
  shows "utf8_replace (utf8_encode c @ bs) = c # utf8_replace bs"
proof -
  have digits: "c = (c div 64) * 64 + c mod 64" "c div 64 = (c div 4096) * 64 + c div 64 mod 64"
    "c div 4096 = (c div 262144) * 64 + c div 4096 mod 64"
    using div_mult_mod_eq [of c 64] div_mult_mod_eq [of "c div 64" 64] div_mult_mod_eq [of "c div 4096" 64]
    by (simp_all add: div_mult2_eq [symmetric])
  note l = low6_of_nat [of "c mod 64"] low6_of_nat [of "c div 64 mod 64"] low6_of_nat [of "c div 4096 mod 64"]
  have m: "c div 64 mod 64 \<le> 63" "c div 4096 mod 64 \<le> 63"
    using mod_less_divisor [of 64 "c div 64"] mod_less_divisor [of 64 "c div 4096"] by linarith+
  have c: "c \<le> 0x10FFFF" using assms by (auto simp: scalar_def)
  consider "c < 0x80" | "0x80 \<le> c" "c < 0x800" | "0x800 \<le> c" "c < 0x10000" | "0x10000 \<le> c" by linarith
  then show ?thesis
  proof cases
    case 1
    then show ?thesis by (simp add: utf8_encode_def utf8_step_def unat_small_byte)
  next
    case 2
    have d: "2 \<le> c div 64" "c div 64 < 32" using 2 by (simp_all add: less_mult_imp_div_less)
    then have u: "unat (of_nat (192 + c div 64) :: byte) = 192 + c div 64" by (intro unat_small_byte) simp
    have e: "utf8_encode c = [of_nat (192 + c div 64), of_nat (128 + c mod 64)]"
      using 2 by (simp add: utf8_encode_def)
    have "utf8_step (192 + c div 64) (of_nat (128 + c mod 64) # bs) = (1, c)"
      unfolding utf8_step_def using d l(1) digits(1) by (simp del: of_nat_add)
    with u show ?thesis unfolding e by (simp del: of_nat_add)
  next
    case 3
    have d: "c div 4096 < 16" using 3 by (simp add: less_mult_imp_div_less)
    then have u: "unat (of_nat (224 + c div 4096) :: byte) = 224 + c div 4096" by (intro unat_small_byte) simp
    have v: "unat (of_nat (128 + c div 64 mod 64) :: byte) = 128 + c div 64 mod 64" by (intro unat_small_byte) simp
    have "second_byte (224 + c div 4096) (of_nat (128 + c div 64 mod 64))"
      using 3 assms digits m unfolding second_byte_def in_range_def v scalar_def by auto
    moreover have e: "utf8_encode c = [of_nat (224 + c div 4096), of_nat (128 + c div 64 mod 64), of_nat (128 + c mod 64)]"
      using 3 by (simp add: utf8_encode_def)
    ultimately have "utf8_step (224 + c div 4096) (of_nat (128 + c div 64 mod 64) # of_nat (128 + c mod 64) # bs) = (2, c)"
      unfolding utf8_step_def using d l(1,2) digits(1,2) by (simp del: of_nat_add)
    with u show ?thesis unfolding e by (simp add: numeral_2_eq_2 del: of_nat_add)
  next
    case 4
    have d: "c div 262144 < 5" using c by (simp add: less_mult_imp_div_less)
    then have u: "unat (of_nat (240 + c div 262144) :: byte) = 240 + c div 262144" by (intro unat_small_byte) simp
    have v: "unat (of_nat (128 + c div 4096 mod 64) :: byte) = 128 + c div 4096 mod 64" by (intro unat_small_byte) simp
    have "second_byte (240 + c div 262144) (of_nat (128 + c div 4096 mod 64))"
      using 4 c digits m div_le_mono [OF c, of 4096] div_le_mono [OF 4, of 4096] unfolding second_byte_def in_range_def v by auto
    moreover have e: "utf8_encode c = [of_nat (240 + c div 262144), of_nat (128 + c div 4096 mod 64),
        of_nat (128 + c div 64 mod 64), of_nat (128 + c mod 64)]"
      using 4 by (simp add: utf8_encode_def)
    ultimately have "utf8_step (240 + c div 262144)
        (of_nat (128 + c div 4096 mod 64) # of_nat (128 + c div 64 mod 64) # of_nat (128 + c mod 64) # bs) = (3, c)"
      unfolding utf8_step_def using d l digits by (simp del: of_nat_add)
    with u show ?thesis unfolding e by (simp add: numeral_3_eq_3 del: of_nat_add)
  qed
qed

lemma utf8_replace_text: "list_all scalar cs \<Longrightarrow> utf8_replace (concat (map utf8_encode cs)) = cs"
  by (induction cs) (simp_all add: utf8_replace_encode)

lemma low6_bounds: "in_range (128 + x) (128 + y) c \<Longrightarrow> x \<le> low6 c \<and> low6 c \<le> y"
  by (auto simp: in_range_def low6_def)

lemma second_byte_low6:
  assumes "second_byte b c"
  shows "(if b = 0xE0 then 0x20 else if b = 0xF0 then 0x10 else 0) \<le> low6 c"
    "low6 c \<le> (if b = 0xED then 0x1F else if b = 0xF4 then 0xF else 0x3F)"
  using assms low6_bounds [of "if b = 0xE0 then 0x20 else if b = 0xF0 then 0x10 else 0"
      "if b = 0xED then 0x1F else if b = 0xF4 then 0xF else 0x3F" c]
  by (auto simp: second_byte_def split: if_splits)

lemma scalar_two: "0xC2 \<le> b \<Longrightarrow> b \<le> 0xDF \<Longrightarrow> continuation c \<Longrightarrow> scalar ((b - 0xC0) * 64 + low6 c)"
  using low6_bounds [of 0 63 c] by (auto simp: scalar_def intro!: disjI1)

lemma scalar_three:
  assumes "0xE0 \<le> b" "b \<le> 0xEF" "second_byte b c" "continuation d"
  shows "scalar (((b - 0xE0) * 64 + low6 c) * 64 + low6 d)"
proof -
  obtain k where k: "b = 0xE0 + k" "k \<le> 15" using assms(1,2) le_Suc_ex by force
  have d: "low6 d \<le> 63" using low6_bounds [of 0 63 d] assms(4) by simp
  have c: "low6 c \<le> 63" "k = 13 \<Longrightarrow> low6 c \<le> 31"
    using second_byte_low6(2) [OF assms(3)] k(1) by (auto split: if_splits)
  consider "k \<le> 12" | "k = 13" | "14 \<le> k" by linarith
  then have "(k * 64 + low6 c) * 64 + low6 d < 0xD800 \<or>
      0xE000 \<le> (k * 64 + low6 c) * 64 + low6 d \<and> (k * 64 + low6 c) * 64 + low6 d \<le> 0x10FFFF"
    using c d k(2) by cases auto
  with k(1) show ?thesis by (simp add: scalar_def)
qed

lemma scalar_four:
  assumes "0xF0 \<le> b" "b \<le> 0xF4" "second_byte b c" "continuation d" "continuation e"
  shows "scalar ((((b - 0xF0) * 64 + low6 c) * 64 + low6 d) * 64 + low6 e)"
proof -
  obtain k where k: "b = 0xF0 + k" "k \<le> 4" using assms(1,2) le_Suc_ex by force
  have d: "low6 d \<le> 63" "low6 e \<le> 63"
    using low6_bounds [of 0 63 d] low6_bounds [of 0 63 e] assms(4,5) by simp_all
  have c: "low6 c \<le> 63" "k = 0 \<Longrightarrow> 16 \<le> low6 c" "k = 4 \<Longrightarrow> low6 c \<le> 15"
    using second_byte_low6 [OF assms(3)] k(1) by (auto split: if_splits)
  consider "k = 0" | "1 \<le> k" "k \<le> 3" | "k = 4" using k(2) by linarith
  then have "0xE000 \<le> ((k * 64 + low6 c) * 64 + low6 d) * 64 + low6 e \<and>
      ((k * 64 + low6 c) * 64 + low6 d) * 64 + low6 e \<le> 0x10FFFF"
    using c d by cases auto
  with k(1) show ?thesis by (simp add: scalar_def)
qed

lemma utf8_step_scalar: "b < 256 \<Longrightarrow> utf8_step b bs = (n, c) \<Longrightarrow> scalar c"
proof -
  have "scalar REPLACEMENT" by (simp add: scalar_def)
  moreover have "b < 128 \<Longrightarrow> scalar b" by (simp add: scalar_def)
  ultimately show "b < 256 \<Longrightarrow> utf8_step b bs = (n, c) \<Longrightarrow> scalar c"
    unfolding utf8_step_def
    by (auto simp del: REPLACEMENT_def split: if_splits list.splits intro: scalar_two scalar_three [simplified] scalar_four [simplified])
qed

lemma utf8_replace_scalar: "list_all scalar (utf8_replace bs)"
proof (induction bs rule: utf8_replace.induct)
  case (2 b bs)
  obtain n c where s: "utf8_step (unat b) bs = (n, c)" by fastforce
  with 2 [OF s [symmetric]] utf8_step_scalar [OF _ s] show ?case by simp
qed simp

end
