(* ===== verification/Tls_Extensions.thy ===== *)
theory Tls_Extensions
  imports Tls_Enums Utf8
begin

text \<open>
  \<open>solvetls/tls/extensions.py\<close>: the decoders of TLS extension payloads. A decoder is a method on a
  \<open>ByteReader\<close> that returns a dictionary; \<open>decode_extension\<close> selects one, requires it to use the
  whole payload and turns malformed data into an error report.

  The specification is a datatype of payloads with their wire format and their report. The interface
  \<open>payload_decoder\<close> states what a decoder promises; every decoder of the table interprets it.
\<close>

section \<open>Model\<close>

abbreviation uint16_item :: "int_enum \<Rightarrow> (byte_reader, json) meth" where
  "uint16_item enum_type \<equiv> bindM read_uint16 (\<lambda>v. ret (JObj (describe v (Some enum_type))))"

definition uint16_list :: "bytes \<Rightarrow> int_enum \<Rightarrow> (byte_reader, json list) meth" where
  "uint16_list data enum_type = with_reader data (while_more (uint16_item enum_type))"

definition read_server_name :: "(byte_reader, json) meth" where
  "read_server_name =
     bindM read_uint8 (\<lambda>name_type. bindM (read_vector 2) (\<lambda>host.
       ret (JObj [(''type'', JObj (describe name_type (Some ServerNameType))), (''host'', JStr (utf8_replace host))])))"

definition decode_server_name :: "(byte_reader, dict) meth" where
  "decode_server_name =
     bindM (read_vector 2) (\<lambda>d. bindM (with_reader d (while_more read_server_name)) (\<lambda>names.
       ret [(''server_names'', JList names)]))"

definition decode_supported_groups :: "(byte_reader, dict) meth" where
  "decode_supported_groups =
     bindM (read_vector 2) (\<lambda>d. bindM (uint16_list d NamedGroup) (\<lambda>vs. ret [(''groups'', JList vs)]))"

definition decode_ec_point_formats :: "(byte_reader, dict) meth" where
  "decode_ec_point_formats =
     bindM (read_vector 1) (\<lambda>formats.
       ret [(''formats'', JList (map (\<lambda>value. JObj (describe (unat value) (Some ECPointFormat))) formats))])"

definition decode_signature_algorithms :: "(byte_reader, dict) meth" where
  "decode_signature_algorithms =
     bindM (read_vector 2) (\<lambda>d. bindM (uint16_list d SignatureScheme) (\<lambda>vs. ret [(''algorithms'', JList vs)]))"

definition parse_alpn_protocols :: "bytes \<Rightarrow> exn + bytes list" where
  "parse_alpn_protocols data =
     fst (bindM (read_vector 2) (\<lambda>d. bindM
            (\<lambda>reader. guardM (\<not> has_more reader) (ValueError ''Unexpected trailing bytes in ALPN extension payload'') reader)
            (\<lambda>_. with_reader d (while_more (read_vector 1)))) (ByteReader data))"

definition decode_alpn :: "(byte_reader, dict) meth" where
  "decode_alpn =
     bindM read_remaining (\<lambda>d. bindM (\<lambda>s. (parse_alpn_protocols d, s)) (\<lambda>protocols.
       ret [(''protocols'', JList (map (\<lambda>protocol. jstr (latin1 protocol)) protocols))]))"

definition decode_supported_versions :: "(byte_reader, dict) meth" where
  "decode_supported_versions =
     bindM (read_vector 1) (\<lambda>d. bindM (uint16_list d TLSVersion) (\<lambda>vs. ret [(''versions'', JList vs)]))"

definition decode_psk_key_exchange_modes :: "(byte_reader, dict) meth" where
  "decode_psk_key_exchange_modes =
     bindM (read_vector 1) (\<lambda>modes.
       ret [(''modes'', JList (map (\<lambda>value. JObj (describe (unat value) (Some PskKeyExchangeMode))) modes))])"

definition read_key_share :: "(byte_reader, json) meth" where
  "read_key_share =
     bindM read_uint16 (\<lambda>group. bindM (read_vector 2) (\<lambda>key_exchange.
       ret (JObj [(''group'', JObj (describe group (Some NamedGroup))),
                  (''key_exchange_length'', jnat (length key_exchange)),
                  (''key_exchange'', jhex key_exchange)])))"

definition decode_key_share :: "(byte_reader, dict) meth" where
  "decode_key_share =
     bindM (read_vector 2) (\<lambda>d. bindM (with_reader d (while_more read_key_share)) (\<lambda>shares.
       ret [(''shares'', JList shares)]))"

definition decode_record_size_limit :: "(byte_reader, dict) meth" where
  "decode_record_size_limit =
     bindM read_uint16 (\<lambda>limit. bindM
       (\<lambda>reader. guardM (\<not> has_more reader) (ValueError ''record_size_limit must contain exactly 2 bytes'') reader)
       (\<lambda>_. ret [(''limit'', jnat limit)]))"

definition decode_compress_certificate :: "(byte_reader, dict) meth" where
  "decode_compress_certificate =
     bindM (read_vector 1) (\<lambda>d. bindM (uint16_list d CertificateCompressionAlgorithm) (\<lambda>vs.
       ret [(''algorithms'', JList vs)]))"

definition decode_padding :: "(byte_reader, dict) meth" where
  "decode_padding =
     bindM read_remaining (\<lambda>padding.
       ret [(''length'', jnat (length padding)), (''all_zero'', JBool (list_all (\<lambda>b. b = 0) padding))])"

definition decode_empty :: "(byte_reader, dict) meth" where
  "decode_empty =
     bindM read_remaining (\<lambda>d. ret [(''present'', JBool True), (''unexpected_bytes'', jnat (length d))])"

definition DECODERS :: "(nat \<times> (byte_reader, dict) meth) list" where
  "DECODERS =
     [(EXT_SERVER_NAME, decode_server_name), (EXT_SUPPORTED_GROUPS, decode_supported_groups),
      (EXT_EC_POINT_FORMATS, decode_ec_point_formats), (EXT_SIGNATURE_ALGORITHMS, decode_signature_algorithms),
      (EXT_SIGNATURE_ALGORITHMS_CERT, decode_signature_algorithms), (EXT_ALPN, decode_alpn),
      (EXT_PADDING, decode_padding), (EXT_ENCRYPT_THEN_MAC, decode_empty),
      (EXT_EXTENDED_MASTER_SECRET, decode_empty), (EXT_COMPRESS_CERTIFICATE, decode_compress_certificate),
      (EXT_RECORD_SIZE_LIMIT, decode_record_size_limit), (EXT_SUPPORTED_VERSIONS, decode_supported_versions),
      (EXT_PSK_KEY_EXCHANGE_MODES, decode_psk_key_exchange_modes), (EXT_KEY_SHARE, decode_key_share)]"

text \<open>The \<open>try\<close> block around one decoder. Only \<open>ValueError\<close> and \<open>IndexError\<close> are caught; the model
  has no \<open>IndexError\<close>, because no decoder indexes a sequence.\<close>

definition run_decoder :: "(byte_reader, dict) meth \<Rightarrow> bytes \<Rightarrow> exn + dict" where
  "run_decoder decoder data =
     (case fst (bindM decoder (\<lambda>decoded. bindM
             (\<lambda>reader. guardM (\<not> has_more reader) (ValueError ''Unexpected trailing bytes in extension payload'') reader)
             (\<lambda>_. ret decoded)) (ByteReader data)) of
        Inr decoded \<Rightarrow> Inr decoded
      | Inl e \<Rightarrow> if is_ValueError e then Inr [(''error'', jstr (exn_str e))] else Inl e)"

definition decode_extension :: "nat \<Rightarrow> bytes \<Rightarrow> exn + dict option" where
  "decode_extension ext_type data =
     (case map_of DECODERS ext_type of
        None \<Rightarrow> Inr None
      | Some decoder \<Rightarrow> bindR (run_decoder decoder data) (\<lambda>d. Inr (Some d)))"

section \<open>What a decoder promises\<close>

definition ext_fault :: "exn \<Rightarrow> bool" where
  "ext_fault e \<longleftrightarrow> e \<in> ValueError ` {''Insufficient data'', ''Unexpected trailing bytes in extension payload'',
     ''Unexpected trailing bytes in ALPN extension payload'', ''record_size_limit must contain exactly 2 bytes''}"

lemma ext_fault_ValueError: "ext_fault e \<Longrightarrow> is_ValueError e"
  by (auto simp: ext_fault_def)

text \<open>A decoder reads exactly the encodings of the well-formed payloads, reports each as specified,
  and fails in no other way than with the errors of the reader and its own.\<close>

locale payload_decoder =
  fixes dec :: "(byte_reader, dict) meth"
    and wf :: "'p \<Rightarrow> bool" and enc :: "'p \<Rightarrow> bytes" and report :: "'p \<Rightarrow> dict"
  assumes complete: "wf p \<Longrightarrow> reader_ok r \<Longrightarrow> reader_rest r = enc p \<Longrightarrow>
      \<exists>r'. dec r = (Inr (report p), r') \<and> reader_rest r' = [] \<and> reader_ok r'"
    and sound: "br_yields dec (\<lambda>x e. \<exists>p. wf p \<and> e = enc p \<and> x = report p)"
    and errors: "br_fails dec ext_fault"
begin

lemma run_complete:
  assumes "wf p"
  shows "run_decoder dec (enc p) = Inr (report p)"
proof -
  obtain r' where "dec (ByteReader (enc p)) = (Inr (report p), r')" "reader_rest r' = []" "reader_ok r'"
    using complete [OF assms, of "ByteReader (enc p)"] by auto
  then show ?thesis by (simp add: run_decoder_def bindM_def has_more_iff ret_def)
qed

lemma run_cases:
  obtains (decoded) p where "wf p" "d = enc p" "run_decoder dec d = Inr (report p)"
  | (malformed) e where "\<nexists>p. wf p \<and> d = enc p" "ext_fault e" "run_decoder dec d = Inr [(''error'', jstr (exn_str e))]"
proof (cases "\<exists>p. wf p \<and> d = enc p")
  case True
  with run_complete show ?thesis using decoded by blast
next
  case False
  obtain res r where r: "dec (ByteReader d) = (res, r)" by fastforce
  show ?thesis
  proof (cases res)
    case (Inl e)
    have "ext_fault e" using errors r Inl unfolding fails_def by (metis ByteReader_simps(1))
    moreover from this r Inl have "run_decoder dec d = Inr [(''error'', jstr (exn_str e))]"
      by (simp add: run_decoder_def bindM_def ext_fault_ValueError)
    ultimately show ?thesis using malformed False by blast
  next
    case (Inr x)
    from yieldsE [OF sound _ r [unfolded Inr]] obtain p where
      p: "wf p" "d = enc p @ reader_rest r" "reader_ok r" by auto
    with False have "reader_rest r \<noteq> []" by auto
    with p(3) r Inr have "run_decoder dec d = Inr [(''error'', jstr ''Unexpected trailing bytes in extension payload'')]"
      by (simp add: run_decoder_def bindM_def has_more_iff raise_def)
    then show ?thesis
      using malformed [of "ValueError ''Unexpected trailing bytes in extension payload''"] False
      by (simp add: ext_fault_def)
  qed
qed

end

text \<open>A decoder of a counted vector of items, given what it reads for one item.\<close>

locale item_decoder =
  fixes item :: "(byte_reader, json) meth"
    and wf_item :: "'e \<Rightarrow> bool" and enc_item :: "'e \<Rightarrow> bytes" and report_item :: "'e \<Rightarrow> json"
  assumes item_decodes: "wf_item x \<Longrightarrow> br_decodes item (report_item x) (enc_item x)"
    and item_yields: "br_yields item (\<lambda>j e. \<exists>x. wf_item x \<and> e = enc_item x \<and> j = report_item x)"
    and item_fails: "br_fails item insufficient"
    and item_progress: "enc_item x \<noteq> []"
begin

definition enc_items :: "'e list \<Rightarrow> bytes" where
  "enc_items xs = concat (map enc_item xs)"

lemma items_complete:
  "list_all wf_item xs \<Longrightarrow> parses (while_more item) (enc_items xs) = Inr (map report_item xs)"
proof -
  assume w: "list_all wf_item xs"
  have "\<exists>r'. while_more item r = (Inr (map report_item xs), r')" if "reader_ok r" "reader_rest r = enc_items xs" for r
    using w that
  proof (induction xs arbitrary: r)
    case Nil
    then show ?case by (simp add: while_more.simps has_more_iff enc_items_def)
  next
    case (Cons x xs)
    then obtain r1 where 1: "item r = (Inr (report_item x), r1)" "reader_rest r1 = enc_items xs" "reader_ok r1"
      using decodesE [OF item_decodes, of x r "enc_items xs"] by (auto simp: enc_items_def)
    have m: "has_more r" "remaining r1 < remaining r"
      using Cons.prems 1 item_progress [of x] by (auto simp: has_more_iff remaining_rest enc_items_def)
    obtain r2 where "while_more item r1 = (Inr (map report_item xs), r2)"
      using Cons.IH [OF _ 1(3,2)] Cons.prems(1) by auto
    with 1 m show ?case by (subst while_more.simps) simp
  qed
  then show ?thesis unfolding parses_def by (metis ByteReader_simps fst_conv)
qed

lemma items_sound:
  assumes "parses (while_more item) d = Inr js"
  shows "\<exists>xs. list_all wf_item xs \<and> d = enc_items xs \<and> js = map report_item xs"
proof -
  obtain encs where d: "d = concat encs" and
    l: "list_all2 (\<lambda>j e. \<exists>x. wf_item x \<and> e = enc_item x \<and> j = report_item x) js encs"
    using parses_while_moreD [OF item_yields assms] by blast
  from l have "\<exists>xs. list_all wf_item xs \<and> encs = map enc_item xs \<and> js = map report_item xs"
  proof (induction rule: list_all2_induct)
    case (Cons j js e es)
    then obtain x xs where "wf_item x" "e = enc_item x" "j = report_item x"
      "list_all wf_item xs" "es = map enc_item xs" "js = map report_item xs" by blast
    then show ?case by (intro exI [of _ "x # xs"]) simp
  qed simp
  with d show ?thesis by (auto simp: enc_items_def)
qed

lemma items_error: "parses (while_more item) d = Inl e \<Longrightarrow> e = ValueError ''Insufficient data''"
  by (rule parses_while_more_error [OF item_yields _ item_fails]) (auto simp: item_progress)

lemma vector_decoder:
  assumes "k \<in> {1, 2, 3}"
  shows "payload_decoder
     (bindM (read_vector k) (\<lambda>d. bindM (with_reader d (while_more item)) (\<lambda>js. ret [(key, JList js)])))
     (\<lambda>xs. list_all wf_item xs \<and> length (concat (map enc_item xs)) < 256 ^ k)
     (\<lambda>xs. vec k (concat (map enc_item xs))) (\<lambda>xs. [(key, JList (map report_item xs))])"
    (is "payload_decoder ?dec _ _ _")
proof
  fix xs r
  assume w: "list_all wf_item xs \<and> length (concat (map enc_item xs)) < 256 ^ k"
    and r: "reader_ok r" "reader_rest r = vec k (concat (map enc_item xs))"
  have "br_decodes ?dec [(key, JList (map report_item xs))] (vec k (enc_items xs) @ [] @ [])"
    using w assms items_complete [of xs]
    by (intro decodes_bind [OF br_decodes_vector decodes_bind [OF decodes_with_reader decodes_ret]])
      (auto simp: enc_items_def)
  from decodesE [OF this r(1), of "[]"] r(2)
  show "\<exists>r'. ?dec r = (Inr [(key, JList (map report_item xs))], r') \<and> reader_rest r' = [] \<and> reader_ok r'"
    by (auto simp: enc_items_def)
next
  show "br_yields ?dec (\<lambda>x e. \<exists>p. (list_all wf_item p \<and> length (concat (map enc_item p)) < 256 ^ k) \<and>
      e = vec k (concat (map enc_item p)) \<and> x = [(key, JList (map report_item p))])"
    by (rule yields_mono [OF yields_bind [OF br_yields_vector yields_bind [OF yields_with_reader yields_ret]]])
      (fastforce dest: items_sound simp: enc_items_def)
next
  show "br_fails ?dec ext_fault"
    by (intro fails_bind [OF _ br_yields_vector] fails_bind [OF fails_with_reader yields_with_reader] fails_ret)
      (use br_fails_vector [OF assms] in \<open>auto simp: ext_fault_def fails_def dest: items_error\<close>)
qed

end

section \<open>The decoders keep the promise\<close>

interpretation u16: item_decoder "uint16_item E" "\<lambda>v. v < 65536" "be_bytes 2" "\<lambda>v. JObj (describe v (Some E))" for E
proof
  fix x :: nat
  show "x < 65536 \<Longrightarrow> br_decodes (uint16_item E) (JObj (describe x (Some E))) (be_bytes 2 x)"
    by (rule decodes_bind_ret [OF br_decodes_uints(2)]) simp_all
  show "br_yields (uint16_item E) (\<lambda>j e. \<exists>x<65536. e = be_bytes 2 x \<and> j = JObj (describe x (Some E)))"
    by (rule yields_mono [OF yields_bind [OF br_yields_uints(2) yields_ret]]) auto
  show "br_fails (uint16_item E) insufficient"
    by (intro fails_bind [OF br_fails_uints(2) br_yields_uints(2)] fails_ret)
  show "be_bytes 2 x \<noteq> []" by simp
qed

definition enc_name :: "nat \<times> bytes \<Rightarrow> bytes" where
  "enc_name n = be_bytes 1 (fst n) @ vec 2 (snd n)"

definition report_name :: "nat \<times> bytes \<Rightarrow> json" where
  "report_name n = JObj [(''type'', JObj (describe (fst n) (Some ServerNameType))), (''host'', JStr (utf8_replace (snd n)))]"

interpretation name: item_decoder read_server_name "\<lambda>n. fst n < 256 \<and> length (snd n) < 65536" enc_name report_name
proof
  fix x :: "nat \<times> bytes"
  show "fst x < 256 \<and> length (snd x) < 65536 \<Longrightarrow> br_decodes read_server_name (report_name x) (enc_name x)"
    unfolding read_server_name_def enc_name_def report_name_def
    by (intro decodes_bind [OF br_decodes_uints(1)] decodes_bind_ret [OF br_decodes_vector]) simp_all
  show "br_yields read_server_name (\<lambda>j e. \<exists>x. (fst x < 256 \<and> length (snd x) < 65536) \<and> e = enc_name x \<and> j = report_name x)"
    unfolding read_server_name_def enc_name_def report_name_def
    by (rule yields_mono [OF yields_bind [OF br_yields_uints(1) yields_bind [OF br_yields_vector [of 2] yields_ret]]])
      fastforce
  show "br_fails read_server_name insufficient"
    unfolding read_server_name_def
    by (intro fails_bind [OF br_fails_uints(1) br_yields_uints(1)] fails_bind [OF br_fails_vector br_yields_vector] fails_ret) simp
  show "enc_name x \<noteq> []" by (simp add: enc_name_def)
qed

definition enc_share :: "nat \<times> bytes \<Rightarrow> bytes" where
  "enc_share s = be_bytes 2 (fst s) @ vec 2 (snd s)"

definition report_share :: "nat \<times> bytes \<Rightarrow> json" where
  "report_share s = JObj [(''group'', JObj (describe (fst s) (Some NamedGroup))),
     (''key_exchange_length'', jnat (length (snd s))), (''key_exchange'', jhex (snd s))]"

interpretation share: item_decoder read_key_share "\<lambda>s. fst s < 65536 \<and> length (snd s) < 65536" enc_share report_share
proof
  fix x :: "nat \<times> bytes"
  show "fst x < 65536 \<and> length (snd x) < 65536 \<Longrightarrow> br_decodes read_key_share (report_share x) (enc_share x)"
    unfolding read_key_share_def enc_share_def report_share_def
    by (intro decodes_bind [OF br_decodes_uints(2)] decodes_bind_ret [OF br_decodes_vector]) simp_all
  show "br_yields read_key_share (\<lambda>j e. \<exists>x. (fst x < 65536 \<and> length (snd x) < 65536) \<and> e = enc_share x \<and> j = report_share x)"
    unfolding read_key_share_def enc_share_def report_share_def
    by (rule yields_mono [OF yields_bind [OF br_yields_uints(2) yields_bind [OF br_yields_vector [of 2] yields_ret]]])
      fastforce
  show "br_fails read_key_share insufficient"
    unfolding read_key_share_def
    by (intro fails_bind [OF br_fails_uints(2) br_yields_uints(2)] fails_bind [OF br_fails_vector br_yields_vector] fails_ret) simp
  show "enc_share x \<noteq> []" by (simp add: enc_share_def)
qed

lemma uint16_vector_decoder:
  "k \<in> {1, 2, 3} \<Longrightarrow> payload_decoder
     (bindM (read_vector k) (\<lambda>d. bindM (uint16_list d E) (\<lambda>vs. ret [(key, JList vs)])))
     (\<lambda>vs. list_all (\<lambda>v. v < 65536) vs \<and> length (concat (map (be_bytes 2) vs)) < 256 ^ k)
     (\<lambda>vs. vec k (concat (map (be_bytes 2) vs))) (\<lambda>vs. [(key, JList (map (\<lambda>v. JObj (describe v (Some E))) vs))])"
  unfolding uint16_list_def by (rule u16.vector_decoder)

lemma bytes_vector_decoder:
  "payload_decoder (bindM (read_vector 1) (\<lambda>d. ret (f d))) (\<lambda>d. length d < 256) (vec 1) f"
proof
  fix d r
  assume a: "length d < 256" "reader_ok r" "reader_rest r = vec 1 d"
  then have "br_decodes (bindM (read_vector 1) (\<lambda>d. ret (f d))) (f d) (vec 1 d)"
    by (intro decodes_bind_ret [OF br_decodes_vector]) simp_all
  from decodesE [OF this a(2), of "[]"] a(3)
  show "\<exists>r'. bindM (read_vector 1) (\<lambda>d. ret (f d)) r = (Inr (f d), r') \<and> reader_rest r' = [] \<and> reader_ok r'" by auto
next
  show "br_yields (bindM (read_vector 1) (\<lambda>d. ret (f d))) (\<lambda>x e. \<exists>d. length d < 256 \<and> e = vec 1 d \<and> x = f d)"
    by (rule yields_mono [OF yields_bind [OF br_yields_vector yields_ret]]) auto
  show "br_fails (bindM (read_vector 1) (\<lambda>d. ret (f d))) ext_fault"
    by (intro fails_bind [OF _ br_yields_vector] fails_ret)
      (use br_fails_vector [of 1] in \<open>auto simp: ext_fault_def fails_def\<close>)
qed

lemma rest_decoder:
  assumes total: "\<And>d e. g d = Inl e \<Longrightarrow> ext_fault e"
    and spec: "\<And>d x. g d = Inr x \<longleftrightarrow> (\<exists>p. ok p \<and> d = enc p \<and> x = report p)"
  shows "payload_decoder (bindM read_remaining (\<lambda>d s. (g d, s))) ok enc report"
proof -
  have r: "bindM read_remaining (\<lambda>d s. (g d, s)) r = (g (reader_rest r), reader_adv (remaining r) r)" if "reader_ok r" for r
    using that by (simp add: bindM_def read_remaining_eq)
  have e: "reader_rest (reader_adv (remaining r) r) = []" "reader_ok (reader_adv (remaining r) r)" if "reader_ok r" for r
    using that by (auto simp: reader_defs remaining_def)
  show ?thesis
    using total spec by unfold_locales (auto simp: r e yields_def fails_def)
qed

lemma yields_alpn_id: "br_yields (read_vector 1) (\<lambda>p e. e = vec 1 p \<and> length p < 256)"
  by (rule yields_mono [OF br_yields_vector]) simp

definition wf_protocols :: "bytes list \<Rightarrow> bool" where
  "wf_protocols ps \<longleftrightarrow> list_all (\<lambda>p. length p < 256) ps \<and> length (concat (map (vec 1) ps)) < 65536"

definition enc_protocols :: "bytes list \<Rightarrow> bytes" where
  "enc_protocols ps = vec 2 (concat (map (vec 1) ps))"

lemma parse_alpn_complete:
  assumes "wf_protocols ps"
  shows "parse_alpn_protocols (enc_protocols ps) = Inr ps"
proof -
  let ?b = "concat (map (vec 1) ps)"
  have v: "br_decodes (read_vector 2) ?b (vec 2 ?b)" using assms by (intro br_decodes_vector) (simp_all add: wf_protocols_def)
  obtain r where r: "read_vector 2 (ByteReader (enc_protocols ps)) = (Inr ?b, r)" "reader_rest r = []" "reader_ok r"
    by (rule decodesE [OF v, of "ByteReader (enc_protocols ps)" "[]"]) (simp_all add: enc_protocols_def)
  have "parses (while_more (read_vector 1)) ?b = Inr ps"
    using assms by (intro parses_while_more) (auto simp: wf_protocols_def list_all_iff intro: br_decodes_vector)
  with r show ?thesis by (simp add: parse_alpn_protocols_def bindM_def has_more_iff ret_def)
qed

lemma parse_alpn_cases:
  obtains (parsed) ps where "wf_protocols ps" "d = enc_protocols ps" "parse_alpn_protocols d = Inr ps"
  | (malformed) e where "\<nexists>ps. wf_protocols ps \<and> d = enc_protocols ps" "ext_fault e" "parse_alpn_protocols d = Inl e"
proof (cases "\<exists>ps. wf_protocols ps \<and> d = enc_protocols ps")
  case True
  with parse_alpn_complete parsed show ?thesis by blast
next
  case False
  have "\<exists>e. ext_fault e \<and> parse_alpn_protocols d = Inl e"
  proof -
    obtain res r where r: "read_vector 2 (ByteReader d) = (res, r)" by fastforce
    show ?thesis
    proof (cases res)
      case (Inl e)
      have "e = ValueError ''Insufficient data''"
        using br_fails_vector [of 2] r Inl unfolding fails_def by (metis ByteReader_simps(1) insertI1 insertI2)
      with r Inl show ?thesis by (simp add: parse_alpn_protocols_def bindM_def ext_fault_def)
    next
      case (Inr b)
      from yieldsE [OF br_yields_vector _ r [unfolded Inr]]
      have d: "d = vec 2 b @ reader_rest r" "length b < 65536" "reader_ok r" by auto
      show ?thesis
      proof (cases "reader_rest r = []")
        case False
        with r Inr d(3) show ?thesis
          by (simp add: parse_alpn_protocols_def bindM_def has_more_iff raise_def ext_fault_def)
      next
        case True
        then have p: "parse_alpn_protocols d = parses (while_more (read_vector 1)) b"
          using r Inr d(3) by (simp add: parse_alpn_protocols_def bindM_def has_more_iff ret_def)
        show ?thesis
        proof (cases "parses (while_more (read_vector 1)) b")
          case (Inl e)
          have "e = ValueError ''Insufficient data''"
            by (rule parses_while_more_error [OF yields_alpn_id _ br_fails_vector Inl]) auto
          with p Inl show ?thesis by (simp add: ext_fault_def)
        next
          case ps: (Inr ps)
          from parses_while_moreD [OF yields_alpn_id ps]
          have "b = concat (map (vec 1) ps) \<and> list_all (\<lambda>p. length p < 256) ps" by (auto simp: list_all2_function)
          with d True have "wf_protocols ps \<and> d = enc_protocols ps" by (simp add: wf_protocols_def enc_protocols_def)
          with False show ?thesis by blast
        qed
      qed
    qed
  qed
  with False malformed show ?thesis by blast
qed

lemma parse_alpn_iff: "parse_alpn_protocols d = Inr ps \<longleftrightarrow> wf_protocols ps \<and> d = enc_protocols ps"
proof (rule parse_alpn_cases [of d])
  fix qs
  assume q: "wf_protocols qs" "d = enc_protocols qs" "parse_alpn_protocols d = Inr qs"
  show ?thesis
    unfolding q(3) sum.inject using q parse_alpn_complete by (metis sum.inject(2))
next
  fix e
  assume "\<nexists>ps. wf_protocols ps \<and> d = enc_protocols ps" "parse_alpn_protocols d = Inl e"
  then show ?thesis by auto
qed

interpretation server_name: payload_decoder decode_server_name
  "\<lambda>ns. list_all (\<lambda>n. fst n < 256 \<and> length (snd n) < 65536) ns \<and> length (concat (map enc_name ns)) < 256 ^ 2"
  "\<lambda>ns. vec 2 (concat (map enc_name ns))" "\<lambda>ns. [(''server_names'', JList (map report_name ns))]"
  unfolding decode_server_name_def by (rule name.vector_decoder) simp

interpretation supported_groups: payload_decoder decode_supported_groups
  "\<lambda>vs. list_all (\<lambda>v. v < 65536) vs \<and> length (concat (map (be_bytes 2) vs)) < 256 ^ 2"
  "\<lambda>vs. vec 2 (concat (map (be_bytes 2) vs))"
  "\<lambda>vs. [(''groups'', JList (map (\<lambda>v. JObj (describe v (Some NamedGroup))) vs))]"
  unfolding decode_supported_groups_def by (rule uint16_vector_decoder) simp

interpretation ec_point_formats: payload_decoder decode_ec_point_formats "\<lambda>d. length d < 256" "vec 1"
  "\<lambda>d. [(''formats'', JList (map (\<lambda>v. JObj (describe (unat v) (Some ECPointFormat))) d))]"
  unfolding decode_ec_point_formats_def by (rule bytes_vector_decoder)

interpretation signature_algorithms: payload_decoder decode_signature_algorithms
  "\<lambda>vs. list_all (\<lambda>v. v < 65536) vs \<and> length (concat (map (be_bytes 2) vs)) < 256 ^ 2"
  "\<lambda>vs. vec 2 (concat (map (be_bytes 2) vs))"
  "\<lambda>vs. [(''algorithms'', JList (map (\<lambda>v. JObj (describe v (Some SignatureScheme))) vs))]"
  unfolding decode_signature_algorithms_def by (rule uint16_vector_decoder) simp

interpretation supported_versions: payload_decoder decode_supported_versions
  "\<lambda>vs. list_all (\<lambda>v. v < 65536) vs \<and> length (concat (map (be_bytes 2) vs)) < 256 ^ 1"
  "\<lambda>vs. vec 1 (concat (map (be_bytes 2) vs))"
  "\<lambda>vs. [(''versions'', JList (map (\<lambda>v. JObj (describe v (Some TLSVersion))) vs))]"
  unfolding decode_supported_versions_def by (rule uint16_vector_decoder) simp

interpretation compress_certificate: payload_decoder decode_compress_certificate
  "\<lambda>vs. list_all (\<lambda>v. v < 65536) vs \<and> length (concat (map (be_bytes 2) vs)) < 256 ^ 1"
  "\<lambda>vs. vec 1 (concat (map (be_bytes 2) vs))"
  "\<lambda>vs. [(''algorithms'', JList (map (\<lambda>v. JObj (describe v (Some CertificateCompressionAlgorithm))) vs))]"
  unfolding decode_compress_certificate_def by (rule uint16_vector_decoder) simp

interpretation psk_key_exchange_modes: payload_decoder decode_psk_key_exchange_modes "\<lambda>d. length d < 256" "vec 1"
  "\<lambda>d. [(''modes'', JList (map (\<lambda>v. JObj (describe (unat v) (Some PskKeyExchangeMode))) d))]"
  unfolding decode_psk_key_exchange_modes_def by (rule bytes_vector_decoder)

interpretation key_share: payload_decoder decode_key_share
  "\<lambda>ss. list_all (\<lambda>s. fst s < 65536 \<and> length (snd s) < 65536) ss \<and> length (concat (map enc_share ss)) < 256 ^ 2"
  "\<lambda>ss. vec 2 (concat (map enc_share ss))" "\<lambda>ss. [(''shares'', JList (map report_share ss))]"
  unfolding decode_key_share_def by (rule share.vector_decoder) simp

interpretation alpn: payload_decoder decode_alpn wf_protocols enc_protocols
  "\<lambda>ps. [(''protocols'', JList (map (\<lambda>p. jstr (latin1 p)) ps))]"
proof -
  let ?f = "\<lambda>ps. [(''protocols'', JList (map (\<lambda>p. jstr (latin1 p)) ps))]"
  have "decode_alpn = bindM read_remaining (\<lambda>d s. (bindR (parse_alpn_protocols d) (\<lambda>ps. Inr (?f ps)), s))"
    unfolding decode_alpn_def by (auto simp: fun_eq_iff bindM_def bindR_def ret_def split: prod.splits sum.splits)
  moreover have "payload_decoder \<dots> wf_protocols enc_protocols ?f"
  proof (rule rest_decoder)
    show "bindR (parse_alpn_protocols d) (\<lambda>ps. Inr (?f ps)) = Inl e \<Longrightarrow> ext_fault e" for d e
      by (cases rule: parse_alpn_cases [of d]) (auto simp: bindR_eq_Inl)
    show "bindR (parse_alpn_protocols d) (\<lambda>ps. Inr (?f ps)) = Inr x \<longleftrightarrow>
        (\<exists>ps. wf_protocols ps \<and> d = enc_protocols ps \<and> x = ?f ps)" for d x
      unfolding bindR_eq_Inr parse_alpn_iff sum.inject by blast
  qed
  ultimately show "payload_decoder decode_alpn wf_protocols enc_protocols ?f" by simp
qed

interpretation padding: payload_decoder decode_padding "\<lambda>_. True" "\<lambda>d. d"
  "\<lambda>d. [(''length'', jnat (length d)), (''all_zero'', JBool (list_all (\<lambda>b. b = 0) d))]"
  unfolding decode_padding_def ret_def by (rule rest_decoder) auto

interpretation presence: payload_decoder decode_empty "\<lambda>_. True" "\<lambda>d. d"
  "\<lambda>d. [(''present'', JBool True), (''unexpected_bytes'', jnat (length d))]"
  unfolding decode_empty_def ret_def by (rule rest_decoder) auto

interpretation record_size_limit: payload_decoder decode_record_size_limit "\<lambda>v. v < 65536" "be_bytes 2"
  "\<lambda>v. [(''limit'', jnat v)]"
proof
  let ?g = "\<lambda>limit. bindM (\<lambda>reader. guardM (\<not> has_more reader)
       (ValueError ''record_size_limit must contain exactly 2 bytes'') reader) (\<lambda>_. ret [(''limit'', jnat limit)])"
  fix v r
  assume a: "v < (65536 :: nat)" "reader_ok r" "reader_rest r = be_bytes 2 v"
  have d: "br_decodes read_uint16 v (be_bytes 2 v)" using a(1) by (intro br_decodes_uints) simp
  obtain r' where "read_uint16 r = (Inr v, r')" "reader_rest r' = []" "reader_ok r'"
    by (rule decodesE [OF d a(2), of "[]"]) (simp_all add: a(3))
  then show "\<exists>r'. decode_record_size_limit r = (Inr [(''limit'', jnat v)], r') \<and> reader_rest r' = [] \<and> reader_ok r'"
    by (simp add: decode_record_size_limit_def bindM_def has_more_iff ret_def)
next
  show "br_yields decode_record_size_limit (\<lambda>x e. \<exists>v<65536. e = be_bytes 2 v \<and> x = [(''limit'', jnat v)])"
    unfolding decode_record_size_limit_def
    by (rule yields_mono [OF yields_bind [OF br_yields_uints(2), of _ "\<lambda>v x e. e = [] \<and> x = [(''limit'', jnat v)]"]])
      (auto simp: yields_def bindM_eq_Inr guardM_eq_Inr)
  show "br_fails decode_record_size_limit ext_fault"
    unfolding decode_record_size_limit_def
    by (intro fails_bind [OF _ br_yields_uints(2)])
      (use br_fails_uints(2) in \<open>auto simp: ext_fault_def fails_def bindM_eq_Inl guardM_eq_Inl\<close>)
qed

section \<open>The specification of all payloads\<close>

datatype ext_payload =
    ServerNames "(nat \<times> bytes) list"
  | SupportedGroups "nat list"
  | PointFormats bytes
  | SignatureAlgorithms "nat list"
  | Protocols "bytes list"
  | PaddingBytes bytes
  | Presence bytes
  | CertificateAlgorithms "nat list"
  | RecordSizeLimit nat
  | SupportedVersions "nat list"
  | KeyExchangeModes bytes
  | KeyShares "(nat \<times> bytes) list"

fun payload_types :: "ext_payload \<Rightarrow> nat set" where
  "payload_types (ServerNames _) = {0}"
| "payload_types (SupportedGroups _) = {10}"
| "payload_types (PointFormats _) = {11}"
| "payload_types (SignatureAlgorithms _) = {13, 50}"
| "payload_types (Protocols _) = {16}"
| "payload_types (PaddingBytes _) = {21}"
| "payload_types (Presence _) = {22, 23}"
| "payload_types (CertificateAlgorithms _) = {27}"
| "payload_types (RecordSizeLimit _) = {28}"
| "payload_types (SupportedVersions _) = {43}"
| "payload_types (KeyExchangeModes _) = {45}"
| "payload_types (KeyShares _) = {51}"

fun wf_payload :: "ext_payload \<Rightarrow> bool" where
  "wf_payload (ServerNames ns) \<longleftrightarrow>
     list_all (\<lambda>n. fst n < 256 \<and> length (snd n) < 65536) ns \<and> length (concat (map enc_name ns)) < 256 ^ 2"
| "wf_payload (SupportedGroups vs) \<longleftrightarrow> list_all (\<lambda>v. v < 65536) vs \<and> length (concat (map (be_bytes 2) vs)) < 256 ^ 2"
| "wf_payload (PointFormats d) \<longleftrightarrow> length d < 256"
| "wf_payload (SignatureAlgorithms vs) \<longleftrightarrow> list_all (\<lambda>v. v < 65536) vs \<and> length (concat (map (be_bytes 2) vs)) < 256 ^ 2"
| "wf_payload (Protocols ps) \<longleftrightarrow> wf_protocols ps"
| "wf_payload (PaddingBytes _) \<longleftrightarrow> True"
| "wf_payload (Presence _) \<longleftrightarrow> True"
| "wf_payload (CertificateAlgorithms vs) \<longleftrightarrow> list_all (\<lambda>v. v < 65536) vs \<and> length (concat (map (be_bytes 2) vs)) < 256 ^ 1"
| "wf_payload (RecordSizeLimit v) \<longleftrightarrow> v < 65536"
| "wf_payload (SupportedVersions vs) \<longleftrightarrow> list_all (\<lambda>v. v < 65536) vs \<and> length (concat (map (be_bytes 2) vs)) < 256 ^ 1"
| "wf_payload (KeyExchangeModes d) \<longleftrightarrow> length d < 256"
| "wf_payload (KeyShares ss) \<longleftrightarrow>
     list_all (\<lambda>s. fst s < 65536 \<and> length (snd s) < 65536) ss \<and> length (concat (map enc_share ss)) < 256 ^ 2"

fun enc_payload :: "ext_payload \<Rightarrow> bytes" where
  "enc_payload (ServerNames ns) = vec 2 (concat (map enc_name ns))"
| "enc_payload (SupportedGroups vs) = vec 2 (concat (map (be_bytes 2) vs))"
| "enc_payload (PointFormats d) = vec 1 d"
| "enc_payload (SignatureAlgorithms vs) = vec 2 (concat (map (be_bytes 2) vs))"
| "enc_payload (Protocols ps) = enc_protocols ps"
| "enc_payload (PaddingBytes d) = d"
| "enc_payload (Presence d) = d"
| "enc_payload (CertificateAlgorithms vs) = vec 1 (concat (map (be_bytes 2) vs))"
| "enc_payload (RecordSizeLimit v) = be_bytes 2 v"
| "enc_payload (SupportedVersions vs) = vec 1 (concat (map (be_bytes 2) vs))"
| "enc_payload (KeyExchangeModes d) = vec 1 d"
| "enc_payload (KeyShares ss) = vec 2 (concat (map enc_share ss))"

definition described :: "int_enum \<Rightarrow> nat list \<Rightarrow> json" where
  "described E vs = JList (map (\<lambda>v. JObj (describe v (Some E))) vs)"

fun report_payload :: "ext_payload \<Rightarrow> dict" where
  "report_payload (ServerNames ns) = [(''server_names'', JList (map report_name ns))]"
| "report_payload (SupportedGroups vs) = [(''groups'', described NamedGroup vs)]"
| "report_payload (PointFormats d) = [(''formats'', described ECPointFormat (map unat d))]"
| "report_payload (SignatureAlgorithms vs) = [(''algorithms'', described SignatureScheme vs)]"
| "report_payload (Protocols ps) = [(''protocols'', JList (map (\<lambda>p. jstr (latin1 p)) ps))]"
| "report_payload (PaddingBytes d) = [(''length'', jnat (length d)), (''all_zero'', JBool (list_all (\<lambda>b. b = 0) d))]"
| "report_payload (Presence d) = [(''present'', JBool True), (''unexpected_bytes'', jnat (length d))]"
| "report_payload (CertificateAlgorithms vs) = [(''algorithms'', described CertificateCompressionAlgorithm vs)]"
| "report_payload (RecordSizeLimit v) = [(''limit'', jnat v)]"
| "report_payload (SupportedVersions vs) = [(''versions'', described TLSVersion vs)]"
| "report_payload (KeyExchangeModes d) = [(''modes'', described PskKeyExchangeMode (map unat d))]"
| "report_payload (KeyShares ss) = [(''shares'', JList (map report_share ss))]"

text \<open>What the report of an extension must be: nothing exactly for the unsupported types; the report
  of a payload whose wire format the data is; and an error when there is no such payload.\<close>

definition extension_spec :: "nat \<Rightarrow> bytes \<Rightarrow> dict option \<Rightarrow> bool" where
  "extension_spec t d res \<longleftrightarrow>
     (case res of
        None \<Rightarrow> \<forall>p. t \<notin> payload_types p
      | Some x \<Rightarrow>
          (\<exists>p. t \<in> payload_types p \<and> wf_payload p \<and> d = enc_payload p \<and> x = report_payload p) \<or>
          (\<exists>p. t \<in> payload_types p) \<and> (\<nexists>p. t \<in> payload_types p \<and> wf_payload p \<and> d = enc_payload p) \<and>
          (\<exists>e. ext_fault e \<and> x = [(''error'', jstr (exn_str e))]))"

lemma extension_spec_decoder:
  assumes dec: "payload_decoder dec ok enc rep" and t: "map_of DECODERS t = Some dec"
    and types: "\<And>p. t \<in> payload_types p \<longleftrightarrow> (\<exists>q. p = C q)"
    and C: "\<And>q. wf_payload (C q) = ok q" "\<And>q. enc_payload (C q) = enc q" "\<And>q. report_payload (C q) = rep q"
  shows "\<exists>res. decode_extension t d = Inr res \<and> extension_spec t d res"
proof (rule payload_decoder.run_cases [OF dec, of d])
  fix q
  assume "ok q" "d = enc q" "run_decoder dec d = Inr (rep q)"
  with t types C have "decode_extension t d = Inr (Some (rep q)) \<and> extension_spec t d (Some (rep q))"
    unfolding decode_extension_def extension_spec_def by (auto simp del: exn_str.simps intro!: exI [of _ "C q"])
  then show ?thesis by blast
next
  fix e
  assume e: "\<nexists>q. ok q \<and> d = enc q" "ext_fault e" "run_decoder dec d = Inr [(''error'', jstr (exn_str e))]"
  have "\<exists>p. t \<in> payload_types p" using types by blast
  moreover have "\<nexists>p. t \<in> payload_types p \<and> wf_payload p \<and> d = enc_payload p" using e(1) types C(1,2) by metis
  ultimately have "extension_spec t d (Some [(''error'', jstr (exn_str e))])"
    unfolding extension_spec_def option.case using e(2) by blast
  moreover have "decode_extension t d = Inr (Some [(''error'', jstr (exn_str e))])"
    using t e(3) by (simp add: decode_extension_def)
  ultimately show ?thesis by blast
qed

lemma payload_type_iff [simp]:
  "0 \<in> payload_types p \<longleftrightarrow> (\<exists>q. p = ServerNames q)"
  "10 \<in> payload_types p \<longleftrightarrow> (\<exists>q. p = SupportedGroups q)"
  "11 \<in> payload_types p \<longleftrightarrow> (\<exists>q. p = PointFormats q)"
  "13 \<in> payload_types p \<longleftrightarrow> (\<exists>q. p = SignatureAlgorithms q)"
  "50 \<in> payload_types p \<longleftrightarrow> (\<exists>q. p = SignatureAlgorithms q)"
  "16 \<in> payload_types p \<longleftrightarrow> (\<exists>q. p = Protocols q)"
  "21 \<in> payload_types p \<longleftrightarrow> (\<exists>q. p = PaddingBytes q)"
  "22 \<in> payload_types p \<longleftrightarrow> (\<exists>q. p = Presence q)"
  "23 \<in> payload_types p \<longleftrightarrow> (\<exists>q. p = Presence q)"
  "27 \<in> payload_types p \<longleftrightarrow> (\<exists>q. p = CertificateAlgorithms q)"
  "28 \<in> payload_types p \<longleftrightarrow> (\<exists>q. p = RecordSizeLimit q)"
  "43 \<in> payload_types p \<longleftrightarrow> (\<exists>q. p = SupportedVersions q)"
  "45 \<in> payload_types p \<longleftrightarrow> (\<exists>q. p = KeyExchangeModes q)"
  "51 \<in> payload_types p \<longleftrightarrow> (\<exists>q. p = KeyShares q)"
  by (cases p; simp)+

lemmas decoder_axioms = server_name.payload_decoder_axioms supported_groups.payload_decoder_axioms
  ec_point_formats.payload_decoder_axioms signature_algorithms.payload_decoder_axioms
  alpn.payload_decoder_axioms padding.payload_decoder_axioms presence.payload_decoder_axioms
  compress_certificate.payload_decoder_axioms record_size_limit.payload_decoder_axioms
  supported_versions.payload_decoder_axioms psk_key_exchange_modes.payload_decoder_axioms
  key_share.payload_decoder_axioms

lemma unsupported_type:
  "t \<notin> fst ` set DECODERS \<Longrightarrow> t \<notin> payload_types p"
  by (cases p) (auto simp: DECODERS_def)

lemma decode_extension_meets_spec:
  "\<exists>res. decode_extension t d = Inr res \<and> extension_spec t d res"
proof (cases "t \<in> fst ` set DECODERS")
  case False
  then have "map_of DECODERS t = None" by (simp add: map_of_eq_None_iff)
  with unsupported_type [OF False] show ?thesis by (auto simp: decode_extension_def extension_spec_def)
next
  case True
  then consider "t = 0" | "t = 10" | "t = 11" | "t = 13" | "t = 50" | "t = 16" | "t = 21" | "t = 22"
    | "t = 23" | "t = 27" | "t = 28" | "t = 43" | "t = 45" | "t = 51" by (auto simp: DECODERS_def)
  then show ?thesis
    by cases (rule extension_spec_decoder [OF decoder_axioms(1)] extension_spec_decoder [OF decoder_axioms(2)]
        extension_spec_decoder [OF decoder_axioms(3)] extension_spec_decoder [OF decoder_axioms(4)]
        extension_spec_decoder [OF decoder_axioms(5)] extension_spec_decoder [OF decoder_axioms(6)]
        extension_spec_decoder [OF decoder_axioms(7)] extension_spec_decoder [OF decoder_axioms(8)]
        extension_spec_decoder [OF decoder_axioms(9)] extension_spec_decoder [OF decoder_axioms(10)]
        extension_spec_decoder [OF decoder_axioms(11)] extension_spec_decoder [OF decoder_axioms(12)],
        (simp add: DECODERS_def; fail), (simp only: payload_type_iff; fail), (simp add: described_def o_def; fail)+)+
qed

text \<open>C30. The extension decoder refines its specification on every input: it always returns, it
  returns nothing exactly for the types without a decoder, and for the others it reports the
  well-formed payload that the data encodes completely, or one of four errors when there is none.\<close>

theorem decode_extension_refines:
  "\<exists>res. decode_extension t d = Inr res \<and> extension_spec t d res"
  by (rule decode_extension_meets_spec)

end
