(* ===== verification/Hashes.thy ===== *)
theory Hashes
  imports Encodings
begin

text \<open>
  The two digests of the Python library that the fingerprints use, \<open>hashlib.md5\<close> (RFC 1321) and
  \<open>hashlib.sha256\<close> (FIPS 180-4), on 32-bit words. The proofs need only the length of a digest; the
  definitions are complete, so that fingerprints can be evaluated, and are compared with the test
  vectors of the standards.
\<close>

unbundle bit_operations_syntax

type_synonym word32 = "32 word"

section \<open>Blocks\<close>

definition rol :: "nat \<Rightarrow> word32 \<Rightarrow> word32" where
  "rol n w = push_bit n w OR drop_bit (32 - n) w"

definition ror :: "nat \<Rightarrow> word32 \<Rightarrow> word32" where
  "ror n w = drop_bit n w OR push_bit (32 - n) w"

fun chunks :: "nat \<Rightarrow> 'a list \<Rightarrow> 'a list list" where
  "chunks 0 xs = []"
| "chunks (Suc k) [] = []"
| "chunks (Suc k) (x # xs) = take (Suc k) (x # xs) # chunks (Suc k) (drop k xs)"

definition word_of_bytes :: "bytes \<Rightarrow> word32" where
  "word_of_bytes bs = foldl (\<lambda>w b. push_bit 8 w OR ucast b) 0 bs"

definition bytes_of_word :: "word32 \<Rightarrow> bytes" where
  "bytes_of_word w = map (\<lambda>n. ucast (drop_bit n w)) [24, 16, 8, 0]"

text \<open>The message, a one bit, zeros up to 56 modulo 64 bytes, and the length in bits modulo \<open>2 ^ 64\<close>
  (the eight low bytes of it).\<close>

definition pad :: "(nat \<Rightarrow> bytes) \<Rightarrow> bytes \<Rightarrow> bytes" where
  "pad enc_length msg =
     msg @ [0x80] @ replicate ((119 - length msg mod 64) mod 64) 0 @ enc_length (8 * length msg)"

lemma length_pad: "length (enc_length (8 * length msg)) = 8 \<Longrightarrow> length (pad enc_length msg) mod 64 = 0"
proof -
  assume e: "length (enc_length (8 * length msg)) = 8"
  define r where "r = length msg mod 64"
  have r: "r < 64" by (simp add: r_def)
  obtain q where q: "length msg = 64 * q + r" unfolding r_def by (metis mult_div_mod_eq)
  have "length (pad enc_length msg) = 64 * q + (r + 9 + (119 - r) mod 64)"
    using e q unfolding pad_def r_def [symmetric] by (simp only: length_append length_replicate list.size)
  moreover have "(r + 9 + (119 - r) mod 64) mod 64 = 0"
  proof (cases "r \<le> 55")
    case True
    then have "(119 - r) mod 64 = 55 - r" by (simp add: le_mod_geq)
    with True show ?thesis by simp
  next
    case False
    then have "(119 - r) mod 64 = 119 - r" by simp
    with False r show ?thesis by simp
  qed
  ultimately show ?thesis by (metis mod_mult_self4)
qed

section \<open>MD5\<close>

definition le_bytes :: "nat \<Rightarrow> nat \<Rightarrow> bytes" where
  "le_bytes k v = rev (be_bytes k v)"

definition md5_K :: "word32 list" where
  "md5_K =
    [0xd76aa478, 0xe8c7b756, 0x242070db, 0xc1bdceee, 0xf57c0faf, 0x4787c62a, 0xa8304613, 0xfd469501,
     0x698098d8, 0x8b44f7af, 0xffff5bb1, 0x895cd7be, 0x6b901122, 0xfd987193, 0xa679438e, 0x49b40821,
     0xf61e2562, 0xc040b340, 0x265e5a51, 0xe9b6c7aa, 0xd62f105d, 0x02441453, 0xd8a1e681, 0xe7d3fbc8,
     0x21e1cde6, 0xc33707d6, 0xf4d50d87, 0x455a14ed, 0xa9e3e905, 0xfcefa3f8, 0x676f02d9, 0x8d2a4c8a,
     0xfffa3942, 0x8771f681, 0x6d9d6122, 0xfde5380c, 0xa4beea44, 0x4bdecfa9, 0xf6bb4b60, 0xbebfbc70,
     0x289b7ec6, 0xeaa127fa, 0xd4ef3085, 0x04881d05, 0xd9d4d039, 0xe6db99e5, 0x1fa27cf8, 0xc4ac5665,
     0xf4292244, 0x432aff97, 0xab9423a7, 0xfc93a039, 0x655b59c3, 0x8f0ccc92, 0xffeff47d, 0x85845dd1,
     0x6fa87e4f, 0xfe2ce6e0, 0xa3014314, 0x4e0811a1, 0xf7537e82, 0xbd3af235, 0x2ad7d2bb, 0xeb86d391]"

definition md5_S :: "nat list" where
  "md5_S =
    [7, 12, 17, 22, 7, 12, 17, 22, 7, 12, 17, 22, 7, 12, 17, 22,
     5, 9, 14, 20, 5, 9, 14, 20, 5, 9, 14, 20, 5, 9, 14, 20,
     4, 11, 16, 23, 4, 11, 16, 23, 4, 11, 16, 23, 4, 11, 16, 23,
     6, 10, 15, 21, 6, 10, 15, 21, 6, 10, 15, 21, 6, 10, 15, 21]"

definition md5_step :: "word32 list \<Rightarrow> word32 \<times> word32 \<times> word32 \<times> word32 \<Rightarrow> nat \<Rightarrow> word32 \<times> word32 \<times> word32 \<times> word32" where
  "md5_step m = (\<lambda>(a, b, c, d) i.
     let f = (if i < 16 then (b AND c) OR (NOT b AND d)
              else if i < 32 then (d AND b) OR (NOT d AND c)
              else if i < 48 then b XOR c XOR d
              else c XOR (b OR NOT d));
         g = (if i < 16 then i else if i < 32 then (5 * i + 1) mod 16
              else if i < 48 then (3 * i + 5) mod 16 else (7 * i) mod 16)
     in (d, b + rol (md5_S ! i) (f + a + md5_K ! i + m ! g), b, c))"

definition md5_block :: "word32 \<times> word32 \<times> word32 \<times> word32 \<Rightarrow> bytes \<Rightarrow> word32 \<times> word32 \<times> word32 \<times> word32" where
  "md5_block s block =
     (case s of (a0, b0, c0, d0) \<Rightarrow>
        case foldl (md5_step (map (\<lambda>c. word_of_bytes (rev c)) (chunks 4 block))) s [0..<64] of
          (a, b, c, d) \<Rightarrow> (a0 + a, b0 + b, c0 + c, d0 + d))"

definition md5 :: "bytes \<Rightarrow> bytes" where
  "md5 msg =
     (case foldl md5_block (0x67452301, 0xefcdab89, 0x98badcfe, 0x10325476) (chunks 64 (pad (le_bytes 8) msg)) of
        (a, b, c, d) \<Rightarrow> concat (map (\<lambda>w. rev (bytes_of_word w)) [a, b, c, d]))"

lemma length_md5 [simp]: "length (md5 msg) = 16"
  by (simp add: md5_def bytes_of_word_def split: prod.split)

section \<open>SHA-256\<close>

text \<open>
  The constants are the first 32 bits of the fractional parts of the square roots of the first eight
  primes and of the cube roots of the first 64 primes. \<open>frac_root k p\<close> computes the \<open>k\<close>-th root of
  \<open>p\<close> with 32 binary places, bit by bit from the top, and drops the integer part.
\<close>

definition frac_root :: "nat \<Rightarrow> int \<Rightarrow> word32" where
  "frac_root k p =
     of_int (foldl (\<lambda>x b. let y = x + 2 ^ b in if y ^ k \<le> p * 2 ^ (32 * k) then y else x) 0 (rev [0..<35]))"

definition primes64 :: "int list" where
  "primes64 =
    [2, 3, 5, 7, 11, 13, 17, 19, 23, 29, 31, 37, 41, 43, 47, 53,
     59, 61, 67, 71, 73, 79, 83, 89, 97, 101, 103, 107, 109, 113, 127, 131,
     137, 139, 149, 151, 157, 163, 167, 173, 179, 181, 191, 193, 197, 199, 211, 223,
     227, 229, 233, 239, 241, 251, 257, 263, 269, 271, 277, 281, 283, 293, 307, 311]"

definition sha256_K :: "word32 list" where
  "sha256_K = map (frac_root 3) primes64"

definition sha256_H :: "word32 list" where
  "sha256_H = map (frac_root 2) (take 8 primes64)"

text \<open>The message schedule: sixteen words of the block and 48 derived ones.\<close>

definition sha256_extend :: "word32 list \<Rightarrow> nat \<Rightarrow> word32 list" where
  "sha256_extend w i =
     (let w15 = w ! (i - 15); w2 = w ! (i - 2);
          s0 = ror 7 w15 XOR ror 18 w15 XOR drop_bit 3 w15;
          s1 = ror 17 w2 XOR ror 19 w2 XOR drop_bit 10 w2
      in w @ [w ! (i - 16) + s0 + w ! (i - 7) + s1])"

definition sha256_schedule :: "bytes \<Rightarrow> word32 list" where
  "sha256_schedule block = foldl sha256_extend (map word_of_bytes (chunks 4 block)) [16..<64]"

definition sha256_step :: "word32 list \<Rightarrow> word32 \<times> word32 \<Rightarrow> word32 list" where
  "sha256_step s kw =
     (case s of [a, b, c, d, e, f, g, h] \<Rightarrow>
        let s1 = ror 6 e XOR ror 11 e XOR ror 25 e;
            ch = (e AND f) XOR (NOT e AND g);
            t1 = h + s1 + ch + fst kw + snd kw;
            s0 = ror 2 a XOR ror 13 a XOR ror 22 a;
            maj = (a AND b) XOR (a AND c) XOR (b AND c)
        in [t1 + (s0 + maj), a, b, c, d + t1, e, f, g]
      | _ \<Rightarrow> s)"

definition sha256_block :: "word32 list \<Rightarrow> bytes \<Rightarrow> word32 list" where
  "sha256_block s block = map2 (+) s (foldl sha256_step s (zip sha256_K (sha256_schedule block)))"

definition sha256 :: "bytes \<Rightarrow> bytes" where
  "sha256 msg = concat (map bytes_of_word (foldl sha256_block sha256_H (chunks 64 (pad (be_bytes 8) msg))))"

lemma length_sha256_step: "length s = 8 \<Longrightarrow> length (sha256_step s kw) = 8"
  by (auto simp: sha256_step_def Let_def split: list.splits)

lemma length_sha256_rounds: "length s = 8 \<Longrightarrow> length (foldl sha256_step s kws) = 8"
  by (induction kws arbitrary: s) (simp_all add: length_sha256_step)

lemma length_sha256_blocks: "length s = 8 \<Longrightarrow> length (foldl sha256_block s bs) = 8"
  by (induction bs arbitrary: s) (simp_all add: sha256_block_def length_sha256_rounds)

lemma length_sha256 [simp]: "length (sha256 msg) = 32"
proof -
  have "length (concat (map bytes_of_word ws)) = 4 * length ws" for ws :: "word32 list"
    by (induction ws) (simp_all add: bytes_of_word_def)
  then show ?thesis
    unfolding sha256_def using length_sha256_blocks [of sha256_H] by (simp add: sha256_H_def primes64_def)
qed

end
