(* ===== verification/Http_Fields.thy ===== *)
theory Http_Fields
  imports Encodings
begin

text \<open>
  HTTP field helpers, \<open>solvetls/http_fields.py\<close>: the text of a field value, the framing of a
  response, and the splitting of comma-separated lists with quoted strings. The scanner of
  \<open>parse_http_list\<close> works by index; \<open>raw_members\<close> is the structural specification it is proved
  equal to.
\<close>

section \<open>Model\<close>

text \<open>A Python value of type \<open>str | bytes\<close>.\<close>

datatype field_value = Str string | Bytes bytes

fun as_text :: "field_value \<Rightarrow> string" where
  "as_text (Bytes v) = latin1 v"
| "as_text (Str s) = s"

definition bodiless :: "nat \<Rightarrow> bool" where
  "bodiless status_code \<longleftrightarrow> status_code \<in> {204, 304} \<or> 100 \<le> status_code \<and> status_code < 200"

definition prepare_response ::
  "bytes \<Rightarrow> (string \<times> string) list option \<Rightarrow> nat \<Rightarrow> bytes \<times> (string \<times> string) list" where
  "prepare_response content headers status_code =
     (let normalized = dict_of (map (\<lambda>(key, value). (lower key, value))
                         (case headers of None \<Rightarrow> [] | Some h \<Rightarrow> h))
      in if bodiless status_code then ([], dict_pop ''content-length'' normalized)
         else (content, dict_set ''content-length'' (str_nat (length content)) normalized))"

record list_state =
  ls_start :: nat
  ls_quoted :: bool
  ls_escaped :: bool
  ls_result :: "string list"

definition SP_HTAB :: string where
  "SP_HTAB = [CHR 0x20, CHR 0x09]"

definition list_step :: "string \<Rightarrow> list_state \<Rightarrow> nat \<times> char \<Rightarrow> list_state" where
  "list_step combined st ic =
     (case ic of (index, ch) \<Rightarrow>
      if ls_escaped st then st\<lparr>ls_escaped := False\<rparr>
      else if ls_quoted st \<and> ch = CHR 0x5C then st\<lparr>ls_escaped := True\<rparr>
      else if ch = CHR 0x22 then st\<lparr>ls_quoted := \<not> ls_quoted st\<rparr>
      else if ch = CHR '','' \<and> \<not> ls_quoted st then
        (let member = strip SP_HTAB (slice combined (ls_start st) index) in
         st\<lparr>ls_result := (if member \<noteq> [] then ls_result st @ [member] else ls_result st),
            ls_start := index + 1\<rparr>)
      else st)"

definition parse_http_list :: "field_value list \<Rightarrow> exn + string list" where
  "parse_http_list values =
     (let combined = join_with '','' (map as_text values);
          st = foldl (list_step combined)
                 \<lparr>ls_start = 0, ls_quoted = False, ls_escaped = False, ls_result = []\<rparr>
                 (enumerate 0 combined)
      in if ls_quoted st \<or> ls_escaped st
         then Inl (ValueError ''Unterminated quoted HTTP list member'')
         else let member = strip SP_HTAB (drop (ls_start st) combined) in
              Inr (if member \<noteq> [] then ls_result st @ [member] else ls_result st))"

definition parse_expectations :: "field_value list \<Rightarrow> exn + string list" where
  "parse_expectations values = bindR (parse_http_list values) (\<lambda>members. Inr (map lower members))"

section \<open>Specification of the list syntax\<close>

text \<open>The members before trimming; \<open>None\<close> if a quoted string is not closed.\<close>

fun raw_members :: "bool \<Rightarrow> bool \<Rightarrow> string \<Rightarrow> string \<Rightarrow> string list option" where
  "raw_members q e cur [] = (if q \<or> e then None else Some [cur])"
| "raw_members q e cur (c # s) =
     (if e then raw_members q False (cur @ [c]) s
      else if q \<and> c = CHR 0x5C then raw_members q True (cur @ [c]) s
      else if c = CHR 0x22 then raw_members (\<not> q) False (cur @ [c]) s
      else if c = CHR '','' \<and> \<not> q then map_option ((#) cur) (raw_members False False [] s)
      else raw_members q False (cur @ [c]) s)"

definition trim_members :: "string list \<Rightarrow> string list" where
  "trim_members ms = filter (\<lambda>m. m \<noteq> []) (map (strip SP_HTAB) ms)"

definition list_spec :: "string \<Rightarrow> exn + string list" where
  "list_spec s = (case raw_members False False [] s of
      None \<Rightarrow> Inl (ValueError ''Unterminated quoted HTTP list member'')
    | Some ms \<Rightarrow> Inr (trim_members ms))"

lemma trim_members_simps [simp]:
  "trim_members [] = []" "trim_members (a @ b) = trim_members a @ trim_members b"
  "trim_members (m # ms) = (if strip SP_HTAB m = [] then [] else [strip SP_HTAB m]) @ trim_members ms"
  by (simp_all add: trim_members_def)

definition finish_list :: "string \<Rightarrow> list_state \<Rightarrow> exn + string list" where
  "finish_list combined st =
     (if ls_quoted st \<or> ls_escaped st
      then Inl (ValueError ''Unterminated quoted HTTP list member'')
      else let member = strip SP_HTAB (drop (ls_start st) combined) in
           Inr (if member \<noteq> [] then ls_result st @ [member] else ls_result st))"

text \<open>The scanner in the middle of its work: \<open>combined = pre @ s\<close>, the scanner stands behind
  \<open>pre\<close> and the current member is \<open>pre\<close> from \<open>ls_start\<close> on.\<close>

lemma scanner_spec:
  assumes "combined = pre @ s" and "ls_start st \<le> length pre"
  shows "finish_list combined (foldl (list_step combined) st (enumerate (length pre) s)) =
    (case raw_members (ls_quoted st) (ls_escaped st) (drop (ls_start st) pre) s of
       None \<Rightarrow> Inl (ValueError ''Unterminated quoted HTTP list member'')
     | Some ms \<Rightarrow> Inr (ls_result st @ trim_members ms))"
  using assms
proof (induction s arbitrary: pre st)
  case Nil
  then show ?case by (auto simp: finish_list_def Let_def)
next
  case (Cons c s)
  let ?st = "list_step combined st (length pre, c)"
  have st: "ls_start ?st \<le> length (pre @ [c])"
    using Cons.prems(2) by (auto simp: list_step_def Let_def)
  have IH: "finish_list combined (foldl (list_step combined) ?st (enumerate (length (pre @ [c])) s)) =
    (case raw_members (ls_quoted ?st) (ls_escaped ?st) (drop (ls_start ?st) (pre @ [c])) s of
       None \<Rightarrow> Inl (ValueError ''Unterminated quoted HTTP list member'')
     | Some ms \<Rightarrow> Inr (ls_result ?st @ trim_members ms))"
    by (rule Cons.IH [OF _ st]) (simp add: Cons.prems(1))
  have cur: "drop (ls_start st) (pre @ [c]) = drop (ls_start st) pre @ [c]"
    "slice combined (ls_start st) (length pre) = drop (ls_start st) pre"
    using Cons.prems by (simp_all add: slice_def)
  have step: "foldl (list_step combined) st (enumerate (length pre) (c # s)) =
      foldl (list_step combined) ?st (enumerate (length (pre @ [c])) s)" by simp
  consider "ls_escaped st" | "\<not> ls_escaped st" "ls_quoted st" "c = CHR 0x5C"
    | "\<not> ls_escaped st" "c = CHR 0x22" | "\<not> ls_escaped st" "\<not> ls_quoted st" "c = CHR '',''"
    | "\<not> ls_escaped st" "\<not> (ls_quoted st \<and> c = CHR 0x5C)" "c \<noteq> CHR 0x22" "\<not> (c = CHR '','' \<and> \<not> ls_quoted st)"
    by blast
  then show ?case
  proof cases
    case 1
    then have "?st = st\<lparr>ls_escaped := False\<rparr>" by (simp add: list_step_def)
    with IH 1 cur(1) show ?thesis unfolding step by (simp split: option.split)
  next
    case 2
    then have "?st = st\<lparr>ls_escaped := True\<rparr>" by (simp add: list_step_def)
    with IH 2 cur(1) show ?thesis unfolding step by (simp split: option.split)
  next
    case 3
    then have "?st = st\<lparr>ls_quoted := \<not> ls_quoted st\<rparr>" by (simp add: list_step_def)
    with IH 3 cur(1) show ?thesis unfolding step by (simp split: option.split)
  next
    case 4
    then have "?st = st\<lparr>ls_result := ls_result st @ trim_members [drop (ls_start st) pre], ls_start := length pre + 1\<rparr>"
      by (simp add: list_step_def cur(2) Let_def)
    with IH 4 show ?thesis unfolding step
      by (cases "raw_members False False [] s") simp_all
  next
    case 5
    then have "?st = st" by (auto simp: list_step_def)
    with IH 5 cur(1) show ?thesis unfolding step by (auto split: option.split)
  qed
qed

lemma parse_http_list_spec: "parse_http_list vs = list_spec (join_with '','' (map as_text vs))"
proof -
  let ?c = "join_with '','' (map as_text vs)"
  let ?i = "\<lparr>ls_start = 0, ls_quoted = False, ls_escaped = False, ls_result = []\<rparr>"
  have "parse_http_list vs = finish_list ?c (foldl (list_step ?c) ?i (enumerate 0 ?c))"
    unfolding parse_http_list_def finish_list_def Let_def ..
  also have "\<dots> = list_spec ?c"
    using scanner_spec [of ?c "[]" ?c ?i] by (simp add: list_spec_def split: option.split)
  finally show ?thesis .
qed

lemma raw_members_append:
  "raw_members q e cur a = Some ms \<Longrightarrow>
     raw_members q e cur (a @ CHR '','' # b) = map_option ((@) ms) (raw_members False False [] b)"
proof (induction q e cur a arbitrary: ms rule: raw_members.induct)
  case (1 q e cur)
  then show ?case by (cases "raw_members False False [] b") (auto split: if_splits)
next
  case (2 q e cur c s)
  have "map_option (\<lambda>x. cur # z @ x) = map_option ((@) (cur # z))" for z
    by (rule arg_cong [of _ _ map_option]) auto
  with 2 show ?case by (auto split: if_splits simp: option.map_comp comp_def)
qed

lemma raw_members_plain:
  "CHR 0x22 \<notin> set s \<Longrightarrow> raw_members False False cur s =
     Some (case split_on CHR '','' s of [] \<Rightarrow> [cur] | p # ps \<Rightarrow> (cur @ p) # ps)"
proof (induction s arbitrary: cur)
  case (Cons c s)
  obtain p ps where "split_on CHR '','' s = p # ps" by (cases "split_on CHR '','' s") auto
  with Cons show ?case by auto
qed simp

lemma join_with_append:
  "a \<noteq> [] \<Longrightarrow> b \<noteq> [] \<Longrightarrow> join_with sep (a @ b) = join_with sep a @ sep @ join_with sep b"
proof (induction sep a rule: join_with.induct)
  case (2 sep x)
  then show ?case by (cases b) auto
qed auto

section \<open>Properties\<close>

text \<open>Field lines combine: splitting the members of several field lines together gives the
  members of the first lines followed by those of the others, so that a list may be spread over
  repeated fields (RFC 9110 5.3).\<close>

theorem http_list_combine:
  assumes "parse_http_list xs = Inr a" and "parse_http_list ys = Inr b"
  shows "parse_http_list (xs @ ys) = Inr (a @ b)"
proof (cases "xs = [] \<or> ys = []")
  case True
  have "parse_http_list [] = Inr []"
    by (simp add: parse_http_list_spec list_spec_def strip_def rstrip_def lstrip_def)
  with True assms show ?thesis by auto
next
  case False
  let ?x = "join_with '','' (map as_text xs)" and ?y = "join_with '','' (map as_text ys)"
  obtain ms where x: "raw_members False False [] ?x = Some ms" "a = trim_members ms"
    using assms(1) by (auto simp: parse_http_list_spec list_spec_def split: option.splits)
  obtain ns where y: "raw_members False False [] ?y = Some ns" "b = trim_members ns"
    using assms(2) by (auto simp: parse_http_list_spec list_spec_def split: option.splits)
  have "join_with '','' (map as_text (xs @ ys)) = ?x @ CHR '','' # ?y"
    using False by (simp add: join_with_append)
  with raw_members_append [OF x(1)] x(2) y show ?thesis
    by (simp add: parse_http_list_spec list_spec_def)
qed

theorem http_list_combine_witness:
  "parse_http_list ([Str ''gzip'', Str [CHR ''a'', CHR 0x22, CHR '','', CHR 0x22]] @ [Bytes [44, 32, 99]]) =
     Inr ([''gzip'', [CHR ''a'', CHR 0x22, CHR '','', CHR 0x22]] @ [''c''])"
proof (rule http_list_combine)
  show "parse_http_list [Str ''gzip'', Str [CHR ''a'', CHR 0x22, CHR '','', CHR 0x22]] =
      Inr [''gzip'', [CHR ''a'', CHR 0x22, CHR '','', CHR 0x22]]"
    by code_simp
  show "parse_http_list [Bytes [44, 32, 99]] = Inr [''c'']"
    by code_simp
qed

text \<open>Lists without quotes: when no value contains a quotation mark, the members are what
  splitting at every comma, trimming spaces and tabs, and dropping empty members gives, whatever
  the values contain otherwise.\<close>

theorem http_list_plain:
  assumes "CHR 0x22 \<notin> set (join_with '','' (map as_text vs))"
  shows "parse_http_list vs =
    Inr (filter (\<lambda>m. m \<noteq> []) (map (strip SP_HTAB) (split_on CHR '','' (join_with '','' (map as_text vs)))))"
  using raw_members_plain [OF assms, of "[]"]
  by (cases "split_on CHR '','' (join_with '','' (map as_text vs))")
    (simp_all add: parse_http_list_spec list_spec_def trim_members_def)

theorem http_list_plain_witness: "parse_http_list [Str ''a, b'', Str '' c''] = Inr [''a'', ''b'', ''c'']"
  using http_list_plain [of "[Str ''a, b'', Str '' c'']"]
  by (simp add: SP_HTAB_def strip_def rstrip_def lstrip_def)

text \<open>Response framing: a response with status 1xx, 204 or 304 has no content and no
  Content-Length; every other response has its content and a Content-Length with the exact number
  of its bytes. Field names are lower case and unique, and all other fields keep the value given
  last.\<close>

theorem prepare_response_framing:
  "let (c, h) = prepare_response content (Some hs) st in
     c = (if bodiless st then [] else content) \<and> distinct (map fst h) \<and> fst ` set h \<subseteq> range lower \<and>
     map_of h = (map_of (rev (map (\<lambda>(k, v). (lower k, v)) hs)))
       (''content-length'' := if bodiless st then None else Some (str_nat (length content)))"
proof -
  let ?n = "dict_of (map (\<lambda>(k, v). (lower k, v)) hs)"
  have dom: "fst ` set d = dom (map_of d)" for d :: "(string \<times> string) list"
    by (simp add: dom_map_of_conv_image_fst)
  have k: "fst ` set ?n \<subseteq> range lower"
    unfolding dom map_of_dict_of by (auto simp: dom_map_of_conv_image_fst)
  have cl: "''content-length'' \<in> range lower"
    by (rule range_eqI [of _ _ "''content-length''"]) (simp add: lower_def lower_char_def)
  have p: "distinct (map fst (dict_pop ''content-length'' ?n))"
    unfolding dict_pop_def using distinct_dict_of by (rule distinct_map_filter)
  have q: "fst ` set (dict_pop ''content-length'' ?n) \<subseteq> range lower"
    using k by (auto simp: dict_pop_def)
  show ?thesis
    using k cl p q
    by (simp add: prepare_response_def Let_def distinct_dict_set distinct_dict_of map_of_dict_set
        map_of_dict_pop map_of_dict_of keys_dict_set)
qed

end
