(* ===== verification/Http2_Frames.thy ===== *)
theory Http2_Frames
  imports Naming
begin

text \<open>
  \<open>solvetls/http2/frames.py\<close>: the HTTP/2 frame types, the forensic frame reader and the frame
  builder. A reader's state is a record; every parsing method is a function on it that returns a
  value or an exception together with the state it leaves behind, because the session reads the
  entry counter of a reader after a payload failed to parse.
\<close>

section \<open>Registries and constants\<close>

definition FrameType :: int_enum where
  "FrameType = [(0x00, ''DATA''), (0x01, ''HEADERS''), (0x02, ''PRIORITY''), (0x03, ''RST_STREAM''),
     (0x04, ''SETTINGS''), (0x05, ''PUSH_PROMISE''), (0x06, ''PING''), (0x07, ''GOAWAY''),
     (0x08, ''WINDOW_UPDATE''), (0x09, ''CONTINUATION''), (0x0a, ''ALTSVC''), (0x0c, ''ORIGIN''),
     (0x10, ''PRIORITY_UPDATE'')]"

text \<open>\<open>FrameFlags\<close> by name: \<open>ACK\<close> is an alias of \<open>END_STREAM\<close>.\<close>

definition FrameFlags :: "(string \<times> nat) list" where
  "FrameFlags = [(''END_STREAM'', 0x01), (''END_HEADERS'', 0x04), (''PADDED'', 0x08),
     (''PRIORITY'', 0x20), (''ACK'', 0x01)]"

definition ErrorCode :: int_enum where
  "ErrorCode = [(0x00, ''NO_ERROR''), (0x01, ''PROTOCOL_ERROR''), (0x02, ''INTERNAL_ERROR''),
     (0x03, ''FLOW_CONTROL_ERROR''), (0x04, ''SETTINGS_TIMEOUT''), (0x05, ''STREAM_CLOSED''),
     (0x06, ''FRAME_SIZE_ERROR''), (0x07, ''REFUSED_STREAM''), (0x08, ''CANCEL''),
     (0x09, ''COMPRESSION_ERROR''), (0x0a, ''CONNECT_ERROR''), (0x0b, ''ENHANCE_YOUR_CALM''),
     (0x0c, ''INADEQUATE_SECURITY''), (0x0d, ''HTTP_1_1_REQUIRED'')]"

definition SettingsIdentifier :: int_enum where
  "SettingsIdentifier = [(0x01, ''HEADER_TABLE_SIZE''), (0x02, ''ENABLE_PUSH''),
     (0x03, ''MAX_CONCURRENT_STREAMS''), (0x04, ''INITIAL_WINDOW_SIZE''), (0x05, ''MAX_FRAME_SIZE''),
     (0x06, ''MAX_HEADER_LIST_SIZE''), (0x08, ''ENABLE_CONNECT_PROTOCOL''),
     (0x09, ''NO_RFC7540_PRIORITIES'')]"

definition FT_DATA :: nat where [simp]: "FT_DATA = 0x00"
definition FT_HEADERS :: nat where [simp]: "FT_HEADERS = 0x01"
definition FT_PRIORITY :: nat where [simp]: "FT_PRIORITY = 0x02"
definition FT_RST_STREAM :: nat where [simp]: "FT_RST_STREAM = 0x03"
definition FT_SETTINGS :: nat where [simp]: "FT_SETTINGS = 0x04"
definition FT_PUSH_PROMISE :: nat where [simp]: "FT_PUSH_PROMISE = 0x05"
definition FT_PING :: nat where [simp]: "FT_PING = 0x06"
definition FT_GOAWAY :: nat where [simp]: "FT_GOAWAY = 0x07"
definition FT_WINDOW_UPDATE :: nat where [simp]: "FT_WINDOW_UPDATE = 0x08"
definition FT_CONTINUATION :: nat where [simp]: "FT_CONTINUATION = 0x09"
definition FT_ALTSVC :: nat where [simp]: "FT_ALTSVC = 0x0A"
definition FT_ORIGIN :: nat where [simp]: "FT_ORIGIN = 0x0C"
definition FT_PRIORITY_UPDATE :: nat where [simp]: "FT_PRIORITY_UPDATE = 0x10"

definition FF_END_STREAM :: nat where [simp]: "FF_END_STREAM = 0x01"
definition FF_END_HEADERS :: nat where [simp]: "FF_END_HEADERS = 0x04"
definition FF_PADDED :: nat where [simp]: "FF_PADDED = 0x08"
definition FF_PRIORITY :: nat where [simp]: "FF_PRIORITY = 0x20"
definition FF_ACK :: nat where [simp]: "FF_ACK = 0x01"

definition NO_ERROR :: nat where [simp]: "NO_ERROR = 0x00"
definition PROTOCOL_ERROR :: nat where [simp]: "PROTOCOL_ERROR = 0x01"
definition INTERNAL_ERROR :: nat where [simp]: "INTERNAL_ERROR = 0x02"
definition FLOW_CONTROL_ERROR :: nat where [simp]: "FLOW_CONTROL_ERROR = 0x03"
definition FRAME_SIZE_ERROR :: nat where [simp]: "FRAME_SIZE_ERROR = 0x06"
definition REFUSED_STREAM :: nat where [simp]: "REFUSED_STREAM = 0x07"
definition COMPRESSION_ERROR :: nat where [simp]: "COMPRESSION_ERROR = 0x09"
definition ENHANCE_YOUR_CALM :: nat where [simp]: "ENHANCE_YOUR_CALM = 0x0B"

definition SI_HEADER_TABLE_SIZE :: nat where [simp]: "SI_HEADER_TABLE_SIZE = 0x01"
definition SI_ENABLE_PUSH :: nat where [simp]: "SI_ENABLE_PUSH = 0x02"
definition SI_INITIAL_WINDOW_SIZE :: nat where [simp]: "SI_INITIAL_WINDOW_SIZE = 0x04"
definition SI_MAX_FRAME_SIZE :: nat where [simp]: "SI_MAX_FRAME_SIZE = 0x05"

definition FRAME_HEADER_SIZE :: nat where [simp]: "FRAME_HEADER_SIZE = 9"
definition DEFAULT_MAX_FRAME_SIZE :: nat where [simp]: "DEFAULT_MAX_FRAME_SIZE = 16384"
definition MAX_ALLOWED_FRAME_SIZE :: nat where [simp]: "MAX_ALLOWED_FRAME_SIZE = 16777215"
definition MAX_STREAM_ID :: nat where "MAX_STREAM_ID = 0x7FFFFFFF"
definition RESERVED_BIT_MASK :: nat where "RESERVED_BIT_MASK = 0x80000000"
definition PING_PAYLOAD_SIZE :: nat where [simp]: "PING_PAYLOAD_SIZE = 8"
definition PRIORITY_PAYLOAD_SIZE :: nat where [simp]: "PRIORITY_PAYLOAD_SIZE = 5"
definition RST_STREAM_PAYLOAD_SIZE :: nat where [simp]: "RST_STREAM_PAYLOAD_SIZE = 4"
definition WINDOW_UPDATE_PAYLOAD_SIZE :: nat where [simp]: "WINDOW_UPDATE_PAYLOAD_SIZE = 4"
definition SETTINGS_ENTRY_SIZE :: nat where [simp]: "SETTINGS_ENTRY_SIZE = 6"

text \<open>\<open>bool(flags & flag)\<close>.\<close>

definition has_flag :: "nat \<Rightarrow> nat \<Rightarrow> bool" where
  "has_flag flags flag \<longleftrightarrow> flags AND flag \<noteq> 0"

section \<open>Frames\<close>

record frame_header =
  fh_length :: nat
  fh_type :: nat
  fh_flags :: nat
  fh_stream_id :: nat

record priority_info =
  exclusive :: bool
  dependency :: nat
  weight :: nat

datatype payload =
    DataPayload (data_of: bytes) (end_stream_of: bool) (padded_of: bool)
  | HeadersPayload (header_block_of: bytes) (priority_of: "priority_info option")
      (end_stream_of: bool) (end_headers_of: bool) (padded_of: bool)
  | PriorityPayload priority_info
  | RstStreamPayload nat
  | SettingsPayload (ack_of: bool) (settings_of: "(nat \<times> nat) list option")
      (entries_of: "(nat \<times> nat) list")
  | PushPromisePayload nat (header_block_of: bytes) (end_headers_of: bool) (padded_of: bool)
  | PingPayload (data_of: bytes) (ack_of: bool)
  | GoawayPayload nat nat bytes
  | WindowUpdatePayload nat
  | ContinuationPayload (header_block_of: bytes) (end_headers_of: bool)
  | AltSvcPayload bytes bytes
  | OriginPayload "bytes list"
  | PriorityUpdatePayload nat bytes
  | UnknownPayload nat bytes "string option" "nat option"

record parsed_frame =
  pf_header :: frame_header
  pf_payload :: payload
  pf_raw :: bytes

section \<open>The reader\<close>

record frame_reader =
  fr_data :: bytes
  fr_pos :: nat
  fr_max_frame_size :: nat
  fr_strict_padding :: bool
  fr_forensic :: bool
  fr_payload_end :: "nat option"
  fr_max_entries :: "int option"
  fr_entries_read :: nat

definition HTTP2FrameReader :: "bytes \<Rightarrow> nat \<Rightarrow> bool \<Rightarrow> bool \<Rightarrow> int option \<Rightarrow> frame_reader" where
  "HTTP2FrameReader data max_frame_size strict_padding forensic max_entries =
     \<lparr>fr_data = data, fr_pos = 0, fr_max_frame_size = min max_frame_size MAX_ALLOWED_FRAME_SIZE,
      fr_strict_padding = strict_padding, fr_forensic = forensic, fr_payload_end = None,
      fr_max_entries = max_entries, fr_entries_read = 0\<rparr>"

definition reserve_entries :: "nat \<Rightarrow> (frame_reader, unit) meth" where
  "reserve_entries count r =
     (if (case fr_max_entries r of None \<Rightarrow> False | Some m \<Rightarrow> int (fr_entries_read r + count) > m)
      then raise (FrameParsingError ''HTTP/2 decoded entry limit exceeded'' ENHANCE_YOUR_CALM) r
      else (Inr (), r\<lparr>fr_entries_read := fr_entries_read r + count\<rparr>))"

definition fr_end :: "frame_reader \<Rightarrow> nat" where
  "fr_end r = (case fr_payload_end r of Some e \<Rightarrow> e | None \<Rightarrow> length (fr_data r))"

definition fr_read :: "int \<Rightarrow> (frame_reader, bytes) meth" where
  "fr_read n r =
     (if n < 0 \<or> int (fr_pos r) + n > int (fr_end r)
      then raise (FrameParsingError
        (''Insufficient data: need '' @ str_int n @ '' bytes, have '' @
         str_int (int (fr_end r) - int (fr_pos r))) FRAME_SIZE_ERROR) r
      else (Inr (slice (fr_data r) (fr_pos r) (fr_pos r + nat n)), r\<lparr>fr_pos := fr_pos r + nat n\<rparr>))"

definition fr_read_uint8 :: "(frame_reader, nat) meth" where
  "fr_read_uint8 = read_be fr_read 1"

definition fr_read_uint16 :: "(frame_reader, nat) meth" where
  "fr_read_uint16 = read_be fr_read 2"

definition fr_read_uint24 :: "(frame_reader, nat) meth" where
  "fr_read_uint24 = bindM (fr_read 3) (\<lambda>data. ret (be_nat (0 # data)))"

definition fr_read_uint32 :: "(frame_reader, nat) meth" where
  "fr_read_uint32 = read_be fr_read 4"

definition fr_read_uint32_with_reserved :: "(frame_reader, nat) meth" where
  "fr_read_uint32_with_reserved = bindM fr_read_uint32 (\<lambda>v. ret (v AND MAX_STREAM_ID))"

definition read_priority :: "(frame_reader, priority_info) meth" where
  "read_priority =
     bindM fr_read_uint32 (\<lambda>raw_dependency.
     bindM fr_read_uint8 (\<lambda>w.
     ret \<lparr>exclusive = (raw_dependency AND RESERVED_BIT_MASK \<noteq> 0),
          dependency = raw_dependency AND MAX_STREAM_ID, weight = w + 1\<rparr>))"

definition read_padding_length :: "frame_header \<Rightarrow> (frame_reader, nat) meth" where
  "read_padding_length header =
     (if \<not> has_flag (fh_flags header) FF_PADDED then ret 0
      else bindM fr_read_uint8 (\<lambda>len.
        if len \<ge> fh_length header
        then raise (FrameParsingError ''Invalid padding length'' PROTOCOL_ERROR)
        else ret len))"

definition skip_padding :: "nat \<Rightarrow> (frame_reader, unit) meth" where
  "skip_padding len =
     bindM (fr_read (int len)) (\<lambda>padding r.
       if fr_strict_padding r \<and> (\<exists>b \<in> set padding. b \<noteq> 0)
       then raise (FrameParsingError ''Padding must be zero'' PROTOCOL_ERROR) r
       else ret () r)"

section \<open>Payload parsers\<close>

definition protoM :: "string \<Rightarrow> (frame_reader, 'a) meth" where
  "protoM msg = raise (FrameParsingError msg PROTOCOL_ERROR)"

definition sizeM :: "string \<Rightarrow> (frame_reader, 'a) meth" where
  "sizeM msg = raise (FrameParsingError msg FRAME_SIZE_ERROR)"

definition parse_data :: "frame_header \<Rightarrow> (frame_reader, payload) meth" where
  "parse_data header =
     (if fh_stream_id header = 0 then protoM ''DATA frame must have non-zero stream ID''
      else bindM (read_padding_length header) (\<lambda>pad_length.
        let data_length = int (fh_length header)
              - (if has_flag (fh_flags header) FF_PADDED then 1 else 0) - int pad_length
        in if data_length < 0 then protoM ''Invalid data length''
           else bindM (fr_read data_length) (\<lambda>data.
                bindM (skip_padding pad_length) (\<lambda>_.
                ret (DataPayload data (has_flag (fh_flags header) FF_END_STREAM)
                       (has_flag (fh_flags header) FF_PADDED))))))"

definition parse_headers :: "frame_header \<Rightarrow> (frame_reader, payload) meth" where
  "parse_headers header =
     (if fh_stream_id header = 0 then protoM ''HEADERS frame must have non-zero stream ID''
      else bindM (read_padding_length header) (\<lambda>pad_length.
           bindM (if has_flag (fh_flags header) FF_PRIORITY
                  then bindM read_priority (\<lambda>p. ret (Some p)) else ret None) (\<lambda>priority_data.
        let header_block_length = int (fh_length header)
              - (if has_flag (fh_flags header) FF_PADDED then 1 else 0)
              - (if has_flag (fh_flags header) FF_PRIORITY then 5 else 0) - int pad_length
        in if header_block_length < 0 then protoM ''Invalid header block length''
           else bindM (fr_read header_block_length) (\<lambda>header_block.
                bindM (skip_padding pad_length) (\<lambda>_.
                ret (HeadersPayload header_block priority_data
                       (has_flag (fh_flags header) FF_END_STREAM)
                       (has_flag (fh_flags header) FF_END_HEADERS)
                       (has_flag (fh_flags header) FF_PADDED)))))))"

definition parse_priority :: "frame_header \<Rightarrow> (frame_reader, payload) meth" where
  "parse_priority header =
     (if fh_length header \<noteq> PRIORITY_PAYLOAD_SIZE then sizeM ''PRIORITY frame must be 5 bytes''
      else if fh_stream_id header = 0 then protoM ''PRIORITY frame must have non-zero stream ID''
      else bindM read_priority (\<lambda>p. ret (PriorityPayload p)))"

definition parse_rst_stream :: "frame_header \<Rightarrow> (frame_reader, payload) meth" where
  "parse_rst_stream header =
     (if fh_length header \<noteq> RST_STREAM_PAYLOAD_SIZE then sizeM ''RST_STREAM frame must be 4 bytes''
      else if fh_stream_id header = 0 then protoM ''RST_STREAM frame must have non-zero stream ID''
      else bindM fr_read_uint32 (\<lambda>error_code. ret (RstStreamPayload error_code)))"

definition check_setting :: "nat \<Rightarrow> nat \<Rightarrow> (frame_reader, unit) meth" where
  "check_setting setting_id setting_value =
     (if setting_id = SI_ENABLE_PUSH \<and> setting_value \<notin> {0, 1}
      then protoM ''SETTINGS_ENABLE_PUSH must be 0 or 1''
      else if setting_id = SI_INITIAL_WINDOW_SIZE \<and> setting_value > MAX_STREAM_ID
      then raise (FrameParsingError ''SETTINGS_INITIAL_WINDOW_SIZE exceeds maximum'' FLOW_CONTROL_ERROR)
      else if setting_id = SI_MAX_FRAME_SIZE \<and>
        \<not> (DEFAULT_MAX_FRAME_SIZE \<le> setting_value \<and> setting_value \<le> MAX_ALLOWED_FRAME_SIZE)
      then protoM ''SETTINGS_MAX_FRAME_SIZE is outside the allowed range''
      else ret ())"

fun read_settings :: "nat \<Rightarrow> (frame_reader, (nat \<times> nat) list) meth" where
  "read_settings 0 = ret []"
| "read_settings (Suc n) =
     bindM fr_read_uint16 (\<lambda>setting_id.
     bindM fr_read_uint32 (\<lambda>setting_value.
     bindM (check_setting setting_id setting_value) (\<lambda>_.
     bindM (read_settings n) (\<lambda>entries. ret ((setting_id, setting_value) # entries)))))"

definition parse_settings :: "frame_header \<Rightarrow> (frame_reader, payload) meth" where
  "parse_settings header =
     (if fh_stream_id header \<noteq> 0 then protoM ''SETTINGS frame must have stream ID = 0''
      else if has_flag (fh_flags header) FF_ACK then
        (if fh_length header \<noteq> 0 then sizeM ''SETTINGS ACK must have empty payload''
         else ret (SettingsPayload True None []))
      else if fh_length header mod SETTINGS_ENTRY_SIZE \<noteq> 0
      then sizeM ''Invalid SETTINGS payload length''
      else bindM (reserve_entries (fh_length header div SETTINGS_ENTRY_SIZE)) (\<lambda>_.
           bindM (read_settings (fh_length header div SETTINGS_ENTRY_SIZE)) (\<lambda>entries.
           ret (SettingsPayload False (Some (dict_of entries)) entries))))"

definition parse_push_promise :: "frame_header \<Rightarrow> (frame_reader, payload) meth" where
  "parse_push_promise header =
     (if fh_stream_id header = 0 then protoM ''PUSH_PROMISE frame must have non-zero stream ID''
      else bindM (read_padding_length header) (\<lambda>pad_length.
           bindM fr_read_uint32_with_reserved (\<lambda>promised_stream_id.
        if promised_stream_id = 0 then protoM ''Promised stream ID must be non-zero''
        else let header_block_length = int (fh_length header)
                   - (if has_flag (fh_flags header) FF_PADDED then 1 else 0) - 4 - int pad_length
             in if header_block_length < 0 then protoM ''Invalid header block length''
                else bindM (fr_read header_block_length) (\<lambda>header_block.
                     bindM (skip_padding pad_length) (\<lambda>_.
                     ret (PushPromisePayload promised_stream_id header_block
                            (has_flag (fh_flags header) FF_END_HEADERS)
                            (has_flag (fh_flags header) FF_PADDED)))))))"

definition parse_ping :: "frame_header \<Rightarrow> (frame_reader, payload) meth" where
  "parse_ping header =
     (if fh_stream_id header \<noteq> 0 then protoM ''PING frame must have stream ID = 0''
      else if fh_length header \<noteq> PING_PAYLOAD_SIZE then sizeM ''PING frame must be 8 bytes''
      else bindM (fr_read (int PING_PAYLOAD_SIZE)) (\<lambda>data.
           ret (PingPayload data (has_flag (fh_flags header) FF_ACK))))"

definition parse_goaway :: "frame_header \<Rightarrow> (frame_reader, payload) meth" where
  "parse_goaway header =
     (if fh_stream_id header \<noteq> 0 then protoM ''GOAWAY frame must have stream ID = 0''
      else if fh_length header < 8 then sizeM ''GOAWAY frame must be at least 8 bytes''
      else bindM fr_read_uint32_with_reserved (\<lambda>last_stream_id.
           bindM fr_read_uint32 (\<lambda>error_code.
           let debug_data_length = fh_length header - 8 in
           bindM (if debug_data_length > 0 then fr_read (int debug_data_length) else ret []) (\<lambda>debug_data.
           ret (GoawayPayload last_stream_id error_code debug_data)))))"

definition parse_window_update :: "frame_header \<Rightarrow> (frame_reader, payload) meth" where
  "parse_window_update header =
     (if fh_length header \<noteq> WINDOW_UPDATE_PAYLOAD_SIZE then sizeM ''WINDOW_UPDATE frame must be 4 bytes''
      else bindM fr_read_uint32_with_reserved (\<lambda>increment.
        if increment = 0 then protoM ''Window size increment must not be 0''
        else ret (WindowUpdatePayload increment)))"

definition parse_continuation :: "frame_header \<Rightarrow> (frame_reader, payload) meth" where
  "parse_continuation header =
     (if fh_stream_id header = 0 then protoM ''CONTINUATION frame must have non-zero stream ID''
      else bindM (fr_read (int (fh_length header))) (\<lambda>header_block.
           ret (ContinuationPayload header_block (has_flag (fh_flags header) FF_END_HEADERS))))"

definition parse_altsvc :: "frame_header \<Rightarrow> (frame_reader, payload) meth" where
  "parse_altsvc header =
     (if fh_length header < 2 then protoM ''ALTSVC frame too short''
      else bindM fr_read_uint16 (\<lambda>origin_len.
        if origin_len > fh_length header - 2 then protoM ''Invalid origin length in ALTSVC''
        else bindM (fr_read (int origin_len)) (\<lambda>origin.
             bindM (fr_read (int (fh_length header - 2 - origin_len))) (\<lambda>field_value.
             ret (AltSvcPayload origin field_value)))))"

function read_origins :: "nat \<Rightarrow> nat \<Rightarrow> (frame_reader, bytes list) meth" where
  "read_origins len bytes_read r =
     (if bytes_read < len then
        (if bytes_read + 2 > len then protoM ''Invalid ORIGIN frame format'' r
         else bindM fr_read_uint16 (\<lambda>origin_len r1.
           if bytes_read + 2 + origin_len > len
           then protoM ''Invalid origin length in ORIGIN frame'' r1
           else bindM (reserve_entries 1) (\<lambda>_ r2.
                bindM (fr_read (int origin_len)) (\<lambda>origin r3.
                bindM (read_origins len (bytes_read + 2 + origin_len)) (\<lambda>origins.
                ret (origin # origins)) r3) r2) r1) r)
      else ret [] r)"
  by pat_completeness auto
termination
  by (relation "measure (\<lambda>(len, bytes_read, r). len - bytes_read)") auto

declare read_origins.simps [simp del]

definition parse_origin :: "frame_header \<Rightarrow> (frame_reader, payload) meth" where
  "parse_origin header =
     (if fh_stream_id header \<noteq> 0 then protoM ''ORIGIN frame must have stream ID = 0''
      else bindM (read_origins (fh_length header) 0) (\<lambda>origins. ret (OriginPayload origins)))"

definition parse_priority_update :: "frame_header \<Rightarrow> (frame_reader, payload) meth" where
  "parse_priority_update header =
     (if fh_stream_id header \<noteq> 0 then protoM ''PRIORITY_UPDATE frame must have stream ID = 0''
      else if fh_length header < 4 then sizeM ''PRIORITY_UPDATE frame too short''
      else bindM fr_read_uint32_with_reserved (\<lambda>prioritized_stream_id.
        if prioritized_stream_id = 0 then protoM ''Prioritized stream ID must be non-zero''
        else bindM (fr_read (int (fh_length header - 4))) (\<lambda>priority_field_value.
             ret (PriorityUpdatePayload prioritized_stream_id priority_field_value))))"

definition parse_payload_by_type :: "frame_header \<Rightarrow> (frame_reader, payload) meth" where
  "parse_payload_by_type header =
     (let t = fh_type header in
      if t = FT_DATA then parse_data header
      else if t = FT_HEADERS then parse_headers header
      else if t = FT_PRIORITY then parse_priority header
      else if t = FT_RST_STREAM then parse_rst_stream header
      else if t = FT_SETTINGS then parse_settings header
      else if t = FT_PUSH_PROMISE then parse_push_promise header
      else if t = FT_PING then parse_ping header
      else if t = FT_GOAWAY then parse_goaway header
      else if t = FT_WINDOW_UPDATE then parse_window_update header
      else if t = FT_CONTINUATION then parse_continuation header
      else if t = FT_ALTSVC then parse_altsvc header
      else if t = FT_ORIGIN then parse_origin header
      else if t = FT_PRIORITY_UPDATE then parse_priority_update header
      else bindM (fr_read (int (fh_length header))) (\<lambda>raw. ret (UnknownPayload t raw None None)))"

section \<open>One frame\<close>

text \<open>
  The \<open>try\<close> block of \<open>parse_frame\<close>: the payload parser runs inside the window that ends at
  \<open>payload_end\<close>, and has to consume it completely.
\<close>

definition parse_window :: "frame_header \<Rightarrow> nat \<Rightarrow> (frame_reader, payload) meth" where
  "parse_window header payload_start =
     bindM (parse_payload_by_type header) (\<lambda>payload_data r.
       let bytes_read = int (fr_pos r) - int payload_start in
       if bytes_read \<noteq> int (fh_length header)
       then raise (FrameParsingError
         (''Payload: expected '' @ str_nat (fh_length header) @ '' bytes, read '' @ str_int bytes_read)
         FRAME_SIZE_ERROR) r
       else ret payload_data r)"

definition parse_frame_payload :: "nat \<Rightarrow> frame_header \<Rightarrow> (frame_reader, parsed_frame) meth" where
  "parse_frame_payload frame_start header r =
     (let payload_start = fr_pos r;
          payload_end = payload_start + fh_length header;
          raw = slice (fr_data r) frame_start payload_end
      in case parse_window header payload_start (r\<lparr>fr_payload_end := Some payload_end\<rparr>) of
           (Inr payload_data, r1) \<Rightarrow>
             (Inr \<lparr>pf_header = header, pf_payload = payload_data, pf_raw = raw\<rparr>, r1\<lparr>fr_payload_end := None\<rparr>)
         | (Inl (FrameParsingError msg code), r1) \<Rightarrow>
             (if code = ENHANCE_YOUR_CALM \<or> \<not> fr_forensic r1 \<and> fh_type header \<notin> {FT_ALTSVC, FT_ORIGIN}
              then (Inl (FrameParsingError msg code), r1\<lparr>fr_payload_end := None\<rparr>)
              else (Inr \<lparr>pf_header = header,
                         pf_payload = UnknownPayload (fh_type header)
                           (slice (fr_data r) payload_start payload_end) (Some msg) (Some code),
                         pf_raw = raw\<rparr>,
                    r1\<lparr>fr_pos := payload_end, fr_payload_end := None\<rparr>))
         | (Inl e, r1) \<Rightarrow> (Inl e, r1\<lparr>fr_payload_end := None\<rparr>))"

definition parse_frame :: "(frame_reader, parsed_frame) meth" where
  "parse_frame r0 =
     (let frame_start = fr_pos r0 in
      if int (length (fr_data r0)) - int (fr_pos r0) < int FRAME_HEADER_SIZE
      then sizeM ''Incomplete frame header'' r0
      else bindM fr_read_uint24 (\<lambda>frame_length.
           bindM fr_read_uint8 (\<lambda>frame_type.
           bindM fr_read_uint8 (\<lambda>frame_flags.
           bindM fr_read_uint32_with_reserved (\<lambda>stream_id r.
             if frame_length > fr_max_frame_size r
             then sizeM (''Frame size '' @ str_nat frame_length @ '' exceeds maximum '' @
                    str_nat (fr_max_frame_size r)) r
             else if int frame_length > int (length (fr_data r)) - int (fr_pos r)
             then sizeM ''Incomplete frame payload'' r
             else parse_frame_payload frame_start
                    \<lparr>fh_length = frame_length, fh_type = frame_type, fh_flags = frame_flags,
                     fh_stream_id = stream_id\<rparr> r)))) r0)"

definition has_more_frames :: "frame_reader \<Rightarrow> bool" where
  "has_more_frames r \<longleftrightarrow> fr_pos r < length (fr_data r)"

section \<open>The builder\<close>

definition build_frame :: "nat \<Rightarrow> nat \<Rightarrow> int \<Rightarrow> bytes \<Rightarrow> exn + bytes" where
  "build_frame frame_type flags stream_id payload =
     (if length payload > MAX_ALLOWED_FRAME_SIZE
      then Inl (ValueError ''Frame length exceeds maximum (16777215)'')
      else if \<not> (0 \<le> stream_id \<and> stream_id \<le> int MAX_STREAM_ID)
      then Inl (ValueError ''Stream ID must be between 0 and 2147483647'')
      else if frame_type > 255 \<or> flags > 255 then Inl StructError
      else Inr (tl (be_bytes 4 (length payload)) @ be_bytes 1 frame_type @ be_bytes 1 flags @
                be_bytes 4 (nat stream_id) @ payload))"

definition build_headers_frame :: "int \<Rightarrow> bytes \<Rightarrow> bool \<Rightarrow> bool \<Rightarrow> exn + bytes" where
  "build_headers_frame stream_id header_block end_stream end_headers =
     build_frame FT_HEADERS
       ((if end_stream then FF_END_STREAM else 0) OR (if end_headers then FF_END_HEADERS else 0))
       stream_id header_block"

definition pack_setting :: "nat \<times> nat \<Rightarrow> exn + bytes" where
  "pack_setting kv = (case kv of (setting_id, value) \<Rightarrow>
     if setting_id > 65535 \<or> value > 4294967295 then Inl StructError
     else Inr (be_bytes 2 setting_id @ be_bytes 4 value))"

fun pack_settings :: "(nat \<times> nat) list \<Rightarrow> exn + bytes" where
  "pack_settings [] = Inr []"
| "pack_settings (kv # kvs) =
     bindR (pack_setting kv) (\<lambda>b. bindR (pack_settings kvs) (\<lambda>bs. Inr (b @ bs)))"

definition build_settings_frame :: "(nat \<times> nat) list option \<Rightarrow> bool \<Rightarrow> exn + bytes" where
  "build_settings_frame settings ack =
     bindR (if ack then Inr [] else (case settings of None \<Rightarrow> Inr [] | Some s \<Rightarrow> pack_settings s))
       (\<lambda>payload. build_frame FT_SETTINGS (if ack then FF_ACK else 0) 0 payload)"

end
