(* ===== verification/Http2_Capture.thy ===== *)
theory Http2_Capture
  imports Http2_Frames
begin

text \<open>
  The capture of one HTTP/2 connection, \<open>HTTP2Capture\<close> of \<open>solvetls/http2/session.py\<close>: the session
  fills it, the fingerprints and the report read it.
\<close>

record http2_capture =
  cap_frames :: "parsed_frame list"
  cap_initial_settings :: "(nat \<times> nat) list option"
  cap_headers :: "(bytes \<times> bytes) list option"
  cap_trailers :: "(bytes \<times> bytes) list"
  cap_stream_id :: "nat option"
  cap_expectation_failed :: bool

definition HTTP2Capture :: http2_capture where
  "HTTP2Capture = \<lparr>cap_frames = [], cap_initial_settings = None, cap_headers = None, cap_trailers = [],
     cap_stream_id = None, cap_expectation_failed = False\<rparr>"

text \<open>An attribute access on a payload of another class.\<close>

definition attribute_error :: exn where
  "attribute_error = RuntimeError ''AttributeError''"

end
