(* ===== verification/Http2_Frames_Laws.thy ===== *)
theory Http2_Frames_Laws
  imports Http2_Frames
begin

text \<open>
  Laws of the HTTP/2 frame reader and builder. Every payload parser is built from bounded reads
  inside the window of its frame, so one predicate, \<open>well_behaved\<close>, is proved for each of them by
  composition: the parser stays inside the window, touches only the position and the entry counter,
  keeps the entry budget, raises only the frame error, and does not depend on bytes behind the
  window.
\<close>

section \<open>The frame reader is a byte source\<close>

definition fr_rest :: "frame_reader \<Rightarrow> bytes" where
  "fr_rest r = take (fr_end r - fr_pos r) (drop (fr_pos r) (fr_data r))"

definition fr_adv :: "nat \<Rightarrow> frame_reader \<Rightarrow> frame_reader" where
  "fr_adv n r = r\<lparr>fr_pos := fr_pos r + n\<rparr>"

definition fr_ok :: "frame_reader \<Rightarrow> bool" where
  "fr_ok r \<longleftrightarrow> fr_pos r \<le> fr_end r \<and> fr_end r \<le> length (fr_data r)"

lemma fr_end_simps [simp]:
  "fr_end (r\<lparr>fr_pos := p\<rparr>) = fr_end r" "fr_end (r\<lparr>fr_entries_read := n\<rparr>) = fr_end r"
  "fr_end (r\<lparr>fr_payload_end := Some e\<rparr>) = e"
  "fr_payload_end r = Some e \<Longrightarrow> fr_end r = e"
  "fr_payload_end r = None \<Longrightarrow> fr_end r = length (fr_data r)"
  by (simp_all add: fr_end_def cong: option.case_cong)

lemma length_fr_rest: "fr_ok r \<Longrightarrow> length (fr_rest r) = fr_end r - fr_pos r"
  by (auto simp: fr_rest_def fr_ok_def)

lemma fr_end_adv [simp]: "fr_end (fr_adv n r) = fr_end r"
  by (simp add: fr_adv_def)

interpretation fr: byte_source fr_read fr_rest fr_adv fr_ok
proof unfold_locales
  fix s n
  assume ok: "fr_ok s" and n: "n \<le> length (fr_rest s)"
  then have le: "n \<le> fr_end s - fr_pos s" by (simp add: length_fr_rest)
  then have le': "fr_pos s + n \<le> fr_end s" using ok by (auto simp: fr_ok_def)
  show "fr_read (int n) s = (Inr (take n (fr_rest s)), fr_adv n s)"
    using le le' by (auto simp: fr_read_def fr_adv_def fr_rest_def slice_def min_def)
  show "fr_rest (fr_adv n s) = drop n (fr_rest s)"
    using le by (simp add: fr_rest_def fr_adv_def drop_take add.commute)
  show "fr_ok (fr_adv n s)"
    using ok le' by (auto simp: fr_ok_def fr_adv_def)
next
  fix s n
  assume "fr_ok s" and "length (fr_rest s) < n"
  then show "\<exists>e. fr_read (int n) s = (Inl e, s)"
    by (auto simp: length_fr_rest fr_read_def raise_def fr_ok_def)
qed

lemma fr_read_uint24_be: "fr_read_uint24 = read_be fr_read 3"
  by (simp add: fr_read_uint24_def read_be_def be_nat_zero_cons)

lemmas fr_read_uints = fr_read_uint8_def fr_read_uint16_def fr_read_uint24_be fr_read_uint32_def

section \<open>Well-behaved parsers\<close>

definition same_cfg :: "frame_reader \<Rightarrow> frame_reader \<Rightarrow> bool" where
  "same_cfg r r' \<longleftrightarrow> fr_data r' = fr_data r \<and> fr_max_frame_size r' = fr_max_frame_size r \<and>
     fr_strict_padding r' = fr_strict_padding r \<and> fr_forensic r' = fr_forensic r \<and>
     fr_payload_end r' = fr_payload_end r \<and> fr_max_entries r' = fr_max_entries r"

definition in_budget :: "frame_reader \<Rightarrow> bool" where
  "in_budget r \<longleftrightarrow> (\<forall>m. fr_max_entries r = Some m \<longrightarrow> int (fr_entries_read r) \<le> m)"

text \<open>The only exception is the frame error, and the entry limit needs a configured limit.\<close>

fun frame_fault :: "frame_reader \<Rightarrow> exn \<Rightarrow> bool" where
  "frame_fault r (FrameParsingError _ c) \<longleftrightarrow> (c = ENHANCE_YOUR_CALM \<longrightarrow> fr_max_entries r \<noteq> None)"
| "frame_fault r _ \<longleftrightarrow> False"

definition well_behaved :: "(frame_reader, 'a) meth \<Rightarrow> bool" where
  "well_behaved m \<longleftrightarrow> (\<forall>r e x r'. fr_payload_end r = Some e \<and> fr_ok r \<and> m r = (x, r') \<longrightarrow>
     same_cfg r r' \<and> fr_ok r' \<and> fr_pos r \<le> fr_pos r' \<and> fr_entries_read r \<le> fr_entries_read r' \<and>
     (in_budget r \<longrightarrow> in_budget r') \<and> (\<forall>ex. x = Inl ex \<longrightarrow> frame_fault r ex) \<and>
     (\<forall>d. take e d = take e (fr_data r) \<and> e \<le> length d \<longrightarrow>
        m (r\<lparr>fr_data := d\<rparr>) = (x, r'\<lparr>fr_data := d\<rparr>)))"

named_theorems wb_intros \<open>composition rules for \<open>well_behaved\<close>\<close>

lemma same_cfg_trans: "same_cfg a b \<Longrightarrow> same_cfg b c \<Longrightarrow> same_cfg a c"
  by (simp add: same_cfg_def)

lemma wbD:
  assumes "well_behaved m" and "fr_payload_end r = Some e" and "fr_ok r" and "m r = (x, r')"
  shows "same_cfg r r'" "fr_ok r'" "fr_pos r \<le> fr_pos r'" "fr_entries_read r \<le> fr_entries_read r'"
    "in_budget r \<Longrightarrow> in_budget r'" "x = Inl ex \<Longrightarrow> frame_fault r ex"
    "take e d = take e (fr_data r) \<Longrightarrow> e \<le> length d \<Longrightarrow> m (r\<lparr>fr_data := d\<rparr>) = (x, r'\<lparr>fr_data := d\<rparr>)"
  using assms unfolding well_behaved_def by blast+

lemma wb_ret [wb_intros]: "well_behaved (ret x)"
  by (auto simp: well_behaved_def same_cfg_def)

lemma wb_raise: "c \<noteq> ENHANCE_YOUR_CALM \<Longrightarrow> well_behaved (raise (FrameParsingError m c))"
  by (auto simp: well_behaved_def same_cfg_def)

lemma wb_proto [wb_intros]: "well_behaved (protoM m)" "well_behaved (sizeM m)"
  by (simp_all add: protoM_def sizeM_def wb_raise)

lemma wb_raise_codes [wb_intros]:
  "well_behaved (raise (FrameParsingError m PROTOCOL_ERROR))"
  "well_behaved (raise (FrameParsingError m FLOW_CONTROL_ERROR))"
  "well_behaved (raise (FrameParsingError m FRAME_SIZE_ERROR))"
  by (simp_all add: wb_raise)

lemma wb_if [wb_intros]:
  "(c \<Longrightarrow> well_behaved a) \<Longrightarrow> (\<not> c \<Longrightarrow> well_behaved b) \<Longrightarrow> well_behaved (if c then a else b)"
  by simp

lemma wb_let [wb_intros]: "well_behaved (f x) \<Longrightarrow> well_behaved (let y = x in f y)"
  by simp

lemma wb_state:
  assumes "\<And>r d. f (r\<lparr>fr_data := d\<rparr>) = f r" and "\<And>r. well_behaved (f r)"
  shows "well_behaved (\<lambda>r. f r r)"
  unfolding well_behaved_def
proof (intro allI impI)
  fix r e x r'
  assume a: "fr_payload_end r = Some e \<and> fr_ok r \<and> f r r = (x, r')"
  then have e: "fr_payload_end r = Some e" and ok: "fr_ok r" and m: "f r r = (x, r')" by auto
  from wbD [OF assms(2) [of r] e ok m]
  show "same_cfg r r' \<and> fr_ok r' \<and> fr_pos r \<le> fr_pos r' \<and> fr_entries_read r \<le> fr_entries_read r' \<and>
     (in_budget r \<longrightarrow> in_budget r') \<and> (\<forall>ex. x = Inl ex \<longrightarrow> frame_fault r ex) \<and>
     (\<forall>d. take e d = take e (fr_data r) \<and> e \<le> length d \<longrightarrow>
        f (r\<lparr>fr_data := d\<rparr>) (r\<lparr>fr_data := d\<rparr>) = (x, r'\<lparr>fr_data := d\<rparr>))"
    unfolding assms(1) by blast
qed

lemma wb_state_if:
  assumes "\<And>r d. P (r\<lparr>fr_data := d\<rparr>) = P r" and "well_behaved a" and "well_behaved b"
  shows "well_behaved (\<lambda>r. if P r then a r else b r)"
  using wb_state [of "\<lambda>r. if P r then a else b"] assms by (simp add: if_distribR)

lemma wb_bind [wb_intros]:
  assumes m: "well_behaved m" and f: "\<And>x. well_behaved (f x)"
  shows "well_behaved (bindM m f)"
  unfolding well_behaved_def
proof (intro allI impI)
  fix r e y r2
  assume a: "fr_payload_end r = Some e \<and> fr_ok r \<and> bindM m f r = (y, r2)"
  then have e: "fr_payload_end r = Some e" and ok: "fr_ok r" and b: "bindM m f r = (y, r2)" by auto
  obtain x r1 where m1: "m r = (x, r1)" by (cases "m r")
  note M = wbD [OF m e ok m1]
  show "same_cfg r r2 \<and> fr_ok r2 \<and> fr_pos r \<le> fr_pos r2 \<and> fr_entries_read r \<le> fr_entries_read r2 \<and>
     (in_budget r \<longrightarrow> in_budget r2) \<and> (\<forall>ex. y = Inl ex \<longrightarrow> frame_fault r ex) \<and>
     (\<forall>d. take e d = take e (fr_data r) \<and> e \<le> length d \<longrightarrow>
        bindM m f (r\<lparr>fr_data := d\<rparr>) = (y, r2\<lparr>fr_data := d\<rparr>))"
  proof (cases x)
    case (Inl ex)
    then have "y = Inl ex" "r2 = r1" using b m1 by (auto simp: bindM_def)
    with M Inl show ?thesis by (auto simp: bindM_def)
  next
    case (Inr v)
    then have f1: "f v r1 = (y, r2)" using b m1 by (auto simp: bindM_def)
    have e1: "fr_payload_end r1 = Some e" using M(1) e by (simp add: same_cfg_def)
    note F = wbD [OF f e1 M(2) f1]
    have d1: "fr_data r1 = fr_data r" using M(1) by (simp add: same_cfg_def)
    have ff: "frame_fault r1 ex = frame_fault r ex" for ex
      using M(1) by (cases ex) (auto simp: same_cfg_def)
    have "bindM m f (r\<lparr>fr_data := d\<rparr>) = (y, r2\<lparr>fr_data := d\<rparr>)"
      if "take e d = take e (fr_data r)" "e \<le> length d" for d
      using M(7) [OF that] F(7) [of d] that d1 Inr by (simp add: bindM_def)
    with same_cfg_trans [OF M(1) F(1)] M F ff show ?thesis by auto
  qed
qed

lemma slice_take_cong: "take e d = take e d' \<Longrightarrow> b \<le> e \<Longrightarrow> slice d a b = slice d' a b"
  unfolding slice_def by (metis drop_take take_take min.absorb1)

lemma wb_read [wb_intros]: "well_behaved (fr_read n)"
  unfolding well_behaved_def
proof (intro allI impI)
  fix r e x r'
  assume a: "fr_payload_end r = Some e \<and> fr_ok r \<and> fr_read n r = (x, r')"
  then have e: "fr_end r = e" and ok: "fr_pos r \<le> e" "e \<le> length (fr_data r)"
    and f: "fr_read n r = (x, r')" by (auto simp: fr_ok_def)
  have e': "fr_end (r\<lparr>fr_data := d\<rparr>) = e" for d using a by (simp add: fr_end_def)
  show "same_cfg r r' \<and> fr_ok r' \<and> fr_pos r \<le> fr_pos r' \<and> fr_entries_read r \<le> fr_entries_read r' \<and>
     (in_budget r \<longrightarrow> in_budget r') \<and> (\<forall>ex. x = Inl ex \<longrightarrow> frame_fault r ex) \<and>
     (\<forall>d. take e d = take e (fr_data r) \<and> e \<le> length d \<longrightarrow>
        fr_read n (r\<lparr>fr_data := d\<rparr>) = (x, r'\<lparr>fr_data := d\<rparr>))"
  proof (cases "n < 0 \<or> int (fr_pos r) + n > int e")
    case True
    then have x: "r' = r" "x = fst (fr_read n r)" "\<exists>m. x = Inl (FrameParsingError m FRAME_SIZE_ERROR)"
      using f e by (auto simp: fr_read_def raise_def)
    have "fr_read n (r\<lparr>fr_data := d\<rparr>) = (x, r\<lparr>fr_data := d\<rparr>)" for d
      using True x(2) e e' by (simp add: fr_read_def raise_def)
    with x a show ?thesis by (auto simp: same_cfg_def)
  next
    case False
    then have x: "x = Inr (slice (fr_data r) (fr_pos r) (fr_pos r + nat n))"
        "r' = r\<lparr>fr_pos := fr_pos r + nat n\<rparr>" using f e by (auto simp: fr_read_def)
    have "fr_read n (r\<lparr>fr_data := d\<rparr>) = (x, r'\<lparr>fr_data := d\<rparr>)" if "take e d = take e (fr_data r)" for d
    proof -
      have "fr_pos r + nat n \<le> e" using False by linarith
      from slice_take_cong [OF that this] False x e' show ?thesis by (simp add: fr_read_def)
    qed
    with x a False show ?thesis by (auto simp: same_cfg_def fr_ok_def in_budget_def)
  qed
qed

lemma wb_reserve [wb_intros]: "well_behaved (reserve_entries n)"
  unfolding well_behaved_def
  by (auto simp: reserve_entries_def raise_def same_cfg_def fr_ok_def in_budget_def
      split: if_splits option.splits)

lemma wb_read_be [wb_intros]: "well_behaved (read_be fr_read k)"
  unfolding read_be_def by (intro wb_intros)

lemma wb_uints [wb_intros]:
  "well_behaved fr_read_uint8" "well_behaved fr_read_uint16" "well_behaved fr_read_uint24"
  "well_behaved fr_read_uint32" "well_behaved fr_read_uint32_with_reserved" "well_behaved read_priority"
  unfolding fr_read_uint32_with_reserved_def read_priority_def fr_read_uints
  by (intro wb_intros)+

lemma wb_skip_padding [wb_intros]: "well_behaved (skip_padding n)"
  unfolding skip_padding_def
  by (intro wb_intros wb_state_if) simp

lemma wb_padding_length [wb_intros]: "well_behaved (read_padding_length h)"
  unfolding read_padding_length_def by (intro wb_intros)

lemma wb_check_setting [wb_intros]: "well_behaved (check_setting i v)"
  unfolding check_setting_def by (intro wb_intros)

lemma wb_read_settings [wb_intros]: "well_behaved (read_settings n)"
  by (induction n) (auto intro!: wb_intros)

lemma wb_read_origins [wb_intros]: "well_behaved (read_origins len n)"
proof (induction "len - n" arbitrary: n rule: less_induct)
  case less
  show ?case
  proof (cases "n < len \<and> \<not> n + 2 > len")
    case True
    have "read_origins len n = bindM fr_read_uint16 (\<lambda>k.
        if n + 2 + k > len then protoM ''Invalid origin length in ORIGIN frame''
        else bindM (reserve_entries 1) (\<lambda>_. bindM (fr_read (int k)) (\<lambda>origin.
             bindM (read_origins len (n + 2 + k)) (\<lambda>origins. ret (origin # origins)))))"
      using True by (intro ext, subst read_origins.simps) (auto simp: bindM_def split: sum.split prod.split)
    then show ?thesis using True by (auto intro!: wb_intros less)
  next
    case False
    then have "read_origins len n = (if n < len then protoM ''Invalid ORIGIN frame format'' else ret [])"
      by (intro ext, subst read_origins.simps) auto
    then show ?thesis by (auto intro: wb_intros)
  qed
qed

lemma wb_payload_parsers [wb_intros]:
  "well_behaved (parse_data h)" "well_behaved (parse_headers h)" "well_behaved (parse_priority h)"
  "well_behaved (parse_rst_stream h)" "well_behaved (parse_settings h)" "well_behaved (parse_push_promise h)"
  "well_behaved (parse_ping h)" "well_behaved (parse_goaway h)" "well_behaved (parse_window_update h)"
  "well_behaved (parse_continuation h)" "well_behaved (parse_altsvc h)" "well_behaved (parse_origin h)"
  "well_behaved (parse_priority_update h)"
  unfolding parse_data_def parse_headers_def parse_priority_def parse_rst_stream_def parse_settings_def
    parse_push_promise_def parse_ping_def parse_goaway_def parse_window_update_def
    parse_continuation_def parse_altsvc_def parse_origin_def parse_priority_update_def
  by (intro wb_intros)+

lemma wb_parse_payload_by_type [wb_intros]: "well_behaved (parse_payload_by_type h)"
  unfolding parse_payload_by_type_def by (intro wb_intros)

lemma wb_parse_window [wb_intros]: "well_behaved (parse_window h p)"
proof -
  have "well_behaved (\<lambda>r. let bytes_read = int (fr_pos r) - int p in
       if bytes_read \<noteq> int (fh_length h)
       then raise (FrameParsingError
         (''Payload: expected '' @ str_nat (fh_length h) @ '' bytes, read '' @ str_int bytes_read)
         FRAME_SIZE_ERROR) r
       else ret x r)" for x :: payload
    using wb_state [where f = "\<lambda>r. if int (fr_pos r) - int p \<noteq> int (fh_length h)
        then raise (FrameParsingError (''Payload: expected '' @ str_nat (fh_length h) @ '' bytes, read '' @
          str_int (int (fr_pos r) - int p)) FRAME_SIZE_ERROR) else ret x"]
    by (simp add: Let_def if_distribR wb_if wb_raise wb_ret del: raise_def ret_def)
  then show ?thesis unfolding parse_window_def by (intro wb_intros)
qed

lemma parse_window_consumes:
  "parse_window h p r = (Inr x, r') \<Longrightarrow> int (fr_pos r') = int p + int (fh_length h)"
  by (auto simp: parse_window_def bindM_eq_Inr Let_def split: if_splits)

section \<open>The payload step\<close>

text \<open>What a successful or failed payload step leaves behind.\<close>

lemma parse_frame_payload_cases:
  assumes none: "fr_payload_end r = None" and fits: "fr_pos r + fh_length h \<le> length (fr_data r)"
    and res: "parse_frame_payload start h r = (x, r')"
  shows "same_cfg r r' \<and> fr_entries_read r \<le> fr_entries_read r' \<and> (in_budget r \<longrightarrow> in_budget r') \<and>
    (\<forall>f. x = Inr f \<longrightarrow> pf_header f = h \<and>
       pf_raw f = slice (fr_data r) start (fr_pos r + fh_length h) \<and> fr_pos r' = fr_pos r + fh_length h) \<and>
    (\<forall>e. x = Inl e \<longrightarrow> frame_fault r e \<and>
       (fr_forensic r \<or> fh_type h \<in> {FT_ALTSVC, FT_ORIGIN} \<longrightarrow> (\<exists>m. e = FrameParsingError m ENHANCE_YOUR_CALM)))"
proof -
  define r0 where "r0 = r\<lparr>fr_payload_end := Some (fr_pos r + fh_length h)\<rparr>"
  obtain y r1 where w: "parse_window h (fr_pos r) r0 = (y, r1)" by (cases "parse_window h (fr_pos r) r0")
  have ok: "fr_ok r0" "fr_payload_end r0 = Some (fr_pos r + fh_length h)"
    using fits by (simp_all add: r0_def fr_ok_def)
  note W = wbD [OF wb_parse_window ok(2,1) w]
  have cfg: "same_cfg r (r1\<lparr>fr_payload_end := None\<rparr>)" "fr_forensic r1 = fr_forensic r"
    using W(1) none by (auto simp: same_cfg_def r0_def)
  have bud: "in_budget r \<Longrightarrow> in_budget r1" "fr_entries_read r \<le> fr_entries_read r1"
    using W(4,5) by (auto simp: r0_def in_budget_def)
  show ?thesis
  proof (cases y)
    case (Inr p)
    with parse_window_consumes w have "fr_pos r1 = fr_pos r + fh_length h" by fastforce
    with res w Inr cfg bud show ?thesis
      by (auto simp: parse_frame_payload_def r0_def Let_def same_cfg_def in_budget_def)
  next
    case (Inl e)
    with W(6) obtain m c where e: "e = FrameParsingError m c"
      and calm: "c = ENHANCE_YOUR_CALM \<longrightarrow> fr_max_entries r \<noteq> None" by (cases e) (auto simp: r0_def)
    have "parse_window h (fr_pos r) (r\<lparr>fr_payload_end := Some (fr_pos r + fh_length h)\<rparr>) =
        (Inl (FrameParsingError m c), r1)" using w Inl e by (simp add: r0_def)
    note pf = parse_frame_payload_def [of start h r, unfolded Let_def, unfolded this]
    have bud': "in_budget (r1\<lparr>fr_payload_end := None\<rparr>) = in_budget r1"
        "in_budget (r1\<lparr>fr_pos := p, fr_payload_end := None\<rparr>) = in_budget r1" for p
      by (simp_all add: in_budget_def)
    show ?thesis
    proof (cases "c = ENHANCE_YOUR_CALM \<or> \<not> fr_forensic r1 \<and> fh_type h \<notin> {FT_ALTSVC, FT_ORIGIN}")
      case True
      then have "x = Inl (FrameParsingError m c)" "r' = r1\<lparr>fr_payload_end := None\<rparr>"
        using res pf by auto
      with True calm cfg bud bud' show ?thesis by auto
    next
      case False
      then have "\<exists>u. x = Inr \<lparr>pf_header = h, pf_payload = u, pf_raw = slice (fr_data r) start (fr_pos r + fh_length h)\<rparr>"
        "r' = r1\<lparr>fr_pos := fr_pos r + fh_length h, fr_payload_end := None\<rparr>"
        using res pf by auto
      with cfg(1) bud bud' show ?thesis by (auto simp: same_cfg_def)
    qed
  qed
qed

section \<open>The frame header\<close>

definition enc_frame_header :: "nat \<Rightarrow> nat \<Rightarrow> nat \<Rightarrow> nat \<Rightarrow> bytes" where
  "enc_frame_header len ty fl sid = be_bytes 3 len @ be_bytes 1 ty @ be_bytes 1 fl @ be_bytes 4 sid"

lemma length_enc_frame_header [simp]: "length (enc_frame_header a b c d) = 9"
  by (simp add: enc_frame_header_def)

lemma stream_id_mask: "v AND MAX_STREAM_ID = v mod 2 ^ 31"
  using take_bit_eq_mask [of 31 v] by (simp add: MAX_STREAM_ID_def take_bit_eq_mod mask_eq_exp_minus_1)

lemma masked_stream_id [simp]: "v AND MAX_STREAM_ID < 2147483648"
  by (simp add: stream_id_mask)

definition finish_frame :: "nat \<Rightarrow> nat \<Rightarrow> nat \<Rightarrow> nat \<Rightarrow> nat \<Rightarrow> (frame_reader, parsed_frame) meth" where
  "finish_frame start len ty fl sid r =
     (if len > fr_max_frame_size r
      then sizeM (''Frame size '' @ str_nat len @ '' exceeds maximum '' @ str_nat (fr_max_frame_size r)) r
      else if int len > int (length (fr_data r)) - int (fr_pos r) then sizeM ''Incomplete frame payload'' r
      else parse_frame_payload start
             \<lparr>fh_length = len, fh_type = ty, fh_flags = fl, fh_stream_id = sid\<rparr> r)"

lemma parse_frame_header:
  assumes ok: "fr_ok r" and rest: "fr_rest r = enc_frame_header len ty fl sid @ ys"
    and none: "fr_payload_end r = None"
    and lt: "len < 16777216" "ty < 256" "fl < 256" "sid < 4294967296"
  shows "parse_frame r = finish_frame (fr_pos r) len ty fl (sid AND MAX_STREAM_ID) (fr_adv 9 r)"
proof -
  have adv: "fr_adv a (fr_adv b s) = fr_adv (a + b) s" for a b s by (simp add: fr_adv_def add.assoc add.commute)
  have l: "\<not> int (length (fr_data r)) - int (fr_pos r) < 9"
    using rest ok none length_fr_rest [OF ok] by (auto simp: fr_ok_def)
  have r0: "fr_rest r = be_bytes 3 len @ be_bytes 1 ty @ be_bytes 1 fl @ be_bytes 4 sid @ ys"
    using rest by (simp add: enc_frame_header_def)
  have 1: "fr_read_uint24 r = (Inr len, fr_adv 3 r)"
    "fr_rest (fr_adv 3 r) = be_bytes 1 ty @ be_bytes 1 fl @ be_bytes 4 sid @ ys" "fr_ok (fr_adv 3 r)"
    using fr.read_be_encoded [OF ok r0] lt by (simp_all add: fr_read_uints)
  have 2: "fr_read_uint8 (fr_adv 3 r) = (Inr ty, fr_adv 4 r)"
    "fr_rest (fr_adv 4 r) = be_bytes 1 fl @ be_bytes 4 sid @ ys" "fr_ok (fr_adv 4 r)"
    using fr.read_be_encoded [OF 1(3,2)] lt by (simp_all add: fr_read_uints adv)
  have 3: "fr_read_uint8 (fr_adv 4 r) = (Inr fl, fr_adv 5 r)"
    "fr_rest (fr_adv 5 r) = be_bytes 4 sid @ ys" "fr_ok (fr_adv 5 r)"
    using fr.read_be_encoded [OF 2(3,2)] lt by (simp_all add: fr_read_uints adv)
  have 4: "fr_read_uint32_with_reserved (fr_adv 5 r) = (Inr (sid AND MAX_STREAM_ID), fr_adv 9 r)"
    using fr.read_be_encoded [OF 3(3,2)] lt
    by (simp add: fr_read_uint32_with_reserved_def fr_read_uints adv bindM_def ret_def)
  show ?thesis
    using l 1(1) 2(1) 3(1) 4 by (simp add: parse_frame_def bindM_def finish_frame_def)
qed

text \<open>Nine bytes always form a frame header.\<close>

lemma be_nat_take_bound: "k \<le> length bs \<Longrightarrow> be_nat (take k bs) < 256 ^ k"
  using be_nat_bound [of "take k bs"] by simp

lemma split_be_bytes: "k \<le> length bs \<Longrightarrow> bs = be_bytes k (be_nat (take k bs)) @ drop k bs"
  using be_bytes_be_nat [of "take k bs"] by simp

lemma frame_header_exists:
  assumes "9 \<le> length bs"
  obtains len ty fl sid where "bs = enc_frame_header len ty fl sid @ drop 9 bs"
    "len < 16777216" "ty < 256" "fl < 256" "sid < 4294967296" "len = be_nat (take 3 bs)"
proof -
  define b1 where "b1 = drop 3 bs"
  define b2 where "b2 = drop 1 b1"
  define b3 where "b3 = drop 1 b2"
  have "bs = be_bytes 3 (be_nat (take 3 bs)) @ b1" using assms split_be_bytes [of 3 bs] by (simp add: b1_def)
  moreover have "b1 = be_bytes 1 (be_nat (take 1 b1)) @ b2"
    using assms split_be_bytes [of 1 b1] by (simp add: b1_def b2_def)
  moreover have "b2 = be_bytes 1 (be_nat (take 1 b2)) @ b3"
    using assms split_be_bytes [of 1 b2] by (simp add: b1_def b2_def b3_def)
  moreover have "b3 = be_bytes 4 (be_nat (take 4 b3)) @ drop 4 b3"
    using assms split_be_bytes [of 4 b3] by (simp add: b1_def b2_def b3_def)
  moreover have "drop 4 b3 = drop 9 bs" by (simp add: b1_def b2_def b3_def)
  ultimately have "bs = enc_frame_header (be_nat (take 3 bs)) (be_nat (take 1 b1)) (be_nat (take 1 b2))
      (be_nat (take 4 b3)) @ drop 9 bs"
    unfolding enc_frame_header_def by (metis append_assoc)
  moreover have "be_nat (take 3 bs) < 256 ^ 3" "be_nat (take 1 b1) < 256 ^ 1" "be_nat (take 1 b2) < 256 ^ 1"
      "be_nat (take 4 b3) < 256 ^ 4"
    by (rule be_nat_take_bound, use assms in \<open>simp add: b1_def b2_def b3_def\<close>)+
  ultimately show ?thesis using that by simp
qed

section \<open>Whole frames\<close>

lemma finish_frame_cases:
  assumes ok: "fr_ok r" and none: "fr_payload_end r = None"
    and res: "finish_frame start len ty fl sid r = (x, r')"
  shows "same_cfg r r' \<and> fr_entries_read r \<le> fr_entries_read r' \<and> (in_budget r \<longrightarrow> in_budget r') \<and>
    (\<forall>f. x = Inr f \<longrightarrow> len \<le> fr_max_frame_size r \<and> fr_pos r + len \<le> length (fr_data r) \<and>
       pf_header f = \<lparr>fh_length = len, fh_type = ty, fh_flags = fl, fh_stream_id = sid\<rparr> \<and>
       pf_raw f = slice (fr_data r) start (fr_pos r + len) \<and> fr_pos r' = fr_pos r + len) \<and>
    (\<forall>e. x = Inl e \<longrightarrow> frame_fault r e \<and>
       (len \<le> fr_max_frame_size r \<and> fr_pos r + len \<le> length (fr_data r) \<and>
        (fr_forensic r \<or> ty \<in> {FT_ALTSVC, FT_ORIGIN}) \<longrightarrow>
         (\<exists>m. e = FrameParsingError m ENHANCE_YOUR_CALM)))"
proof (cases "len \<le> fr_max_frame_size r \<and> fr_pos r + len \<le> length (fr_data r)")
  case True
  let ?h = "\<lparr>fh_length = len, fh_type = ty, fh_flags = fl, fh_stream_id = sid\<rparr>"
  have "finish_frame start len ty fl sid r = parse_frame_payload start ?h r"
    using True by (simp add: finish_frame_def)
  then have p: "parse_frame_payload start ?h r = (x, r')" using res by simp
  have "fr_pos r + fh_length ?h \<le> length (fr_data r)" using True by simp
  from parse_frame_payload_cases [OF none this p, unfolded frame_header.simps] True show ?thesis by blast
next
  case False
  have "\<exists>m. finish_frame start len ty fl sid r = (Inl (FrameParsingError m FRAME_SIZE_ERROR), r)"
    using False unfolding finish_frame_def sizeM_def raise_def by auto
  with res False show ?thesis by (auto simp: same_cfg_def)
qed

lemma parse_frame_cases:
  assumes ok: "fr_pos r \<le> length (fr_data r)" and none: "fr_payload_end r = None"
    and res: "parse_frame r = (x, r')"
  obtains (short) "length (fr_data r) < fr_pos r + 9" "r' = r"
      "x = Inl (FrameParsingError ''Incomplete frame header'' FRAME_SIZE_ERROR)"
  | (header) len ty fl sid where
      "drop (fr_pos r) (fr_data r) = enc_frame_header len ty fl sid @ drop (fr_pos r + 9) (fr_data r)"
      "len < 16777216" "ty < 256" "fl < 256" "sid < 4294967296"
      "len = be_nat (take 3 (drop (fr_pos r) (fr_data r)))"
      "fr_pos r + 9 \<le> length (fr_data r)"
      "finish_frame (fr_pos r) len ty fl (sid AND MAX_STREAM_ID) (fr_adv 9 r) = (x, r')"
proof (cases "length (fr_data r) < fr_pos r + 9")
  case True
  then have "parse_frame r = sizeM ''Incomplete frame header'' r"
    using ok by (simp add: parse_frame_def)
  with res have "r' = r" "x = Inl (FrameParsingError ''Incomplete frame header'' FRAME_SIZE_ERROR)"
    by (simp_all add: sizeM_def raise_def)
  with True show ?thesis by (intro short)
next
  case False
  let ?bs = "drop (fr_pos r) (fr_data r)"
  have rest: "fr_rest r = ?bs" "fr_ok r" using none ok by (simp_all add: fr_rest_def fr_ok_def)
  have d: "drop 9 ?bs = drop (fr_pos r + 9) (fr_data r)" by (simp add: add.commute)
  have "9 \<le> length ?bs" using False by simp
  then obtain len ty fl sid where h: "?bs = enc_frame_header len ty fl sid @ drop 9 ?bs"
    "len < 16777216" "ty < 256" "fl < 256" "sid < 4294967296" "len = be_nat (take 3 ?bs)"
    by (rule frame_header_exists)
  have "parse_frame r = finish_frame (fr_pos r) len ty fl (sid AND MAX_STREAM_ID) (fr_adv 9 r)"
    by (rule parse_frame_header [OF rest(2) trans [OF rest(1) h(1)] none h(2-5)])
  then have "finish_frame (fr_pos r) len ty fl (sid AND MAX_STREAM_ID) (fr_adv 9 r) = (x, r')"
    using res by (rule trans [OF sym])
  moreover have "fr_pos r + 9 \<le> length (fr_data r)" using False by (rule leI)
  ultimately show ?thesis by (intro header [OF h(1) [unfolded d] h(2-6)])
qed

lemma fr_adv_simps [simp]:
  "fr_data (fr_adv n r) = fr_data r" "fr_pos (fr_adv n r) = fr_pos r + n"
  "fr_payload_end (fr_adv n r) = fr_payload_end r" "fr_forensic (fr_adv n r) = fr_forensic r"
  "fr_max_frame_size (fr_adv n r) = fr_max_frame_size r" "fr_max_entries (fr_adv n r) = fr_max_entries r"
  "fr_entries_read (fr_adv n r) = fr_entries_read r" "same_cfg (fr_adv n r) r' = same_cfg r r'"
  "in_budget (fr_adv n r) = in_budget r" "fr_strict_padding (fr_adv n r) = fr_strict_padding r"
  by (auto simp: fr_adv_def same_cfg_def in_budget_def)

lemma frame_fault_adv [simp]: "frame_fault (fr_adv n r) e = frame_fault r e"
  by (cases e) auto

lemma fr_ok_adv9: "fr_payload_end r = None \<Longrightarrow> fr_pos r + 9 \<le> length (fr_data r) \<Longrightarrow> fr_ok (fr_adv 9 r)"
  by (simp add: fr_ok_def)

end
