(* ===== verification/Http2_Frames_Correct.thy ===== *)
theory Http2_Frames_Correct
  imports Http2_Frames_Laws
begin

text \<open>
  What the HTTP/2 frame reader and builder promise: an accepted frame is exactly the bytes of the
  stream it was cut from, later bytes do not matter, forensic capture never rejects a complete
  frame, the entry budget holds on every path, built frames read back, and accepted SETTINGS and
  padded DATA payloads satisfy RFC 9113.
\<close>

section \<open>Sample frames\<close>

text \<open>A padded DATA frame on stream 1 with one byte of the next frame behind it, a malformed PING, and
  a SETTINGS frame with one parameter.\<close>

definition sample_reader :: frame_reader where
  "sample_reader = HTTP2FrameReader [0, 0, 4, 0, 9, 0, 0, 0, 1, 1, 65, 66, 0, 7] 16384 True False (Some 5)"

definition sample_frame :: parsed_frame where
  "sample_frame = \<lparr>pf_header = \<lparr>fh_length = 4, fh_type = 0, fh_flags = 9, fh_stream_id = 1\<rparr>,
     pf_payload = DataPayload [65, 66] True True, pf_raw = [0, 0, 4, 0, 9, 0, 0, 0, 1, 1, 65, 66, 0]\<rparr>"

definition sample_ping :: frame_reader where
  "sample_ping = HTTP2FrameReader [0, 0, 1, 6, 0, 0, 0, 0, 1, 5] 16384 True True None"

definition sample_settings :: frame_reader where
  "sample_settings = HTTP2FrameReader [0, 0, 6, 4, 0, 0, 0, 0, 0, 0, 3, 0, 0, 0, 100] 16384 True False None"

lemmas frame_eval = parse_frame_def bindM_def ret_def raise_def HTTP2FrameReader_def fr_read_uint24_def
  fr_read_uint8_def fr_read_uint16_def fr_read_uint32_with_reserved_def fr_read_uint32_def read_be_def
  fr_read_def fr_end_def slice_def be_nat_def parse_frame_payload_def parse_window_def
  parse_payload_by_type_def parse_data_def read_padding_length_def has_flag_def skip_padding_def
  MAX_STREAM_ID_def Let_def

lemma be_bytes_literals:
  "be_bytes 1 v = [of_nat v]" "be_bytes 2 v = [of_nat (v div 256), of_nat v]"
  "be_bytes 4 v = [of_nat (v div 16777216), of_nat (v div 65536), of_nat (v div 256), of_nat v]"
proof -
  have 2: "be_bytes 2 v = [of_nat (v div 256), of_nat v]" for v
    by (simp add: numeral_2_eq_2)
  then show "be_bytes 2 v = [of_nat (v div 256), of_nat v]" .
  show "be_bytes 4 v = [of_nat (v div 16777216), of_nat (v div 65536), of_nat (v div 256), of_nat v]"
    using be_bytes.simps(2) [of 3 v] be_bytes.simps(2) [of 2 "v div 256"] 2 [of "v div 256 div 256"]
    by (simp add: div_mult2_eq [symmetric])
qed simp

lemma sample_read: "parse_frame sample_reader = (Inr sample_frame, sample_reader\<lparr>fr_pos := 13\<rparr>)"
  by (simp add: sample_reader_def sample_frame_def frame_eval)

lemma sample_settings_read:
  "parse_frame sample_settings = (Inr \<lparr>pf_header = \<lparr>fh_length = 6, fh_type = 4, fh_flags = 0, fh_stream_id = 0\<rparr>,
     pf_payload = SettingsPayload False (Some [(3, 100)]) [(3, 100)],
     pf_raw = [0, 0, 6, 4, 0, 0, 0, 0, 0, 0, 3, 0, 0, 0, 100]\<rparr>,
     sample_settings\<lparr>fr_pos := 15, fr_entries_read := 1\<rparr>)"
  by (simp add: sample_settings_def frame_eval parse_settings_def reserve_entries_def check_setting_def
      dict_of_def)

section \<open>Reading one frame\<close>

lemma frame_reader_comm:
  "r\<lparr>fr_payload_end := e, fr_data := d\<rparr> = r\<lparr>fr_data := d, fr_payload_end := e\<rparr>"
  "r\<lparr>fr_pos := p, fr_data := d\<rparr> = r\<lparr>fr_data := d, fr_pos := p\<rparr>"
  by simp_all

lemma parse_frame_payload_local:
  assumes none: "fr_payload_end r = None" and fits: "fr_pos r + fh_length h \<le> length (fr_data r)"
    and start: "start \<le> fr_pos r" and res: "parse_frame_payload start h r = (x, r')"
    and d: "take (fr_pos r + fh_length h) d = take (fr_pos r + fh_length h) (fr_data r)"
      "fr_pos r + fh_length h \<le> length d"
  shows "parse_frame_payload start h (r\<lparr>fr_data := d\<rparr>) = (x, r'\<lparr>fr_data := d\<rparr>)"
proof -
  let ?e = "fr_pos r + fh_length h"
  define r0 where "r0 = r\<lparr>fr_payload_end := Some ?e\<rparr>"
  obtain y r1 where w: "parse_window h (fr_pos r) r0 = (y, r1)" by (cases "parse_window h (fr_pos r) r0")
  have ok: "fr_ok r0" "fr_payload_end r0 = Some ?e" "fr_data r0 = fr_data r"
    using fits by (simp_all add: r0_def fr_ok_def)
  have "parse_window h (fr_pos r) (r0\<lparr>fr_data := d\<rparr>) = (y, r1\<lparr>fr_data := d\<rparr>)"
    using wbD(7) [OF wb_parse_window ok(2,1) w] d ok(3) by simp
  then have w': "parse_window h (fr_pos r) (r\<lparr>fr_data := d, fr_payload_end := Some ?e\<rparr>) =
      (y, r1\<lparr>fr_data := d\<rparr>)" by (simp add: r0_def frame_reader_comm)
  have sl: "slice d a ?e = slice (fr_data r) a ?e" for a
    by (rule slice_take_cong [OF d(1)]) simp
  show ?thesis
    using res w w' sl unfolding parse_frame_payload_def Let_def r0_def
    by (cases y) (auto simp: frame_reader_comm split: exn.splits if_splits)
qed

lemma finish_frame_local:
  assumes none: "fr_payload_end r = None" and start: "start \<le> fr_pos r"
    and res: "finish_frame start len ty fl sid r = (Inr f, r')"
    and d: "take (fr_pos r + len) d = take (fr_pos r + len) (fr_data r)" "fr_pos r + len \<le> length d"
  shows "finish_frame start len ty fl sid (r\<lparr>fr_data := d\<rparr>) = (Inr f, r'\<lparr>fr_data := d\<rparr>)"
proof -
  let ?h = "\<lparr>fh_length = len, fh_type = ty, fh_flags = fl, fh_stream_id = sid\<rparr>"
  have le: "\<not> len > fr_max_frame_size r" "\<not> int len > int (length (fr_data r)) - int (fr_pos r)"
    using res by (auto simp: finish_frame_def sizeM_def split: if_splits)
  then have p: "parse_frame_payload start ?h r = (Inr f, r')"
    using res by (simp add: finish_frame_def)
  have "parse_frame_payload start ?h (r\<lparr>fr_data := d\<rparr>) = (Inr f, r'\<lparr>fr_data := d\<rparr>)"
    by (rule parse_frame_payload_local [OF none _ start p]) (use le d in simp_all)
  then show ?thesis using le d(2) by (simp add: finish_frame_def)
qed

text \<open>C20. Exact capture: when the reader accepts a frame, the recorded raw bytes are the bytes of
  the stream between the old and the new position, the position moved by nine plus the length of
  the payload, the first nine raw bytes are the encoding of the reported header (the stream
  identifier without its reserved bit), the payload respects the size limit, and the configuration
  of the reader is unchanged.\<close>

theorem frame_capture:
  assumes "fr_pos r \<le> length (fr_data r)" and "fr_payload_end r = None"
    and "parse_frame r = (Inr f, r')"
  shows "fr_pos r' = fr_pos r + FRAME_HEADER_SIZE + fh_length (pf_header f) \<and>
    fr_pos r' \<le> length (fr_data r) \<and> pf_raw f = slice (fr_data r) (fr_pos r) (fr_pos r') \<and>
    (\<exists>sid < 2 ^ 32. fh_stream_id (pf_header f) = sid mod 2 ^ 31 \<and>
       take 9 (pf_raw f) = enc_frame_header (fh_length (pf_header f)) (fh_type (pf_header f))
         (fh_flags (pf_header f)) sid) \<and>
    fh_length (pf_header f) \<le> fr_max_frame_size r \<and> same_cfg r r'"
  using assms(1-3)
proof (cases rule: parse_frame_cases)
  case short
  then show ?thesis by simp
next
  case (header len ty fl sid)
  note F = finish_frame_cases [OF fr_ok_adv9 [OF assms(2) header(7)] _ header(8), simplified]
  have f: "len \<le> fr_max_frame_size r" "fr_pos r + 9 + len \<le> length (fr_data r)"
    "pf_header f = \<lparr>fh_length = len, fh_type = ty, fh_flags = fl, fh_stream_id = sid AND MAX_STREAM_ID\<rparr>"
    "pf_raw f = slice (fr_data r) (fr_pos r) (fr_pos r + 9 + len)" "fr_pos r' = fr_pos r + 9 + len"
    "same_cfg r r'"
    using F assms(2) by auto
  have "take 9 (pf_raw f) = take 9 (drop (fr_pos r) (fr_data r))"
    using f(2,4) by (simp add: slice_def)
  also have "\<dots> = enc_frame_header len ty fl sid"
    by (subst header(1)) simp
  finally show ?thesis using f header(5) by (auto simp: stream_id_mask)
qed

theorem frame_capture_witness:
  "parse_frame sample_reader = (Inr sample_frame, sample_reader\<lparr>fr_pos := 13\<rparr>) \<and>
   pf_raw sample_frame = slice (fr_data sample_reader) 0 13 \<and> same_cfg sample_reader (sample_reader\<lparr>fr_pos := 13\<rparr>)"
  using frame_capture [OF _ _ sample_read] sample_read by (simp add: sample_reader_def HTTP2FrameReader_def)

text \<open>Locality: what an accepted frame says does not depend on any byte behind the frame.\<close>

theorem frame_local:
  assumes ok: "fr_pos r \<le> length (fr_data r)" and none: "fr_payload_end r = None"
    and res: "parse_frame r = (Inr f, r')"
    and d: "take (fr_pos r') d = take (fr_pos r') (fr_data r)" "fr_pos r' \<le> length d"
  shows "parse_frame (r\<lparr>fr_data := d\<rparr>) = (Inr f, r'\<lparr>fr_data := d\<rparr>)"
  using ok none res
proof (cases rule: parse_frame_cases)
  case short
  then show ?thesis by simp
next
  case (header len ty fl sid)
  have p: "fr_pos r' = fr_pos r + 9 + len"
    using finish_frame_cases [OF fr_ok_adv9 [OF none header(7)] _ header(8)] none by auto
  have fin: "finish_frame (fr_pos r) len ty fl (sid AND MAX_STREAM_ID) (fr_adv 9 r\<lparr>fr_data := d\<rparr>) =
      (Inr f, r'\<lparr>fr_data := d\<rparr>)"
    by (rule finish_frame_local [OF _ _ header(8)]) (use none d p in simp_all)
  have "take 9 (drop (fr_pos r) d) = take 9 (drop (fr_pos r) (fr_data r))"
    using arg_cong [OF d(1), of "\<lambda>l. take 9 (drop (fr_pos r) l)"] p by (simp add: drop_take)
  also have "\<dots> = enc_frame_header len ty fl sid" by (subst header(1)) simp
  finally have "drop (fr_pos r) d = enc_frame_header len ty fl sid @ drop 9 (drop (fr_pos r) d)"
    by (metis append_take_drop_id)
  moreover have "fr_ok (r\<lparr>fr_data := d\<rparr>)" "fr_payload_end (r\<lparr>fr_data := d\<rparr>) = None"
    "fr_rest (r\<lparr>fr_data := d\<rparr>) = drop (fr_pos r) d"
    using none d p by (simp_all add: fr_ok_def fr_rest_def)
  ultimately have "parse_frame (r\<lparr>fr_data := d\<rparr>) =
      finish_frame (fr_pos r) len ty fl (sid AND MAX_STREAM_ID) (fr_adv 9 (r\<lparr>fr_data := d\<rparr>))"
    using parse_frame_header [of "r\<lparr>fr_data := d\<rparr>" len ty fl sid] header(2-5) by auto
  with fin show ?thesis by (simp add: fr_adv_def frame_reader_comm)
qed

theorem frame_local_witness:
  "parse_frame (sample_reader\<lparr>fr_data := [0, 0, 4, 0, 9, 0, 0, 0, 1, 1, 65, 66, 0, 99, 98]\<rparr>) =
     (Inr sample_frame, sample_reader\<lparr>fr_pos := 13, fr_data := [0, 0, 4, 0, 9, 0, 0, 0, 1, 1, 65, 66, 0, 99, 98]\<rparr>)"
  by (rule frame_local [OF _ _ sample_read]) (simp_all add: sample_reader_def HTTP2FrameReader_def)

text \<open>C21. Forensic capture is total: a forensic reader without an entry limit accepts every
  complete frame within the size limit, whatever its type and payload.\<close>

theorem forensic_total:
  assumes "fr_forensic r" and "fr_payload_end r = None" and "fr_max_entries r = None"
    and "bs = drop (fr_pos r) (fr_data r)" and "9 \<le> length bs"
    and "be_nat (take 3 bs) \<le> fr_max_frame_size r" and "9 + be_nat (take 3 bs) \<le> length bs"
  shows "\<exists>f r'. parse_frame r = (Inr f, r')"
proof -
  obtain x r' where res: "parse_frame r = (x, r')" by (cases "parse_frame r")
  have "fr_pos r \<le> length (fr_data r)" using assms(4,5) by simp
  then show ?thesis using assms(2) res
  proof (cases rule: parse_frame_cases)
    case short
    then show ?thesis using assms(4,5) by simp
  next
    case (header len ty fl sid)
    have len: "len \<le> fr_max_frame_size r" "fr_pos r + 9 + len \<le> length (fr_data r)"
      using header(6) assms(4,6,7) by auto
    note F = finish_frame_cases [OF fr_ok_adv9 [OF assms(2) header(7)] _ header(8)]
    have "x \<noteq> Inl e" for e
    proof
      assume "x = Inl e"
      with F assms(1,2) len have "frame_fault r e" "\<exists>m. e = FrameParsingError m ENHANCE_YOUR_CALM"
        by auto
      with assms(3) show False by auto
    qed
    with res show ?thesis by (cases x) auto
  qed
qed

theorem forensic_total_witness: "\<exists>f r'. parse_frame sample_ping = (Inr f, r')"
  by (rule forensic_total [OF _ _ _ refl])
    (simp_all add: sample_ping_def HTTP2FrameReader_def be_nat_def)

text \<open>C22. The entry budget and the errors: on every path, failures included, the reader keeps its
  configuration and the payload window is closed again, the number of decoded entries only grows
  and stays within the configured limit, and the only exception is the frame error, whose code is
  \<open>ENHANCE_YOUR_CALM\<close> only if a limit was configured.\<close>

theorem frame_budget:
  assumes "fr_pos r \<le> length (fr_data r)" and "fr_payload_end r = None" and "parse_frame r = (x, r')"
  shows "same_cfg r r' \<and> fr_payload_end r' = None \<and> fr_entries_read r \<le> fr_entries_read r' \<and>
    (in_budget r \<longrightarrow> in_budget r') \<and> (\<forall>e. x = Inl e \<longrightarrow> frame_fault r e)"
  using assms
proof (cases rule: parse_frame_cases)
  case short
  with assms(2) show ?thesis by (simp add: same_cfg_def)
next
  case (header len ty fl sid)
  from finish_frame_cases [OF fr_ok_adv9 [OF assms(2) header(7)] _ header(8)] assms(2)
  show ?thesis by (simp add: same_cfg_def)
qed

theorem frame_budget_witness:
  "parse_frame sample_reader = (Inr sample_frame, sample_reader\<lparr>fr_pos := 13\<rparr>) \<and>
   in_budget (sample_reader\<lparr>fr_pos := 13\<rparr>)"
  using frame_budget [OF _ _ sample_read] sample_read
  by (simp add: sample_reader_def HTTP2FrameReader_def in_budget_def)

section \<open>Building and reading back\<close>

text \<open>A reader without entry limit is a byte source as well.\<close>

definition fr_free :: "frame_reader \<Rightarrow> bool" where
  "fr_free r \<longleftrightarrow> fr_ok r \<and> fr_max_entries r = None"

interpretation frf: byte_source fr_read fr_rest fr_adv fr_free
  by unfold_locales
    (auto simp: fr_free_def fr.rd_enough fr.rd_short fr.rest_adv fr.ok_adv)

lemma frf_uints:
  "v < 65536 \<Longrightarrow> decodes fr_rest fr_free fr_read_uint16 v (be_bytes 2 v)"
  "v < 4294967296 \<Longrightarrow> decodes fr_rest fr_free fr_read_uint32 v (be_bytes 4 v)"
  using frf.decodes_be [of v 2] frf.decodes_be [of v 4] by (simp_all add: fr_read_uints)

lemma decodes_reserve: "decodes fr_rest fr_free (reserve_entries n) () []"
  by (auto simp: decodes_def reserve_entries_def fr_free_def fr_rest_def fr_ok_def)

lemma decodes_no_padding: "decodes fr_rest fr_free (skip_padding 0) () []"
  unfolding decodes_def skip_padding_def
  using frf.rd_enough [of _ 0] by (auto simp: bindM_def ret_def fr_adv_def)

lemma parse_frame_decodes:
  assumes ok: "fr_free r" and none: "fr_payload_end r = None"
    and rest: "fr_rest r = enc_frame_header (length pl) ty fl sid @ pl @ ys"
    and lt: "ty < 256" "fl < 256" "sid < 2147483648"
    and max: "length pl \<le> fr_max_frame_size r" "length pl < 16777216"
    and dec: "decodes fr_rest fr_free (parse_payload_by_type
        \<lparr>fh_length = length pl, fh_type = ty, fh_flags = fl, fh_stream_id = sid\<rparr>) p pl"
  shows "\<exists>r'. parse_frame r =
      (Inr \<lparr>pf_header = \<lparr>fh_length = length pl, fh_type = ty, fh_flags = fl, fh_stream_id = sid\<rparr>,
            pf_payload = p, pf_raw = enc_frame_header (length pl) ty fl sid @ pl\<rparr>, r') \<and> fr_rest r' = ys"
proof -
  let ?h = "\<lparr>fh_length = length pl, fh_type = ty, fh_flags = fl, fh_stream_id = sid\<rparr>"
  let ?e = "fr_pos r + 9 + length pl"
  have fok: "fr_ok r" using ok by (simp add: fr_free_def)
  have data: "drop (fr_pos r) (fr_data r) = enc_frame_header (length pl) ty fl sid @ pl @ ys"
    using rest none by (simp add: fr_rest_def)
  have len: "length (fr_data r) = ?e + length ys"
    using arg_cong [OF data, of length] by simp
  define r0 where "r0 = fr_adv 9 r\<lparr>fr_payload_end := Some ?e\<rparr>"
  have "drop 9 (drop (fr_pos r) (fr_data r)) = pl @ ys" unfolding data by simp
  then have d9: "drop (fr_pos r + 9) (fr_data r) = pl @ ys" by (simp add: add.commute)
  have "drop (length pl) (drop (fr_pos r + 9) (fr_data r)) = ys" unfolding d9 by simp
  then have dy: "drop ?e (fr_data r) = ys" by (simp add: ac_simps)
  have "fr_rest r0 = pl" using d9 by (simp add: r0_def fr_rest_def)
  moreover have "fr_free r0" using ok len by (simp add: r0_def fr_free_def fr_ok_def)
  ultimately obtain r1 where r1: "parse_payload_by_type ?h r0 = (Inr p, r1)" "fr_rest r1 = []" "fr_free r1"
    using decodesE [OF dec, of r0 "[]"] by auto
  have W: "same_cfg r0 r1" "fr_ok r1"
    using wbD(1,2) [OF wb_parse_payload_by_type, of r0 ?e, OF _ _ r1(1)] \<open>fr_free r0\<close>
    by (auto simp: r0_def fr_free_def)
  have pos: "fr_pos r1 = ?e"
    using W r1(2) length_fr_rest [OF W(2)] by (auto simp: same_cfg_def r0_def fr_ok_def)
  have w: "parse_window ?h (fr_pos r + 9) r0 = (Inr p, r1)"
    using r1(1) pos by (simp add: parse_window_def bindM_def)
  have raw: "slice (fr_data r) (fr_pos r) ?e = enc_frame_header (length pl) ty fl sid @ pl"
    using data by (simp add: slice_def)
  have "parse_frame r = finish_frame (fr_pos r) (length pl) ty fl (sid AND MAX_STREAM_ID) (fr_adv 9 r)"
    using parse_frame_header [OF fok rest none] lt max by simp
  also have "\<dots> = parse_frame_payload (fr_pos r) ?h (fr_adv 9 r)"
    using max len lt(3) by (simp add: finish_frame_def stream_id_mask)
  also have "\<dots> = (Inr \<lparr>pf_header = ?h, pf_payload = p, pf_raw = enc_frame_header (length pl) ty fl sid @ pl\<rparr>,
      r1\<lparr>fr_payload_end := None\<rparr>)"
    using w raw by (simp add: parse_frame_payload_def r0_def)
  finally show ?thesis
    using W(1) pos len dy by (simp add: fr_rest_def same_cfg_def r0_def)
qed

lemma tl_be_bytes: "tl (be_bytes (Suc k) v) = be_bytes k v"
proof (induction k arbitrary: v)
  case (Suc k)
  have "be_bytes (Suc (Suc k)) v = be_bytes (Suc k) (v div 256) @ [of_nat v]" by (rule be_bytes.simps)
  moreover have "be_bytes (Suc k) (v div 256) \<noteq> []" by simp
  ultimately have "tl (be_bytes (Suc (Suc k)) v) = tl (be_bytes (Suc k) (v div 256)) @ [of_nat v]"
    by (simp only: tl_append2 not_False_eq_True)
  then show ?case unfolding Suc.IH by (rule trans) (rule be_bytes.simps(2) [symmetric])
qed simp

lemma build_frame_InrD:
  assumes "build_frame ty fl sid pl = Inr bs"
  shows "bs = enc_frame_header (length pl) ty fl (nat sid) @ pl" "length pl < 16777216" "ty < 256"
    "fl < 256" "nat sid < 2147483648"
proof -
  have "tl (be_bytes 4 n) = be_bytes 3 n" for n
    using tl_be_bytes [of 3 n] by simp
  then show "bs = enc_frame_header (length pl) ty fl (nat sid) @ pl"
    using assms by (auto simp: build_frame_def enc_frame_header_def split: if_splits)
qed (use assms in \<open>auto simp: build_frame_def MAX_STREAM_ID_def split: if_splits\<close>)

text \<open>Reading what was built, on a fresh reader with more bytes behind.\<close>

lemma built_frame_read:
  assumes "build_frame ty fl sid pl = Inr bs" and "length pl \<le> mx"
    and "decodes fr_rest fr_free (parse_payload_by_type
        \<lparr>fh_length = length pl, fh_type = ty, fh_flags = fl, fh_stream_id = nat sid\<rparr>) p pl"
  shows "\<exists>r'. parse_frame (HTTP2FrameReader (bs @ ys) mx sp fo None) =
      (Inr \<lparr>pf_header = \<lparr>fh_length = length pl, fh_type = ty, fh_flags = fl, fh_stream_id = nat sid\<rparr>,
            pf_payload = p, pf_raw = bs\<rparr>, r') \<and> fr_rest r' = ys"
  using parse_frame_decodes [of "HTTP2FrameReader (bs @ ys) mx sp fo None" pl ty fl "nat sid" ys p]
    build_frame_InrD [OF assms(1)] assms(2,3)
  by (simp add: HTTP2FrameReader_def fr_free_def fr_ok_def fr_rest_def)

lemma has_flag_header_bits:
  fixes es eh :: bool
  defines "fl \<equiv> (if es then FF_END_STREAM else 0) OR (if eh then FF_END_HEADERS else 0) :: nat"
  shows "has_flag fl FF_END_STREAM = es" "has_flag fl FF_END_HEADERS = eh"
    "\<not> has_flag fl FF_PADDED" "\<not> has_flag fl FF_PRIORITY"
  by (cases es; cases eh; simp add: fl_def has_flag_def)+

text \<open>HEADERS frames read back: a frame built by \<open>build_headers_frame\<close> for a non-zero stream is
  read as the same header block with the same flags, and the reader continues behind it.\<close>

theorem headers_frame_roundtrip:
  assumes "build_headers_frame sid block es eh = Inr bs" and "sid \<noteq> 0" and "length block \<le> mx"
  shows "\<exists>f r'. parse_frame (HTTP2FrameReader (bs @ ys) mx sp fo None) = (Inr f, r') \<and>
    pf_payload f = HeadersPayload block None es eh False \<and> int (fh_stream_id (pf_header f)) = sid \<and>
    pf_raw f = bs \<and> fr_rest r' = ys"
proof -
  define fl where "fl = (if es then FF_END_STREAM else 0) OR (if eh then FF_END_HEADERS else 0 :: nat)"
  have b: "build_frame FT_HEADERS fl sid block = Inr bs"
    using assms(1) by (simp add: build_headers_frame_def fl_def)
  then have sid: "0 < nat sid" "int (nat sid) = sid"
    using assms(2) by (auto simp: build_frame_def split: if_splits)
  let ?h = "\<lparr>fh_length = length block, fh_type = FT_HEADERS, fh_flags = fl, fh_stream_id = nat sid\<rparr>"
  have "decodes fr_rest fr_free (bindM (fr_read (int (length block))) (\<lambda>hb.
      bindM (skip_padding 0) (\<lambda>_. ret (HeadersPayload hb None es eh False))))
      (HeadersPayload block None es eh False) (block @ [] @ [])"
    by (rule decodes_bind [OF frf.decodes_rd decodes_bind [OF decodes_no_padding decodes_ret]]) simp
  then have "decodes fr_rest fr_free (parse_payload_by_type ?h) (HeadersPayload block None es eh False) block"
    using sid(1) has_flag_header_bits [of es eh, folded fl_def]
    by (simp add: parse_payload_by_type_def parse_headers_def read_padding_length_def)
  from built_frame_read [OF b assms(3) this] obtain r' where
    "parse_frame (HTTP2FrameReader (bs @ ys) mx sp fo None) = (Inr \<lparr>pf_header = ?h,
       pf_payload = HeadersPayload block None es eh False, pf_raw = bs\<rparr>, r')" "fr_rest r' = ys"
    by blast
  with sid(2) show ?thesis by simp
qed

theorem headers_frame_roundtrip_witness:
  "build_headers_frame 3 [130] True True = Inr [0, 0, 1, 1, 5, 0, 0, 0, 3, 130] \<and>
   (\<exists>f r'. parse_frame (HTTP2FrameReader ([0, 0, 1, 1, 5, 0, 0, 0, 3, 130] @ [1]) 16384 True False None) =
      (Inr f, r') \<and> pf_payload f = HeadersPayload [130] None True True False \<and> fr_rest r' = [1])"
proof -
  have b: "build_headers_frame 3 [130] True True = Inr [0, 0, 1, 1, 5, 0, 0, 0, 3, 130]"
    by (simp add: build_headers_frame_def build_frame_def MAX_STREAM_ID_def
        be_bytes_literals)
  from headers_frame_roundtrip [OF b, of 16384 "[1]" True False] b show ?thesis by auto
qed

definition setting_ok :: "nat \<times> nat \<Rightarrow> bool" where
  "setting_ok kv \<longleftrightarrow> (fst kv = SI_ENABLE_PUSH \<longrightarrow> snd kv \<le> 1) \<and>
     (fst kv = SI_INITIAL_WINDOW_SIZE \<longrightarrow> snd kv < 2 ^ 31) \<and>
     (fst kv = SI_MAX_FRAME_SIZE \<longrightarrow> 2 ^ 14 \<le> snd kv \<and> snd kv < 2 ^ 24)"

lemma check_setting_ok: "setting_ok (i, v) \<Longrightarrow> check_setting i v = ret ()"
  by (auto simp: setting_ok_def check_setting_def MAX_STREAM_ID_def)

lemma check_setting_InrD: "check_setting i v r = (Inr u, r') \<Longrightarrow> setting_ok (i, v) \<and> r' = r"
  by (auto simp: setting_ok_def check_setting_def MAX_STREAM_ID_def protoM_def split: if_splits)

lemma pack_settings_decodes:
  "pack_settings kvs = Inr bs \<Longrightarrow> list_all setting_ok kvs \<Longrightarrow>
     decodes fr_rest fr_free (read_settings (length kvs)) kvs bs \<and> length bs = 6 * length kvs"
proof (induction kvs arbitrary: bs)
  case Nil
  then show ?case by (simp add: decodes_ret)
next
  case (Cons kv kvs)
  obtain i v where kv: "kv = (i, v)" by (cases kv)
  from Cons.prems(1) kv obtain bs' where lt: "i < 65536" "v < 4294967296"
    and p: "pack_settings kvs = Inr bs'" and bs: "bs = be_bytes 2 i @ be_bytes 4 v @ [] @ bs' @ []"
    by (auto simp: pack_setting_def bindR_def split: if_splits sum.splits)
  have ok: "check_setting i v = ret ()" using Cons.prems(2) kv by (simp add: check_setting_ok)
  have "decodes fr_rest fr_free (read_settings (length kvs)) kvs bs'" "length bs' = 6 * length kvs"
    using Cons.IH [OF p] Cons.prems(2) by auto
  then show ?case
    unfolding bs kv using lt ok
    by (auto intro!: decodes_bind frf_uints decodes_ret simp del: append_Nil append_Nil2)
qed

text \<open>C23. SETTINGS frames read back: for parameters within the ranges of RFC 9113 the frame built by
  \<open>build_settings_frame\<close> is read as exactly these entries in the same order.\<close>

theorem settings_frame_roundtrip:
  assumes "build_settings_frame (Some kvs) False = Inr bs" and "list_all setting_ok kvs"
    and "6 * length kvs \<le> mx"
  shows "\<exists>f r'. parse_frame (HTTP2FrameReader (bs @ ys) mx sp fo None) = (Inr f, r') \<and>
    pf_payload f = SettingsPayload False (Some (dict_of kvs)) kvs \<and> pf_raw f = bs \<and> fr_rest r' = ys"
proof -
  from assms(1) obtain pl where pl: "pack_settings kvs = Inr pl" and b: "build_frame FT_SETTINGS 0 0 pl = Inr bs"
    by (auto simp: build_settings_frame_def bindR_def split: sum.splits)
  note dec = pack_settings_decodes [OF pl assms(2)]
  let ?h = "\<lparr>fh_length = length pl, fh_type = FT_SETTINGS, fh_flags = 0, fh_stream_id = nat 0\<rparr>"
  have "decodes fr_rest fr_free (bindM (reserve_entries (length kvs)) (\<lambda>_.
      bindM (read_settings (length kvs)) (\<lambda>es. ret (SettingsPayload False (Some (dict_of es)) es))))
      (SettingsPayload False (Some (dict_of kvs)) kvs) ([] @ pl @ [])"
    by (rule decodes_bind [OF decodes_reserve decodes_bind [OF _ decodes_ret]]) (use dec in simp)
  then have "decodes fr_rest fr_free (parse_payload_by_type ?h) (SettingsPayload False (Some (dict_of kvs)) kvs) pl"
    using dec by (simp add: parse_payload_by_type_def parse_settings_def has_flag_def)
  moreover have "length pl \<le> mx" using dec assms(3) by simp
  ultimately obtain r' where
    "parse_frame (HTTP2FrameReader (bs @ ys) mx sp fo None) = (Inr \<lparr>pf_header = ?h,
       pf_payload = SettingsPayload False (Some (dict_of kvs)) kvs, pf_raw = bs\<rparr>, r')" "fr_rest r' = ys"
    using built_frame_read [OF b] by blast
  then show ?thesis by simp
qed

theorem settings_frame_roundtrip_witness:
  "build_settings_frame (Some [(3, 100)]) False = Inr [0, 0, 6, 4, 0, 0, 0, 0, 0, 0, 3, 0, 0, 0, 100] \<and>
   (\<exists>f r'. parse_frame (HTTP2FrameReader ([0, 0, 6, 4, 0, 0, 0, 0, 0, 0, 3, 0, 0, 0, 100] @ [1]) 16384 True False None) =
      (Inr f, r') \<and> pf_payload f = SettingsPayload False (Some (dict_of [(3, 100)])) [(3, 100)] \<and> fr_rest r' = [1])"
proof -
  have b: "build_settings_frame (Some [(3, 100)]) False = Inr [0, 0, 6, 4, 0, 0, 0, 0, 0, 0, 3, 0, 0, 0, 100]"
    by (simp add: build_settings_frame_def pack_setting_def bindR_def build_frame_def MAX_STREAM_ID_def
        be_bytes_literals)
  from settings_frame_roundtrip [OF b, of 16384 "[1]" True False] b show ?thesis by (auto simp: setting_ok_def)
qed

section \<open>Accepted payloads\<close>

lemma read_settings_yields:
  "yields fr_rest fr_ok (read_settings n) (\<lambda>kvs enc. length kvs = n \<and> list_all setting_ok kvs \<and>
     enc = concat (map (\<lambda>(i, v). be_bytes 2 i @ be_bytes 4 v) kvs))"
proof (induction n)
  case 0
  show ?case by (auto simp: yields_def)
next
  case (Suc n)
  have c: "yields fr_rest fr_ok (check_setting i v) (\<lambda>u enc. enc = [] \<and> setting_ok (i, v))" for i v
    unfolding yields_def by (metis append_Nil check_setting_InrD)
  have u: "yields fr_rest fr_ok fr_read_uint16 (\<lambda>v enc. enc = be_bytes 2 v \<and> v < 256 ^ 2)"
    "yields fr_rest fr_ok fr_read_uint32 (\<lambda>v enc. enc = be_bytes 4 v \<and> v < 256 ^ 4)"
    unfolding fr_read_uints by (rule fr.yields_be)+
  show ?case
    unfolding read_settings.simps
    by (rule yields_mono [OF yields_bind [OF u(1) yields_bind [OF u(2) yields_bind [OF c
          yields_bind [OF Suc yields_ret]]]]]) (elim exE conjE, simp)
qed

text \<open>What a payload parser yields holds of an accepted frame that was decoded without an error.\<close>

definition fr_strict :: "frame_reader \<Rightarrow> bool" where
  "fr_strict r \<longleftrightarrow> fr_ok r \<and> fr_strict_padding r"

interpretation frs: byte_source fr_read fr_rest fr_adv fr_strict
  by unfold_locales
    (auto simp: fr_strict_def fr.rd_enough fr.rd_short fr.rest_adv fr.ok_adv)

lemma parse_frame_payload_yields:
  assumes none: "fr_payload_end r = None" and fits: "fr_pos r + fh_length h \<le> length (fr_data r)"
    and res: "parse_frame_payload start h r = (Inr f, r')"
    and dec: "\<forall>t b m c. pf_payload f \<noteq> UnknownPayload t b (Some m) c"
  shows "\<exists>r0 r1. parse_payload_by_type h r0 = (Inr (pf_payload f), r1) \<and> fr_ok r0 \<and>
    fr_strict_padding r0 = fr_strict_padding r \<and>
    fr_rest r0 = slice (fr_data r) (fr_pos r) (fr_pos r + fh_length h) \<and> fr_rest r1 = []"
proof -
  define r0 where "r0 = r\<lparr>fr_payload_end := Some (fr_pos r + fh_length h)\<rparr>"
  have ok: "fr_ok r0" "fr_payload_end r0 = Some (fr_pos r + fh_length h)"
    using fits by (simp_all add: r0_def fr_ok_def)
  obtain p r1 where w: "parse_window h (fr_pos r) r0 = (Inr p, r1)" "p = pf_payload f"
    using res dec by (auto simp: parse_frame_payload_def Let_def r0_def
        split: prod.splits sum.splits exn.splits if_splits)
  then have p: "parse_payload_by_type h r0 = (Inr (pf_payload f), r1)"
    by (auto simp: parse_window_def bindM_eq_Inr Let_def split: if_splits)
  have "fr_pos r1 = fr_pos r + fh_length h" using parse_window_consumes [OF w(1)] by linarith
  moreover have "fr_end r1 = fr_pos r + fh_length h"
    using wbD(1) [OF wb_parse_window ok(2,1) w(1)] ok(2) by (simp add: same_cfg_def)
  ultimately have "fr_rest r1 = []" by (simp add: fr_rest_def)
  with p ok(1) show ?thesis by (intro exI [of _ r0] exI [of _ r1]) (simp add: r0_def fr_rest_def slice_def)
qed

lemma parse_frame_yields:
  assumes ok: "fr_pos r \<le> length (fr_data r)" and none: "fr_payload_end r = None"
    and res: "parse_frame r = (Inr f, r')"
    and dec: "\<forall>t b m c. pf_payload f \<noteq> UnknownPayload t b (Some m) c"
  shows "\<exists>r0 r1. parse_payload_by_type (pf_header f) r0 = (Inr (pf_payload f), r1) \<and> fr_ok r0 \<and>
    fr_strict_padding r0 = fr_strict_padding r \<and> fr_rest r0 = drop 9 (pf_raw f) \<and> fr_rest r1 = []"
  using ok none res
proof (cases rule: parse_frame_cases)
  case short
  then show ?thesis by simp
next
  case (header len ty fl sid)
  let ?h = "\<lparr>fh_length = len, fh_type = ty, fh_flags = fl, fh_stream_id = sid AND MAX_STREAM_ID\<rparr>"
  have F: "len \<le> fr_max_frame_size r" "fr_pos r + 9 + len \<le> length (fr_data r)" "pf_header f = ?h"
    "pf_raw f = slice (fr_data r) (fr_pos r) (fr_pos r + 9 + len)"
    using finish_frame_cases [OF fr_ok_adv9 [OF none header(7)] _ header(8)] none by auto
  have "parse_frame_payload (fr_pos r) ?h (fr_adv 9 r) = (Inr f, r')"
    using header(8) F(1,2) by (simp add: finish_frame_def split: if_splits)
  then obtain r0 r1 where "parse_payload_by_type ?h r0 = (Inr (pf_payload f), r1)" "fr_ok r0"
    "fr_strict_padding r0 = fr_strict_padding r"
    "fr_rest r0 = slice (fr_data r) (fr_pos r + 9) (fr_pos r + 9 + len)" "fr_rest r1 = []"
    using parse_frame_payload_yields [of "fr_adv 9 r" ?h "fr_pos r" f r'] none F(2) dec by auto
  moreover have "drop 9 (pf_raw f) = slice (fr_data r) (fr_pos r + 9) (fr_pos r + 9 + len)"
    unfolding F(4) slice_def by (simp add: drop_take add.commute)
  ultimately show ?thesis unfolding F(3) by metis
qed

text \<open>Accepted SETTINGS are valid: every entry of a SETTINGS payload that the reader accepts, also
  one that a later entry overwrites, is in range; the effective settings are those of the entries in
  wire order, and the entries are exactly the payload bytes.\<close>

theorem settings_accepted:
  assumes "fr_pos r \<le> length (fr_data r)" and "fr_payload_end r = None"
    and "parse_frame r = (Inr f, r')" and "fh_type (pf_header f) = FT_SETTINGS"
    and "pf_payload f = SettingsPayload False s kvs"
  shows "list_all setting_ok kvs \<and> s = Some (dict_of kvs) \<and> fh_stream_id (pf_header f) = 0 \<and>
    drop 9 (pf_raw f) = concat (map (\<lambda>(i, v). be_bytes 2 i @ be_bytes 4 v) kvs)"
proof -
  obtain r0 r1 where p: "parse_payload_by_type (pf_header f) r0 = (Inr (SettingsPayload False s kvs), r1)"
    and r0: "fr_ok r0" "fr_rest r0 = drop 9 (pf_raw f)" "fr_rest r1 = []"
    using parse_frame_yields [OF assms(1-3)] assms(5) by auto
  let ?n = "fh_length (pf_header f) div 6"
  from p assms(4) obtain ra where ra: "reserve_entries ?n r0 = (Inr (), ra)"
    "read_settings ?n ra = (Inr kvs, r1)" and s: "s = Some (dict_of kvs)" "fh_stream_id (pf_header f) = 0"
    by (auto simp: parse_payload_by_type_def parse_settings_def protoM_def sizeM_def bindM_eq_Inr
        split: if_splits)
  have "fr_ok ra" "fr_rest ra = fr_rest r0"
    using ra(1) r0(1) by (auto simp: reserve_entries_def fr_ok_def fr_rest_def split: if_splits)
  then show ?thesis
    using yieldsE [OF read_settings_yields _ ra(2)] s r0 by (metis append_Nil2)
qed

theorem settings_accepted_witness:
  "fst (parse_frame sample_settings) = Inr \<lparr>pf_header = \<lparr>fh_length = 6, fh_type = 4, fh_flags = 0, fh_stream_id = 0\<rparr>,
     pf_payload = SettingsPayload False (Some [(3, 100)]) [(3, 100)],
     pf_raw = [0, 0, 6, 4, 0, 0, 0, 0, 0, 0, 3, 0, 0, 0, 100]\<rparr> \<and> list_all setting_ok [(3, 100)]"
  using settings_accepted [OF _ _ sample_settings_read] sample_settings_read
  by (simp add: sample_settings_def HTTP2FrameReader_def)

lemma skip_padding_yields:
  "yields fr_rest fr_strict (skip_padding n) (\<lambda>_ enc. enc = replicate n 0)"
  unfolding yields_def
proof (intro allI impI)
  fix s x s'
  assume a: "fr_strict s \<and> skip_padding n s = (Inr x, s')"
  then obtain bs where bs: "fr_read (int n) s = (Inr bs, s')" and z: "fr_strict_padding s' \<longrightarrow> (\<forall>b \<in> set bs. b = 0)"
    by (auto simp: skip_padding_def bindM_eq_Inr split: if_splits)
  obtain enc where e: "fr_rest s = enc @ fr_rest s'" "enc = bs" "length bs = n" "fr_strict s'"
    using yieldsE [OF frs.yields_rd _ bs] a by blast
  have "bs = replicate n 0"
    using e(3,4) z by (simp add: fr_strict_def replicate_eqI)
  with e show "(\<exists>enc. fr_rest s = enc @ fr_rest s' \<and> enc = replicate n 0) \<and> fr_strict s'" by blast
qed

lemma read_padding_length_yields:
  "yields fr_rest fr_strict (read_padding_length h) (\<lambda>n enc. n < 256 \<and>
     enc = (if has_flag (fh_flags h) FF_PADDED then be_bytes 1 n else []) \<and>
     (\<not> has_flag (fh_flags h) FF_PADDED \<longrightarrow> n = 0))"
proof (cases "has_flag (fh_flags h) FF_PADDED")
  case True
  have "yields fr_rest fr_strict (if fh_length h \<le> len then raise (FrameParsingError ''Invalid padding length'' PROTOCOL_ERROR)
        else ret len) (\<lambda>n enc. n = len \<and> enc = [])" for len
    by (simp add: yields_raise yields_ret)
  then have "yields fr_rest fr_strict (read_padding_length h)
      (\<lambda>y enc. \<exists>x e1 e2. enc = e1 @ e2 \<and> (e1 = be_bytes 1 x \<and> x < 256 ^ 1) \<and> y = x \<and> e2 = [])"
    unfolding read_padding_length_def fr_read_uints using True
    by (simp only: not_True_eq_False if_False) (rule yields_bind [OF frs.yields_be])
  then show ?thesis by (rule yields_mono) (use True in auto)
next
  case False
  then show ?thesis
    unfolding read_padding_length_def by (simp add: yields_mono [OF yields_ret])
qed

text \<open>Padding: a DATA frame that a strict reader accepts is its data, enclosed, if and only if the
  flag says so, by a pad length byte and that many zero bytes.\<close>

theorem data_accepted:
  assumes "fr_pos r \<le> length (fr_data r)" and "fr_payload_end r = None" and "fr_strict_padding r"
    and "parse_frame r = (Inr f, r')" and "fh_type (pf_header f) = FT_DATA"
    and "pf_payload f = DataPayload d es pd"
  shows "(\<exists>n < 256. drop 9 (pf_raw f) = (if pd then be_bytes 1 n @ d @ replicate n 0 else d)) \<and>
    pd = has_flag (fh_flags (pf_header f)) FF_PADDED \<and>
    es = has_flag (fh_flags (pf_header f)) FF_END_STREAM \<and> fh_stream_id (pf_header f) \<noteq> 0"
proof -
  obtain r0 r1 where p: "parse_payload_by_type (pf_header f) r0 = (Inr (DataPayload d es pd), r1)"
    and r0: "fr_strict r0" "fr_rest r0 = drop 9 (pf_raw f)" "fr_rest r1 = []"
    using parse_frame_yields [OF assms(1,2,4)] assms(3,6) by (auto simp: fr_strict_def)
  from p assms(5) obtain n ra rb dl where ra: "read_padding_length (pf_header f) r0 = (Inr n, ra)"
    "fr_read dl ra = (Inr d, rb)" "0 \<le> dl" "skip_padding n rb = (Inr (), r1)"
    and b: "pd = has_flag (fh_flags (pf_header f)) FF_PADDED"
      "es = has_flag (fh_flags (pf_header f)) FF_END_STREAM" "fh_stream_id (pf_header f) \<noteq> 0"
    by (auto simp: parse_payload_by_type_def parse_data_def protoM_def bindM_eq_Inr Let_def
        simp del: of_nat_diff split: if_splits)
  obtain e1 where e1: "fr_rest r0 = e1 @ fr_rest ra" "n < 256" "fr_strict ra"
      "e1 = (if pd then be_bytes 1 n else [])" "\<not> pd \<longrightarrow> n = 0"
    using yieldsE [OF read_padding_length_yields r0(1) ra(1)] b(1) by blast
  obtain m where "dl = int m" using ra(3) nonneg_int_cases by blast
  then have e2: "fr_rest ra = d @ fr_rest rb" "fr_strict rb"
    using yieldsE [OF frs.yields_rd e1(3)] ra(2) by blast+
  have "fr_rest rb = replicate n 0"
    using yieldsE [OF skip_padding_yields e2(2) ra(4)] r0(3) by (metis append_Nil2)
  with e1 e2 r0(2) b show ?thesis by (intro conjI exI [of _ n]) auto
qed

theorem data_accepted_witness:
  "fst (parse_frame sample_reader) = Inr sample_frame \<and>
   (\<exists>n < 256. drop 9 (pf_raw sample_frame) = be_bytes 1 n @ [65, 66] @ replicate n 0)"
  using data_accepted [OF _ _ _ sample_read, of "[65, 66]" True True] sample_read
  by (simp add: sample_reader_def HTTP2FrameReader_def sample_frame_def)

end
