(* ===== verification/Http2_Typing.thy ===== *)
theory Http2_Typing
  imports Http2_Frames_Correct
begin

text \<open>
  The payload classes of \<open>solvetls/http2/frames.py\<close> are a union type; which class a frame has follows
  from its header. The session and the fingerprints select on the header and then use attributes of
  the payload, which is safe because of what is proved here.
\<close>

definition frame_message :: "exn \<Rightarrow> bool" where
  "frame_message e \<longleftrightarrow> (\<exists>m c. e = FrameParsingError m c \<and> m \<noteq> [])"

definition known_frame_type :: "nat \<Rightarrow> bool" where
  "known_frame_type t \<longleftrightarrow> t \<in> fst ` set FrameType"

fun typed_payload :: "frame_header \<Rightarrow> payload \<Rightarrow> bool" where
  "typed_payload h (DataPayload d es pd) \<longleftrightarrow>
     fh_type h = FT_DATA \<and> fh_stream_id h \<noteq> 0 \<and> es = has_flag (fh_flags h) FF_END_STREAM"
| "typed_payload h (HeadersPayload b pr es eh pd) \<longleftrightarrow>
     fh_type h = FT_HEADERS \<and> fh_stream_id h \<noteq> 0 \<and> es = has_flag (fh_flags h) FF_END_STREAM \<and>
     eh = has_flag (fh_flags h) FF_END_HEADERS \<and> (pr \<noteq> None \<longleftrightarrow> has_flag (fh_flags h) FF_PRIORITY)"
| "typed_payload h (PriorityPayload p) \<longleftrightarrow> fh_type h = FT_PRIORITY \<and> fh_stream_id h \<noteq> 0"
| "typed_payload h (RstStreamPayload c) \<longleftrightarrow> fh_type h = FT_RST_STREAM \<and> fh_stream_id h \<noteq> 0"
| "typed_payload h (SettingsPayload ack s es) \<longleftrightarrow>
     fh_type h = FT_SETTINGS \<and> fh_stream_id h = 0 \<and> ack = has_flag (fh_flags h) FF_ACK \<and> (ack \<longrightarrow> es = [])"
| "typed_payload h (PushPromisePayload i b eh pd) \<longleftrightarrow> fh_type h = FT_PUSH_PROMISE \<and> fh_stream_id h \<noteq> 0 \<and> i \<noteq> 0"
| "typed_payload h (PingPayload d ack) \<longleftrightarrow>
     fh_type h = FT_PING \<and> fh_stream_id h = 0 \<and> ack = has_flag (fh_flags h) FF_ACK"
| "typed_payload h (GoawayPayload l c d) \<longleftrightarrow> fh_type h = FT_GOAWAY \<and> fh_stream_id h = 0"
| "typed_payload h (WindowUpdatePayload i) \<longleftrightarrow> fh_type h = FT_WINDOW_UPDATE \<and> i \<noteq> 0"
| "typed_payload h (ContinuationPayload b eh) \<longleftrightarrow>
     fh_type h = FT_CONTINUATION \<and> fh_stream_id h \<noteq> 0 \<and> eh = has_flag (fh_flags h) FF_END_HEADERS"
| "typed_payload h (AltSvcPayload a b) \<longleftrightarrow> fh_type h = FT_ALTSVC"
| "typed_payload h (OriginPayload os) \<longleftrightarrow> fh_type h = FT_ORIGIN \<and> fh_stream_id h = 0"
| "typed_payload h (PriorityUpdatePayload i v) \<longleftrightarrow> fh_type h = FT_PRIORITY_UPDATE \<and> fh_stream_id h = 0 \<and> i \<noteq> 0"
| "typed_payload h (UnknownPayload t raw err code) \<longleftrightarrow>
     t = fh_type h \<and> (known_frame_type t \<longrightarrow> err \<noteq> None) \<and> (err \<noteq> None \<longleftrightarrow> code \<noteq> None) \<and> err \<noteq> Some []"

definition typed_frame :: "parsed_frame \<Rightarrow> bool" where
  "typed_frame f \<longleftrightarrow> typed_payload (pf_header f) (pf_payload f)"

abbreviation "any \<equiv> (\<lambda>_. True)"

lemma frame_message_codes [outcome_intros, simp]:
  "m \<noteq> [] \<Longrightarrow> outcome P frame_message (raise (FrameParsingError m c))"
  "m \<noteq> [] \<Longrightarrow> outcome P frame_message (protoM m)" "m \<noteq> [] \<Longrightarrow> outcome P frame_message (sizeM m)"
  by (auto simp: protoM_def sizeM_def frame_message_def intro: outcome_raise)

lemma outcome_fr_read [outcome_intros]: "outcome any frame_message (fr_read n)"
  by (simp add: outcome_def fr_read_def raise_def frame_message_def)

lemma outcome_reserve [outcome_intros]: "outcome any frame_message (reserve_entries n)"
  by (simp add: outcome_def reserve_entries_def raise_def frame_message_def)

lemma outcome_uints [outcome_intros]:
  "outcome any frame_message fr_read_uint8" "outcome any frame_message fr_read_uint16"
  "outcome any frame_message fr_read_uint24" "outcome any frame_message fr_read_uint32"
  "outcome any frame_message fr_read_uint32_with_reserved" "outcome any frame_message read_priority"
  unfolding fr_read_uints fr_read_uint32_with_reserved_def read_priority_def read_be_def
  by (intro outcome_intros TrueI)+

lemma outcome_padding [outcome_intros]:
  "outcome any frame_message (skip_padding n)" "outcome any frame_message (read_padding_length h)"
  unfolding skip_padding_def read_padding_length_def
  by (intro outcome_intros outcome_state_if; simp)+

lemma outcome_check_setting [outcome_intros]: "outcome any frame_message (check_setting i v)"
  unfolding check_setting_def by (intro outcome_intros; simp)

lemma outcome_read_settings [outcome_intros]: "outcome any frame_message (read_settings n)"
  by (induction n) (auto intro!: outcome_intros)

lemma outcome_read_origins [outcome_intros]: "outcome any frame_message (read_origins len n)"
proof (induction "len - n" arbitrary: n rule: less_induct)
  case less
  show ?case
  proof (cases "n < len \<and> \<not> n + 2 > len")
    case True
    have "read_origins len n = bindM fr_read_uint16 (\<lambda>k.
        if n + 2 + k > len then protoM ''Invalid origin length in ORIGIN frame''
        else bindM (reserve_entries 1) (\<lambda>_. bindM (fr_read (int k)) (\<lambda>origin.
             bindM (read_origins len (n + 2 + k)) (\<lambda>origins. ret (origin # origins)))))"
      using True by (intro ext, subst read_origins.simps) (auto simp: bindM_def split: sum.split prod.split)
    then show ?thesis using True by (auto intro!: outcome_intros less)
  next
    case False
    then have "read_origins len n = (if n < len then protoM ''Invalid ORIGIN frame format'' else ret [])"
      by (intro ext, subst read_origins.simps) auto
    then show ?thesis by (auto intro!: outcome_intros)
  qed
qed

lemmas payload_parser_defs = parse_data_def parse_headers_def parse_priority_def parse_rst_stream_def
  parse_settings_def parse_push_promise_def parse_ping_def parse_goaway_def parse_window_update_def
  parse_continuation_def parse_altsvc_def parse_origin_def parse_priority_update_def

text \<open>The \<open>HEADERS\<close> parser binds the optional priority block, whose presence the flag decides.\<close>

lemma typed_headers:
  assumes "fh_type h = FT_HEADERS"
  shows "outcome (typed_payload h) frame_message (parse_headers h)"
proof -
  have p: "outcome (\<lambda>p. p \<noteq> None \<longleftrightarrow> has_flag (fh_flags h) FF_PRIORITY) frame_message
      (if has_flag (fh_flags h) FF_PRIORITY then bindM read_priority (\<lambda>p. ret (Some p)) else ret None)"
    by (intro outcome_intros; simp)
  show ?thesis
    unfolding parse_headers_def Let_def
    by (intro outcome_if outcome_bind [OF outcome_padding(2)] outcome_bind_value [OF p]) (auto simp: assms intro!: outcome_intros)
qed

lemma typed_payload_by_type: "outcome (typed_payload h) frame_message (parse_payload_by_type h)"
  unfolding parse_payload_by_type_def Let_def
  by (intro outcome_if typed_headers)
    (auto simp: payload_parser_defs Let_def known_frame_type_def FrameType_def intro!: outcome_intros)

lemma typed_window: "outcome (typed_payload h) frame_message (parse_window h start)"
  unfolding parse_window_def Let_def
  by (rule outcome_bind_value [OF typed_payload_by_type]) (auto simp: outcome_def raise_def ret_def frame_message_def)

lemma parse_frame_payload_typed:
  assumes "parse_frame_payload start h r = (Inr f, r')"
  shows "typed_frame f \<and> pf_header f = h"
proof -
  obtain x r1 where w: "parse_window h (fr_pos r) (r\<lparr>fr_payload_end := Some (fr_pos r + fh_length h)\<rparr>) = (x, r1)"
    by fastforce
  show ?thesis
  proof (cases x)
    case (Inr p)
    with outcomeD(1) [OF typed_window w [unfolded Inr]] w assms show ?thesis
      by (auto simp: parse_frame_payload_def Let_def typed_frame_def)
  next
    case (Inl e)
    then obtain m c where e: "e = FrameParsingError m c" "m \<noteq> []"
      using outcomeD(2) [OF typed_window w [unfolded Inl]] by (auto simp: frame_message_def)
    with w Inl assms show ?thesis
      by (auto simp: parse_frame_payload_def Let_def typed_frame_def split: if_splits)
  qed
qed

lemma parse_frame_typed_aux: "parse_frame r = (Inr f, r') \<Longrightarrow> typed_frame f"
  unfolding parse_frame_def Let_def
  by (auto simp: bindM_eq_Inr sizeM_def split: if_splits dest: parse_frame_payload_typed)

text \<open>Frames are well typed: the payload class of every frame the reader returns is the one its
  type calls for, its attributes agree with the flags and the stream of the header, and a frame of a
  known type without such a payload carries the reason and the error code. This is what makes the
  attribute accesses of the session and of the fingerprints safe.\<close>

theorem frame_typed:
  assumes "parse_frame r = (Inr f, r')"
  shows "typed_frame f"
  using assms by (rule parse_frame_typed_aux)

theorem frame_typed_witness: "typed_frame sample_frame"
  using frame_typed [OF sample_read] .

end
