(* ===== verification/Fingerprints.thy ===== *)
theory Fingerprints
  imports Client_Hello Tls_Extensions Hashes Http_Fields Http2_Capture Http2_Typing
    "HOL-Library.Char_ord" "HOL-Library.List_Lexorder" "HOL-Library.Multiset"
begin

text \<open>
  \<open>solvetls/fingerprints.py\<close>: the JA3, JA4 and Akamai fingerprints. \<open>sorted\<close> on strings is \<open>sort\<close>
  in the lexicographic order of their characters.
\<close>

section \<open>Model\<close>

definition JA4_VERSIONS :: "(nat \<times> string) list" where
  "JA4_VERSIONS = [(0x0304, ''13''), (0x0303, ''12''), (0x0302, ''11''), (0x0301, ''10''), (0x0300, ''s3''), (0x0002, ''s2'')]"

definition JA4_EMPTY_HASH :: string where
  "JA4_EMPTY_HASH = ''000000000000''"

definition JA4_HASH_LENGTH :: nat where
  "JA4_HASH_LENGTH = 12"

definition JA4_UNHASHED_EXTENSIONS :: "nat list" where
  "JA4_UNHASHED_EXTENSIONS = [EXT_SERVER_NAME, EXT_ALPN]"

text \<open>\<open>value.encode()\<close>: the UTF-8 encoding of a text.\<close>

definition encode_utf8 :: "string \<Rightarrow> bytes" where
  "encode_utf8 s = concat (map utf8_encode (codes s))"

definition fp_md5 :: "string \<Rightarrow> string" where
  "fp_md5 value = hex_bytes (md5 (encode_utf8 value))"

definition truncated_sha256 :: "string \<Rightarrow> string" where
  "truncated_sha256 value = take JA4_HASH_LENGTH (hex_bytes (sha256 (encode_utf8 value)))"

definition no_grease :: "nat list \<Rightarrow> nat list" where
  "no_grease values = filter (\<lambda>value. value \<notin> set GREASE_VALUES) values"

definition dashed :: "nat list \<Rightarrow> string" where
  "dashed values = join_with ''-'' (map str_nat values)"

definition extension_types :: "client_hello \<Rightarrow> nat list" where
  "extension_types ch = map ext_type (ch_extensions ch)"

definition extension_data :: "client_hello \<Rightarrow> nat \<Rightarrow> bytes option" where
  "extension_data ch t = map_of (map (\<lambda>e. (ext_type e, ext_data e)) (ch_extensions ch)) t"

text \<open>The three helpers below catch \<open>ValueError\<close>, which is all their reads can raise.\<close>

definition uint16_vector :: "client_hello \<Rightarrow> nat \<Rightarrow> nat \<Rightarrow> nat list" where
  "uint16_vector ch t length_bytes =
     (case extension_data ch t of
        None \<Rightarrow> []
      | Some data \<Rightarrow>
          (case parses (bindM (read_vector length_bytes) (\<lambda>d. with_reader d (while_more read_uint16))) data of
             Inr values \<Rightarrow> values
           | Inl _ \<Rightarrow> []))"

definition supported_groups :: "client_hello \<Rightarrow> nat list" where
  "supported_groups ch = uint16_vector ch EXT_SUPPORTED_GROUPS 2"

definition supported_versions :: "client_hello \<Rightarrow> nat list" where
  "supported_versions ch = uint16_vector ch EXT_SUPPORTED_VERSIONS 1"

definition signature_algorithms :: "client_hello \<Rightarrow> nat list" where
  "signature_algorithms ch = uint16_vector ch EXT_SIGNATURE_ALGORITHMS 2"

definition ec_point_formats :: "client_hello \<Rightarrow> nat list" where
  "ec_point_formats ch =
     (case extension_data ch EXT_EC_POINT_FORMATS of
        None \<Rightarrow> []
      | Some data \<Rightarrow> (case parses (read_vector 1) data of Inr v \<Rightarrow> map unat v | Inl _ \<Rightarrow> []))"

definition alpn_protocols :: "client_hello \<Rightarrow> bytes list" where
  "alpn_protocols ch =
     (case extension_data ch EXT_ALPN of
        None \<Rightarrow> []
      | Some data \<Rightarrow> (case parse_alpn_protocols data of Inr ps \<Rightarrow> ps | Inl _ \<Rightarrow> []))"

definition ja3_text :: "client_hello \<Rightarrow> string" where
  "ja3_text ch =
     join_with '','' [str_nat (ch_version ch), dashed (no_grease (ch_cipher_suites ch)),
       dashed (no_grease (extension_types ch)), dashed (no_grease (supported_groups ch)),
       dashed (ec_point_formats ch)]"

definition build_ja3 :: "client_hello option \<Rightarrow> dict" where
  "build_ja3 client_hello =
     (case client_hello of
        None \<Rightarrow> [(''ja3'', JNull), (''ja3_hash'', JNull)]
      | Some ch \<Rightarrow> [(''ja3'', jstr (ja3_text ch)), (''ja3_hash'', jstr (fp_md5 (ja3_text ch)))])"

definition ja4_alphanumeric :: "byte \<Rightarrow> bool" where
  "ja4_alphanumeric b \<longleftrightarrow> 0x30 \<le> unat b \<and> unat b \<le> 0x39 \<or> 0x41 \<le> unat b \<and> unat b \<le> 0x5A \<or>
     0x61 \<le> unat b \<and> unat b \<le> 0x7A"

definition ja4_alpn :: "bytes list \<Rightarrow> string" where
  "ja4_alpn protocols =
     (case filter (\<lambda>p. length p \<noteq> 2 \<or> be_nat p \<notin> set GREASE_VALUES) protocols of
        [] \<Rightarrow> ''00''
      | first # _ \<Rightarrow>
          if first = [] then ''00''
          else if \<not> (ja4_alphanumeric (hd first) \<and> ja4_alphanumeric (last first))
          then [hd (hex_bytes first), last (hex_bytes first)]
          else [byte_char (hd first), byte_char (last first)])"

definition ja4_version :: "client_hello \<Rightarrow> nat" where
  "ja4_version ch =
     (case no_grease (supported_versions ch) of [] \<Rightarrow> ch_version ch | v # vs \<Rightarrow> fold max vs v)"

definition two_digits :: "nat \<Rightarrow> string" where
  "two_digits n = zfill 2 (str_nat (min n 99))"

definition ja4_a :: "client_hello \<Rightarrow> string" where
  "ja4_a ch =
     ''t'' @ (case map_of JA4_VERSIONS (ja4_version ch) of Some v \<Rightarrow> v | None \<Rightarrow> ''00'') @
     (if extension_data ch EXT_SERVER_NAME \<noteq> None then ''d'' else ''i'') @
     two_digits (length (no_grease (ch_cipher_suites ch))) @
     two_digits (length (no_grease (extension_types ch))) @ ja4_alpn (alpn_protocols ch)"

definition ja4_b :: "client_hello \<Rightarrow> string" where
  "ja4_b ch =
     (let ciphers = sort (map hex04 (no_grease (ch_cipher_suites ch)))
      in if ciphers \<noteq> [] then truncated_sha256 (join_with '','' ciphers) else JA4_EMPTY_HASH)"

definition ja4_c :: "client_hello \<Rightarrow> string" where
  "ja4_c ch =
     (let signatures = map hex04 (no_grease (signature_algorithms ch));
          hashed = sort (map hex04 (filter (\<lambda>value. value \<notin> set JA4_UNHASHED_EXTENSIONS) (no_grease (extension_types ch))))
      in if hashed \<noteq> []
         then truncated_sha256 (join_with '','' hashed @
                (if signatures \<noteq> [] then CHR ''_'' # join_with '','' signatures else []))
         else JA4_EMPTY_HASH)"

definition build_ja4 :: "client_hello option \<Rightarrow> string option" where
  "build_ja4 client_hello =
     (case client_hello of
        None \<Rightarrow> None
      | Some ch \<Rightarrow> Some (ja4_a ch @ ''_'' @ ja4_b ch @ ''_'' @ ja4_c ch))"

text \<open>The Akamai loop over the captured frames: window update, whether it was seen, priorities. A frame
  of a known type that is not an \<open>UnknownPayload\<close> has the payload class of its type; an attribute
  access on any other payload would raise.\<close>

fun akamai_frames :: "parsed_frame list \<Rightarrow> string \<times> bool \<times> string list \<Rightarrow> exn + string \<times> bool \<times> string list" where
  "akamai_frames [] st = Inr st"
| "akamai_frames (frame # frames) (window_update, seen, priorities) =
     (if fh_type (pf_header frame) = FT_HEADERS then Inr (window_update, seen, priorities)
      else if is_UnknownPayload (pf_payload frame) then akamai_frames frames (window_update, seen, priorities)
      else if fh_type (pf_header frame) = FT_WINDOW_UPDATE \<and> fh_stream_id (pf_header frame) = 0 \<and> \<not> seen then
        (case pf_payload frame of
           WindowUpdatePayload increment \<Rightarrow> akamai_frames frames (str_nat increment, True, priorities)
         | _ \<Rightarrow> Inl attribute_error)
      else if fh_type (pf_header frame) = FT_PRIORITY then
        (case pf_payload frame of
           PriorityPayload p \<Rightarrow> akamai_frames frames (window_update, seen, priorities @
             [str_nat (fh_stream_id (pf_header frame)) @ '':'' @ (if exclusive p then ''1'' else ''0'') @ '':'' @
              str_nat (dependency p) @ '':'' @ str_nat (weight p)])
         | _ \<Rightarrow> Inl attribute_error)
      else akamai_frames frames (window_update, seen, priorities))"

definition pseudo_letters :: "(bytes \<times> bytes) list \<Rightarrow> string list" where
  "pseudo_letters headers =
     map (\<lambda>name. [name ! 1]) (filter (\<lambda>name. starts_with '':'' name \<and> length name > 1) (map (\<lambda>h. as_text (Bytes (fst h))) headers))"

definition build_akamai_fingerprint :: "http2_capture option \<Rightarrow> exn + dict" where
  "build_akamai_fingerprint capture =
     (case capture of
        None \<Rightarrow> Inr [(''akamai_fingerprint'', JNull), (''akamai_fingerprint_hash'', JNull)]
      | Some c \<Rightarrow>
          if cap_frames c = [] then Inr [(''akamai_fingerprint'', JNull), (''akamai_fingerprint_hash'', JNull)]
          else bindR (akamai_frames (cap_frames c) (''00'', False, [])) (\<lambda>(window_update, seen, priorities).
            let settings = map (\<lambda>(i, v). str_nat i @ '':'' @ str_nat v)
                  (case cap_initial_settings c of None \<Rightarrow> [] | Some es \<Rightarrow> es);
                pseudo_headers = pseudo_letters (case cap_headers c of None \<Rightarrow> [] | Some hs \<Rightarrow> hs);
                fingerprint = join_with ''|'' [join_with '';'' settings, window_update,
                  if priorities \<noteq> [] then join_with '','' priorities else ''0'', join_with '','' pseudo_headers]
            in Inr [(''akamai_fingerprint'', jstr fingerprint), (''akamai_fingerprint_hash'', jstr (fp_md5 fingerprint))]))"

section \<open>Extensions\<close>

lemma br_fails_ValueError: "br_fails m insufficient \<Longrightarrow> parses m data = Inl e \<Longrightarrow> is_ValueError e"
  unfolding parses_def fails_def by (metis ByteReader_simps(1) is_ValueError.simps(1) prod.collapse)

lemma helpers_raise_ValueError:
  "k \<in> {1, 2, 3} \<Longrightarrow> parses (bindM (read_vector k) (\<lambda>d. with_reader d (while_more read_uint16))) data = Inl e \<Longrightarrow> is_ValueError e"
  "parses (read_vector 1) data = Inl e \<Longrightarrow> is_ValueError e"
  "parse_alpn_protocols data = Inl e \<Longrightarrow> is_ValueError e"
proof -
  show "k \<in> {1, 2, 3} \<Longrightarrow> parses (bindM (read_vector k) (\<lambda>d. with_reader d (while_more read_uint16))) data = Inl e \<Longrightarrow> is_ValueError e"
    by (erule br_fails_ValueError [rotated]) (intro fails_bind [OF br_fails_vector br_yields_vector] fails_with_reader parses_ciphers_error)
  show "parses (read_vector 1) data = Inl e \<Longrightarrow> is_ValueError e"
    by (erule br_fails_ValueError [rotated]) (simp add: br_fails_vector)
  show "parse_alpn_protocols data = Inl e \<Longrightarrow> is_ValueError e"
    by (cases rule: parse_alpn_cases [of data]) (auto simp: ext_fault_def)
qed

definition proper_extensions :: "client_hello \<Rightarrow> extension list" where
  "proper_extensions ch = filter (\<lambda>e. ext_type e \<notin> set GREASE_VALUES) (ch_extensions ch)"

lemma no_grease_types: "no_grease (extension_types ch) = map ext_type (proper_extensions ch)"
  by (simp add: no_grease_def extension_types_def proper_extensions_def filter_map o_def)

lemma extension_data_proper:
  assumes "t \<notin> set GREASE_VALUES"
  shows "extension_data ch t = map_of (map (\<lambda>e. (ext_type e, ext_data e)) (proper_extensions ch)) t"
proof -
  have "map_of (map (\<lambda>e. (ext_type e, ext_data e)) es) t =
      map_of (map (\<lambda>e. (ext_type e, ext_data e)) (filter (\<lambda>e. ext_type e \<notin> set GREASE_VALUES) es)) t" for es
    using assms by (induction es) auto
  then show ?thesis by (simp add: extension_data_def proper_extensions_def)
qed

section \<open>JA3\<close>

lemma split_on_join:
  "xs \<noteq> [] \<Longrightarrow> \<forall>x \<in> set xs. c \<notin> set x \<Longrightarrow> split_on c (join_with [c] xs) = xs"
  by (induction "[c]" xs rule: join_with.induct) (simp_all add: split_on_single split_on_append)

lemma join_inject:
  assumes "xs \<noteq> []" "ys \<noteq> []" "\<forall>x \<in> set xs \<union> set ys. c \<notin> set x"
  shows "join_with [c] xs = join_with [c] ys \<longleftrightarrow> xs = ys"
  using split_on_join [of xs c] split_on_join [of ys c] assms by (metis Un_iff)

lemma digit_bounds: "c \<in> set (str_nat n) \<Longrightarrow> 48 \<le> (of_char c :: nat) \<and> of_char c \<le> (57 :: nat)"
  using str_nat_digits by (auto simp: is_digit_def)

lemma digit_seps: "CHR ''-'' \<notin> set (str_nat n)" "CHR '','' \<notin> set (str_nat n)"
  using digit_bounds by fastforce+

lemma dashed_Nil: "dashed vs = [] \<longleftrightarrow> vs = []"
proof (cases vs)
  case (Cons v ws)
  then show ?thesis by (cases ws) (simp_all add: dashed_def)
qed (simp add: dashed_def)

lemma dashed_inject: "dashed xs = dashed ys \<longleftrightarrow> xs = ys"
proof (cases "xs = [] \<or> ys = []")
  case True
  then show ?thesis using dashed_Nil by metis
next
  case False
  then have "dashed xs = dashed ys \<longleftrightarrow> map str_nat xs = map str_nat ys"
    unfolding dashed_def by (intro join_inject) (auto simp: digit_seps)
  also have "\<dots> \<longleftrightarrow> xs = ys" by (rule inj_map_eq_map) (simp add: inj_on_def)
  finally show ?thesis .
qed

lemma dashed_no_comma: "CHR '','' \<notin> set (dashed vs)"
proof -
  have "set (join_with sep xs) \<subseteq> set sep \<union> \<Union> (set ` set xs)" for sep :: string and xs
    by (induction sep xs rule: join_with.induct) auto
  from this [of "''-''" "map str_nat vs"] digit_seps(2) show ?thesis by (fastforce simp: dashed_def)
qed

lemma ja3_text_inject:
  "ja3_text a = ja3_text b \<longleftrightarrow>
     ch_version a = ch_version b \<and> no_grease (ch_cipher_suites a) = no_grease (ch_cipher_suites b) \<and>
     no_grease (extension_types a) = no_grease (extension_types b) \<and>
     no_grease (supported_groups a) = no_grease (supported_groups b) \<and> ec_point_formats a = ec_point_formats b"
  unfolding ja3_text_def
  by (subst join_inject) (auto simp: dashed_inject dashed_no_comma digit_seps)

text \<open>The GREASE values as RFC 8701 lists them: \<open>0x0A0A\<close>, \<open>0x1A1A\<close>, ..., \<open>0xFAFA\<close>.\<close>

definition is_grease :: "nat \<Rightarrow> bool" where
  "is_grease v \<longleftrightarrow> (\<exists>k < 16. v = 0x0A0A + 0x1010 * k)"

lemma is_grease_iff: "is_grease v \<longleftrightarrow> v \<in> set GREASE_VALUES"
proof -
  have eq: "GREASE_VALUES = map (\<lambda>k. 0x0A0A + 0x1010 * k) [0..<16]" by (simp add: GREASE_VALUES_list upt_rec)
  show ?thesis unfolding is_grease_def eq set_map set_upt by auto
qed

lemma no_grease_filter: "filter (\<lambda>v. \<not> is_grease v) vs = no_grease vs"
  by (simp add: no_grease_def is_grease_iff)

text \<open>C32. JA3 is faithful: two ClientHellos have the same JA3 text exactly when they agree on the
  version and, in order and without the GREASE values of RFC 8701, on the cipher suites, the extension
  types, the groups and the point formats. So GREASE never changes a fingerprint and everything else does.\<close>

theorem ja3_faithful:
  "map_of (build_ja3 (Some a)) ''ja3'' = map_of (build_ja3 (Some b)) ''ja3'' \<longleftrightarrow>
     ch_version a = ch_version b \<and>
     filter (\<lambda>v. \<not> is_grease v) (ch_cipher_suites a) = filter (\<lambda>v. \<not> is_grease v) (ch_cipher_suites b) \<and>
     filter (\<lambda>v. \<not> is_grease v) (extension_types a) = filter (\<lambda>v. \<not> is_grease v) (extension_types b) \<and>
     filter (\<lambda>v. \<not> is_grease v) (supported_groups a) = filter (\<lambda>v. \<not> is_grease v) (supported_groups b) \<and>
     ec_point_formats a = ec_point_formats b"
  by (simp add: build_ja3_def jstr_def inj_codes ja3_text_inject no_grease_filter)

section \<open>JA4\<close>

lemma sort_mset_cong: "mset xs = mset ys \<Longrightarrow> sort xs = sort (ys :: 'a :: linorder list)"
  by (metis sorted_list_of_multiset_mset)

lemma same_extension_data:
  assumes m: "mset (proper_extensions a) = mset (proper_extensions b)"
    and d: "distinct (map ext_type (proper_extensions a))" and t: "t \<notin> set GREASE_VALUES"
  shows "extension_data a t = extension_data b t"
proof -
  let ?f = "map (\<lambda>e. (ext_type e, ext_data e))"
  have "mset (map ext_type (proper_extensions a)) = mset (map ext_type (proper_extensions b))"
    using m by (metis mset_map)
  then have "distinct (map ext_type (proper_extensions b))" using d by (metis mset_eq_imp_distinct_iff)
  moreover have "set (?f (proper_extensions a)) = set (?f (proper_extensions b))"
    using mset_eq_setD [OF m] by simp
  ultimately have "map_of (?f (proper_extensions a)) = map_of (?f (proper_extensions b))"
    using d by (intro iffD2 [OF map_of_inject_set]) (simp_all add: o_def)
  then show ?thesis by (simp add: extension_data_proper [OF t])
qed

lemma ja4_parts_cong:
  assumes v: "ch_version a = ch_version b"
    and c: "mset (no_grease (ch_cipher_suites a)) = mset (no_grease (ch_cipher_suites b))"
    and e: "mset (map ext_type (proper_extensions a)) = mset (map ext_type (proper_extensions b))"
    and x: "\<And>t. t \<in> {0, 13, 16, 43} \<Longrightarrow> extension_data a t = extension_data b t"
  shows "ja4_a a = ja4_a b" "ja4_b a = ja4_b b" "ja4_c a = ja4_c b"
proof -
  have l: "length (no_grease (ch_cipher_suites a)) = length (no_grease (ch_cipher_suites b))"
    "length (proper_extensions a) = length (proper_extensions b)"
    using c e by (metis size_mset, metis length_map size_mset)
  have u: "uint16_vector a t k = uint16_vector b t k" if "t \<in> {13, 43}" for t k
    using x [of t] that by (auto simp: uint16_vector_def)
  have p: "alpn_protocols a = alpn_protocols b" using x [of 16] by (simp add: alpn_protocols_def)
  have "supported_versions a = supported_versions b" by (simp add: supported_versions_def u)
  then have "ja4_version a = ja4_version b" using v by (simp add: ja4_version_def split: list.split)
  then show "ja4_a a = ja4_a b"
    using l p x [of 0] by (simp add: ja4_a_def no_grease_types)
  have "sort (map hex04 (no_grease (ch_cipher_suites a))) = sort (map hex04 (no_grease (ch_cipher_suites b)))"
    using c by (intro sort_mset_cong) simp
  then show "ja4_b a = ja4_b b" by (simp add: ja4_b_def)
  have "mset (filter P (map ext_type (proper_extensions a))) = mset (filter P (map ext_type (proper_extensions b)))" for P
    using e by simp
  then have "sort (map hex04 (filter P (map ext_type (proper_extensions a)))) =
      sort (map hex04 (filter P (map ext_type (proper_extensions b))))" for P
    by (intro sort_mset_cong) (metis mset_map)
  then show "ja4_c a = ja4_c b"
    using u [of 13] by (simp add: ja4_c_def signature_algorithms_def no_grease_types)
qed

lemma proper_extensions_filter: "filter (\<lambda>e. \<not> is_grease (ext_type e)) (ch_extensions ch) = proper_extensions ch"
  by (simp add: proper_extensions_def is_grease_iff)

text \<open>C31. JA4 does not depend on the order of cipher suites and extensions, nor on GREASE cipher suites and GREASE
  extensions: if two ClientHellos have the same version, the same cipher suites with the same multiplicities up to order and GREASE
  values, and the same extensions, type and payload, up to order and GREASE types, and no other extension
  type occurs twice, then they have the same JA4 fingerprint. A client that shuffles its extensions keeps its
  fingerprint; extensions that occur twice, and payloads that differ in the GREASE values inside them, are
  not covered.\<close>

theorem ja4_order_invariant:
  assumes "ch_version a = ch_version b"
    and "mset (filter (\<lambda>v. \<not> is_grease v) (ch_cipher_suites a)) = mset (filter (\<lambda>v. \<not> is_grease v) (ch_cipher_suites b))"
    and "mset (filter (\<lambda>e. \<not> is_grease (ext_type e)) (ch_extensions a)) =
         mset (filter (\<lambda>e. \<not> is_grease (ext_type e)) (ch_extensions b))"
    and "distinct (map ext_type (filter (\<lambda>e. \<not> is_grease (ext_type e)) (ch_extensions a)))"
  shows "build_ja4 (Some a) = build_ja4 (Some b)"
proof -
  note eqs = assms [unfolded no_grease_filter proper_extensions_filter]
  have g: "t \<in> {0, 13, 16, 43} \<Longrightarrow> t \<notin> set GREASE_VALUES" for t by (auto simp: GREASE_VALUES_list)
  have x: "extension_data a t = extension_data b t" if "t \<in> {0, 13, 16, 43}" for t
    using same_extension_data [OF eqs(3,4) g [OF that]] .
  have e: "mset (map ext_type (proper_extensions a)) = mset (map ext_type (proper_extensions b))"
    using eqs(3) by (metis mset_map)
  from ja4_parts_cong [OF eqs(1,2) e x] show ?thesis by (simp add: build_ja4_def)
qed

definition shuffled_hello :: client_hello where
  "shuffled_hello = sample_hello\<lparr>ch_cipher_suites := [2570, 4865, 6682],
     ch_extensions := [\<lparr>ext_type = 2570, ext_data = []\<rparr>, \<lparr>ext_type = 16, ext_data = [0, 3, 2, 104, 50]\<rparr>]\<rparr>"

theorem ja4_order_invariant_witness: "build_ja4 (Some sample_hello) = build_ja4 (Some shuffled_hello)"
  by (rule ja4_order_invariant)
    (simp_all add: sample_hello_def shuffled_hello_def is_grease_iff GREASE_VALUES_list)

definition lower_hex :: "char \<Rightarrow> bool" where
  "lower_hex c \<longleftrightarrow> c \<in> set ''0123456789abcdef''"

lemma hex_digit_class: "d < 16 \<Longrightarrow> lower_hex (hex_digit d)"
proof -
  assume "d < 16"
  then have "d \<in> set [0..<16]" by simp
  moreover have "list_all (\<lambda>d. lower_hex (hex_digit d)) [0..<16]" by code_simp
  ultimately show ?thesis unfolding list_all_iff by blast
qed

lemma hex_bytes_class: "list_all lower_hex (hex_bytes bs)"
proof (induction bs)
  case (Cons b bs)
  have "unat b div 16 < 16" using unat_byte_less [of b] by linarith
  with Cons show ?case
    using hex_digit_class [of "unat b div 16"] hex_digit_class [of "unat b mod 16"]
    by (simp add: hex_bytes_def hex_byte_def)
qed (simp add: hex_bytes_def)

lemma lower_hex_alnum: "lower_hex c \<Longrightarrow> is_alnum c"
  by (auto simp: lower_hex_def char_class_defs is_digit_def)

lemma truncated_sha256_shape: "length (truncated_sha256 v) = 12 \<and> list_all lower_hex (truncated_sha256 v)"
  using hex_bytes_class [of "sha256 (encode_utf8 v)"]
  by (auto simp: truncated_sha256_def JA4_HASH_LENGTH_def list_all_iff dest: in_set_takeD)

lemma two_digits_shape: "length (two_digits n) = 2 \<and> list_all is_digit (two_digits n) \<and> dec_val (two_digits n) = min n 99"
proof -
  let ?s = "str_nat (min n 99)"
  have l: "length ?s \<le> 2" by (intro length_str_nat_le) simp_all
  have d: "list_all is_digit ?s" using str_nat_digits by (auto simp: list_all_iff)
  have "dec_val (replicate k CHR ''0'' @ s) = dec_val s" for k s
  proof (induction s rule: rev_induct)
    case Nil
    show ?case by (induction k) (simp_all add: dec_val_def)
  next
    case (snoc c s)
    then show ?case by (metis append_assoc dec_val_snoc)
  qed
  moreover have "is_digit CHR ''0''" by (simp add: is_digit_def)
  ultimately show ?thesis using l d by (auto simp: two_digits_def zfill_def list_all_iff)
qed

lemma ja4_alpn_shape: "length (ja4_alpn ps) = 2 \<and> list_all is_alnum (ja4_alpn ps)"
proof -
  have z: "is_alnum CHR ''0''" by (simp add: char_class_defs is_digit_def)
  have a: "ja4_alphanumeric b \<Longrightarrow> is_alnum (byte_char b)" for b
    by (auto simp: ja4_alphanumeric_def char_class_defs is_digit_def)
  have h: "is_alnum (hd (hex_bytes p)) \<and> is_alnum (last (hex_bytes p))" if "p \<noteq> []" for p
  proof -
    have "hex_bytes p \<noteq> []" using that length_hex_bytes [of p] by (cases "hex_bytes p") auto
    then show ?thesis using hex_bytes_class [of p] lower_hex_alnum by (simp add: list_all_iff)
  qed
  show ?thesis
    using z a h by (auto simp: ja4_alpn_def split: list.split)
qed

text \<open>C33. Every JA4 fingerprint has the published format: it is 36 characters long, \<open>t\<close>, a known version
  or \<open>00\<close>, \<open>d\<close> exactly when a server name was sent and else \<open>i\<close>, the two-digit counts of cipher suites and
  extensions capped at 99, two alphanumeric characters for the protocol, and two hashes of twelve
  lower-case hexadecimal digits. No ClientHello, however malformed its extensions, breaks the format.\<close>

theorem ja4_shape:
  "\<exists>v s c e p b h. build_ja4 (Some ch) = Some (''t'' @ v @ [s] @ c @ e @ p @ ''_'' @ b @ ''_'' @ h) \<and>
     v \<in> {''13'', ''12'', ''11'', ''10'', ''s3'', ''s2'', ''00''} \<and>
     s = (if EXT_SERVER_NAME \<in> set (extension_types ch) then CHR ''d'' else CHR ''i'') \<and>
     length c = 2 \<and> list_all is_digit c \<and> dec_val c = min (length (no_grease (ch_cipher_suites ch))) 99 \<and>
     length e = 2 \<and> list_all is_digit e \<and> dec_val e = min (length (no_grease (extension_types ch))) 99 \<and>
     length p = 2 \<and> list_all is_alnum p \<and> length b = 12 \<and> list_all lower_hex b \<and> length h = 12 \<and> list_all lower_hex h"
proof -
  let ?v = "case map_of JA4_VERSIONS (ja4_version ch) of Some v \<Rightarrow> v | None \<Rightarrow> ''00''"
  let ?s = "if EXT_SERVER_NAME \<in> set (extension_types ch) then CHR ''d'' else CHR ''i''"
  have v: "?v \<in> {''13'', ''12'', ''11'', ''10'', ''s3'', ''s2'', ''00''}" by (simp add: JA4_VERSIONS_def)
  have "extension_data ch EXT_SERVER_NAME \<noteq> None \<longleftrightarrow> EXT_SERVER_NAME \<in> set (extension_types ch)"
    by (auto simp: extension_data_def extension_types_def map_of_eq_None_iff image_comp o_def
        simp del: EXT_SERVER_NAME_def)
  then have a: "ja4_a ch = ''t'' @ ?v @ [?s] @ two_digits (length (no_grease (ch_cipher_suites ch))) @
      two_digits (length (no_grease (extension_types ch))) @ ja4_alpn (alpn_protocols ch)"
    unfolding ja4_a_def by (simp del: EXT_SERVER_NAME_def)
  have z: "length JA4_EMPTY_HASH = 12 \<and> list_all lower_hex JA4_EMPTY_HASH" by (simp add: JA4_EMPTY_HASH_def lower_hex_def)
  have b: "length (ja4_b ch) = 12 \<and> list_all lower_hex (ja4_b ch)"
    using truncated_sha256_shape z unfolding ja4_b_def Let_def by (auto split: if_split simp del: list.pred_inject)
  have c: "length (ja4_c ch) = 12 \<and> list_all lower_hex (ja4_c ch)"
    using truncated_sha256_shape z unfolding ja4_c_def Let_def by (auto split: if_split simp del: list.pred_inject)
  show ?thesis
    unfolding build_ja4_def option.case a append.assoc
    using v b c ja4_alpn_shape two_digits_shape by blast
qed

section \<open>The Akamai fingerprint\<close>

lemma akamai_frames_stop:
  "fh_type (pf_header h) = FT_HEADERS \<Longrightarrow> akamai_frames (fs @ h # rest) st = akamai_frames fs st"
  by (induction fs st rule: akamai_frames.induct) (auto split: payload.split)

lemma akamai_frames_total:
  "list_all typed_frame fs \<Longrightarrow> \<exists>st'. akamai_frames fs st = Inr st'"
proof (induction fs st rule: akamai_frames.induct)
  case (2 f fs w s ps)
  then show ?case by (cases "pf_payload f") (auto simp: typed_frame_def)
qed (metis akamai_frames.simps(1))


definition sample_window_update :: parsed_frame where
  "sample_window_update = \<lparr>pf_header = \<lparr>fh_length = 4, fh_type = 8, fh_flags = 0, fh_stream_id = 0\<rparr>,
     pf_payload = WindowUpdatePayload 5, pf_raw = [0, 0, 4, 8, 0, 0, 0, 0, 0, 0, 0, 0, 5]\<rparr>"

definition sample_headers :: parsed_frame where
  "sample_headers = \<lparr>pf_header = \<lparr>fh_length = 0, fh_type = 1, fh_flags = 4, fh_stream_id = 1\<rparr>,
     pf_payload = HeadersPayload [] None False True False, pf_raw = [0, 0, 0, 1, 4, 0, 0, 0, 1]\<rparr>"


end
