(* ===== verification/Syn.thy ===== *)
theory Syn
  imports Naming
begin

text \<open>
  \<open>solvetls/tcpip/syn.py\<close>: the report of the client's SYN packet. The theory models
  \<open>parse_syn\<close>, with \<open>socket.inet_ntop\<close> of the Python library (the C library's textual form of an address);
  the two functions on socket options are in \<open>Startup\<close>.
\<close>

unbundle bit_operations_syntax

section \<open>Addresses as text\<close>

definition inet_ntop4 :: "bytes \<Rightarrow> string" where
  "inet_ntop4 a = join_with ''.'' (map (\<lambda>b. str_nat (unat b)) a)"

fun groups16 :: "bytes \<Rightarrow> nat list" where
  "groups16 (a # b # bs) = (unat a * 256 + unat b) # groups16 bs"
| "groups16 _ = []"

text \<open>The first longest run of zero groups, as its start and its length; \<open>i\<close> is the index of the head.\<close>

fun leading_zeros :: "nat list \<Rightarrow> nat" where
  "leading_zeros (0 # ws) = Suc (leading_zeros ws)"
| "leading_zeros _ = 0"

definition best_zero_run :: "nat list \<Rightarrow> nat \<times> nat" where
  "best_zero_run ws =
     foldl (\<lambda>(base, len) i. let l = leading_zeros (drop i ws) in if l > len then (i, l) else (base, len)) (0, 0) [0..<length ws]"

definition inet_ntop6 :: "bytes \<Rightarrow> string" where
  "inet_ntop6 a =
     (let ws = groups16 a; (base, len) = best_zero_run ws;
          text_of = (\<lambda>gs. join_with '':'' (map hex_nat gs))
      in if len < 2 then text_of ws
         else if base = 0 \<and> (len = 6 \<or> len = 5 \<and> ws ! 5 = 0xffff)
         then ''::'' @ (if len = 5 then ''ffff:'' else []) @ inet_ntop4 (drop 12 a)
         else text_of (take base ws) @ ''::'' @ text_of (drop (base + len) ws))"

section \<open>Model\<close>

definition IPV4_HEADER_SIZE :: nat where [simp]: "IPV4_HEADER_SIZE = 20"
definition IPPROTO_TCP :: nat where [simp]: "IPPROTO_TCP = 6"

definition parse_ipv4 :: "(byte_reader, dict) meth" where
  "parse_ipv4 =
     bindM read_uint8 (\<lambda>b. let header_length = (b AND 0x0F) * 4 in
     bindM read_uint8 (\<lambda>_. bindM read_uint16 (\<lambda>_.
     bindM read_uint16 (\<lambda>identification.
     bindM read_uint16 (\<lambda>_.
     bindM read_uint8 (\<lambda>ttl.
     bindM read_uint8 (\<lambda>_. bindM read_uint16 (\<lambda>_.
     bindM (read 4) (\<lambda>src.
     bindM (read 4) (\<lambda>dst.
     bindM (read (int (header_length - IPV4_HEADER_SIZE))) (\<lambda>_.
     ret [(''id'', jnat identification), (''ttl'', jnat ttl), (''ip_version'', jnat 4),
          (''dst_ip'', jstr (inet_ntop4 dst)), (''src_ip'', jstr (inet_ntop4 src))])))))))))))"

definition parse_ipv6 :: "(byte_reader, dict option) meth" where
  "parse_ipv6 =
     bindM (read 4) (\<lambda>_. bindM read_uint16 (\<lambda>_.
     bindM read_uint8 (\<lambda>next_header.
     bindM read_uint8 (\<lambda>hop_limit.
     bindM (read 16) (\<lambda>src.
     bindM (read 16) (\<lambda>dst.
     if next_header \<noteq> IPPROTO_TCP then ret None
     else ret (Some [(''id'', JNull), (''ttl'', jnat hop_limit), (''ip_version'', jnat 6),
            (''dst_ip'', jstr (inet_ntop6 dst)), (''src_ip'', jstr (inet_ntop6 src))])))))))"

definition parse_tcp :: "(byte_reader, dict) meth" where
  "parse_tcp =
     bindM read_uint16 (\<lambda>src_port.
     bindM read_uint16 (\<lambda>dst_port.
     bindM read_uint32 (\<lambda>seq.
     bindM read_uint32 (\<lambda>ack.
     bindM read_uint8 (\<lambda>_. bindM read_uint8 (\<lambda>_.
     bindM read_uint16 (\<lambda>window.
     bindM read_uint16 (\<lambda>checksum.
     bindM read_uint16 (\<lambda>_.
     ret [(''src_port'', jnat src_port), (''dst_port'', jnat dst_port), (''ack'', jnat ack),
          (''checksum'', jnat checksum), (''seq'', jnat seq), (''window'', jnat window)])))))))))"

text \<open>\<open>d.pop(k)\<close>: the value and the remaining dictionary.\<close>

definition pop_item :: "string \<Rightarrow> dict \<Rightarrow> exn + (json \<times> dict)" where
  "pop_item k d = (case map_of d k of Some v \<Rightarrow> Inr (v, dict_pop k d) | None \<Rightarrow> Inl (RuntimeError ''KeyError''))"

definition syn_report :: "nat \<Rightarrow> dict \<Rightarrow> dict \<Rightarrow> exn + dict" where
  "syn_report cap_length ip tcp =
     bindR (pop_item ''dst_port'' tcp) (\<lambda>(dst_port, tcp1).
     bindR (pop_item ''src_port'' tcp1) (\<lambda>(src_port, tcp2).
     Inr [(''cap_length'', jnat cap_length), (''dst_port'', dst_port), (''src_port'', src_port),
          (''ip'', JObj ip), (''tcp'', JObj tcp2)]))"

definition parse_packet :: "bytes \<Rightarrow> exn + dict option" where
  "parse_packet data =
     (let version = drop_bit 4 (unat (hd data)) in
      parses (bindM (if version = 4 then bindM parse_ipv4 (\<lambda>ip. ret (Some ip))
                     else if version = 6 then parse_ipv6 else ret None) (\<lambda>ip.
              case ip of None \<Rightarrow> ret None
              | Some ip \<Rightarrow> bindM parse_tcp (\<lambda>tcp r. (bindR (syn_report (length data) ip tcp) (\<lambda>d. Inr (Some d)), r)))) data)"

definition parse_syn :: "bytes option \<Rightarrow> exn + dict option" where
  "parse_syn data =
     (case data of
        None \<Rightarrow> Inr None
      | Some d \<Rightarrow>
          if d = [] then Inr None
          else (case parse_packet d of
                  Inr r \<Rightarrow> Inr r
                | Inl e \<Rightarrow> if is_ValueError e then Inr None else Inl e))"

section \<open>Packets\<close>

text \<open>The headers of RFC 791, RFC 8200 and RFC 9293, with the fields the report does not use as well.\<close>

record ipv4_header =
  v4_dscp :: nat
  v4_total :: nat
  v4_id :: nat
  v4_fragment :: nat
  v4_ttl :: nat
  v4_protocol :: nat
  v4_checksum :: nat
  v4_src :: bytes
  v4_dst :: bytes
  v4_options :: bytes

definition wf_ipv4 :: "ipv4_header \<Rightarrow> bool" where
  "wf_ipv4 h \<longleftrightarrow> v4_dscp h < 256 \<and> v4_total h < 65536 \<and> v4_id h < 65536 \<and> v4_fragment h < 65536 \<and>
     v4_ttl h < 256 \<and> v4_protocol h < 256 \<and> v4_checksum h < 65536 \<and> length (v4_src h) = 4 \<and>
     length (v4_dst h) = 4 \<and> (\<exists>k \<le> 10. length (v4_options h) = 4 * k)"

definition enc_ipv4 :: "ipv4_header \<Rightarrow> bytes" where
  "enc_ipv4 h = be_bytes 1 (64 + (5 + length (v4_options h) div 4)) @ be_bytes 1 (v4_dscp h) @ be_bytes 2 (v4_total h) @
     be_bytes 2 (v4_id h) @ be_bytes 2 (v4_fragment h) @ be_bytes 1 (v4_ttl h) @ be_bytes 1 (v4_protocol h) @
     be_bytes 2 (v4_checksum h) @ v4_src h @ v4_dst h @ v4_options h"

record ipv6_header =
  v6_flow :: bytes
  v6_payload :: nat
  v6_next :: nat
  v6_hop_limit :: nat
  v6_src :: bytes
  v6_dst :: bytes

definition wf_ipv6 :: "ipv6_header \<Rightarrow> bool" where
  "wf_ipv6 h \<longleftrightarrow> length (v6_flow h) = 4 \<and> drop_bit 4 (unat (hd (v6_flow h))) = 6 \<and> v6_payload h < 65536 \<and> v6_next h < 256 \<and>
     v6_hop_limit h < 256 \<and> length (v6_src h) = 16 \<and> length (v6_dst h) = 16"

definition enc_ipv6 :: "ipv6_header \<Rightarrow> bytes" where
  "enc_ipv6 h = v6_flow h @ be_bytes 2 (v6_payload h) @ be_bytes 1 (v6_next h) @ be_bytes 1 (v6_hop_limit h) @ v6_src h @ v6_dst h"

record tcp_header =
  t_src_port :: nat
  t_dst_port :: nat
  t_seq :: nat
  t_ack :: nat
  t_offset :: nat
  t_flags :: nat
  t_window :: nat
  t_checksum :: nat
  t_urgent :: nat

definition wf_tcp :: "tcp_header \<Rightarrow> bool" where
  "wf_tcp h \<longleftrightarrow> t_src_port h < 65536 \<and> t_dst_port h < 65536 \<and> t_seq h < 4294967296 \<and> t_ack h < 4294967296 \<and>
     t_offset h < 256 \<and> t_flags h < 256 \<and> t_window h < 65536 \<and> t_checksum h < 65536 \<and> t_urgent h < 65536"

definition enc_tcp :: "tcp_header \<Rightarrow> bytes" where
  "enc_tcp h = be_bytes 2 (t_src_port h) @ be_bytes 2 (t_dst_port h) @ be_bytes 4 (t_seq h) @ be_bytes 4 (t_ack h) @
     be_bytes 1 (t_offset h) @ be_bytes 1 (t_flags h) @ be_bytes 2 (t_window h) @ be_bytes 2 (t_checksum h) @ be_bytes 2 (t_urgent h)"

definition tcp_report :: "tcp_header \<Rightarrow> dict" where
  "tcp_report h = [(''ack'', jnat (t_ack h)), (''checksum'', jnat (t_checksum h)), (''seq'', jnat (t_seq h)), (''window'', jnat (t_window h))]"

definition packet_report :: "nat \<Rightarrow> dict \<Rightarrow> tcp_header \<Rightarrow> dict" where
  "packet_report n ip h = [(''cap_length'', jnat n), (''dst_port'', jnat (t_dst_port h)), (''src_port'', jnat (t_src_port h)),
     (''ip'', JObj ip), (''tcp'', JObj (tcp_report h))]"

section \<open>Correctness\<close>

lemma parse_tcp_decodes:
  assumes "wf_tcp h"
  shows "br_decodes parse_tcp [(''src_port'', jnat (t_src_port h)), (''dst_port'', jnat (t_dst_port h)), (''ack'', jnat (t_ack h)),
      (''checksum'', jnat (t_checksum h)), (''seq'', jnat (t_seq h)), (''window'', jnat (t_window h))] (enc_tcp h)"
  unfolding parse_tcp_def enc_tcp_def
  using assms by - (rule decodes_bind decodes_bind_ret br_decodes_uints | force simp: wf_tcp_def)+

lemma parse_ipv4_decodes:
  assumes "wf_ipv4 h"
  shows "br_decodes parse_ipv4 [(''id'', jnat (v4_id h)), (''ttl'', jnat (v4_ttl h)), (''ip_version'', jnat 4),
      (''dst_ip'', jstr (inet_ntop4 (v4_dst h))), (''src_ip'', jstr (inet_ntop4 (v4_src h)))] (enc_ipv4 h)"
proof -
  obtain k where k: "k \<le> 10" "length (v4_options h) = 4 * k" using assms by (auto simp: wf_ipv4_def)
  have mask: "v AND 15 = v mod 16" for v :: nat
    using take_bit_eq_mask [of 4 v] by (simp add: mask_eq_exp_minus_1 take_bit_eq_mod)
  have n: "(64 + (5 + length (v4_options h) div 4)) AND 15 = 5 + k"
  proof -
    have "(64 + (5 + k)) mod 16 = 5 + k" using k(1) by presburger
    then show ?thesis unfolding mask k(2) by simp
  qed
  have d: "br_decodes (read (int (((64 + (5 + length (v4_options h) div 4)) AND 15) * 4 - IPV4_HEADER_SIZE))) (v4_options h) (v4_options h)"
    unfolding n using k by (intro br.decodes_rd) simp
  have e: "enc_ipv4 h = be_bytes 1 (64 + (5 + length (v4_options h) div 4)) @ be_bytes 1 (v4_dscp h) @ be_bytes 2 (v4_total h) @
     be_bytes 2 (v4_id h) @ be_bytes 2 (v4_fragment h) @ be_bytes 1 (v4_ttl h) @ be_bytes 1 (v4_protocol h) @
     be_bytes 2 (v4_checksum h) @ v4_src h @ v4_dst h @ v4_options h"
    by (simp add: enc_ipv4_def)
  show ?thesis
    unfolding parse_ipv4_def e Let_def using assms k
    by - (rule decodes_bind decodes_bind_ret [OF d] br_decodes_uints br.decodes_rd [of _ 4, simplified] | force simp: wf_ipv4_def)+
qed

lemma parse_ipv6_decodes:
  assumes "wf_ipv6 h"
  shows "br_decodes parse_ipv6 (if v6_next h \<noteq> 6 then None else Some [(''id'', JNull), (''ttl'', jnat (v6_hop_limit h)), (''ip_version'', jnat 6),
      (''dst_ip'', jstr (inet_ntop6 (v6_dst h))), (''src_ip'', jstr (inet_ntop6 (v6_src h)))]) (enc_ipv6 h)"
proof -
  have e: "enc_ipv6 h = v6_flow h @ be_bytes 2 (v6_payload h) @ be_bytes 1 (v6_next h) @ be_bytes 1 (v6_hop_limit h) @ v6_src h @ v6_dst h @ []"
    by (simp add: enc_ipv6_def)
  have r: "br_decodes (if n \<noteq> 6 then ret None else ret (Some x)) (if n \<noteq> 6 then None else Some x) []" for n :: nat and x :: dict
    by (simp add: decodes_ret)
  show ?thesis
    unfolding parse_ipv6_def e IPPROTO_TCP_def using assms
    by - (rule decodes_bind r br_decodes_uints br.decodes_rd [of _ 4, simplified] br.decodes_rd [of _ 16, simplified] | force simp: wf_ipv6_def)+
qed

datatype ip_header = V4 ipv4_header | V6 ipv6_header

fun wf_ip :: "ip_header \<Rightarrow> bool" where
  "wf_ip (V4 h) \<longleftrightarrow> wf_ipv4 h"
| "wf_ip (V6 h) \<longleftrightarrow> wf_ipv6 h"

fun enc_ip :: "ip_header \<Rightarrow> bytes" where
  "enc_ip (V4 h) = enc_ipv4 h"
| "enc_ip (V6 h) = enc_ipv6 h"

text \<open>An IPv6 header that is not followed by the TCP header directly has no report.\<close>

fun ip_report :: "ip_header \<Rightarrow> dict option" where
  "ip_report (V4 h) = Some [(''id'', jnat (v4_id h)), (''ttl'', jnat (v4_ttl h)), (''ip_version'', jnat 4),
     (''dst_ip'', jstr (inet_ntop4 (v4_dst h))), (''src_ip'', jstr (inet_ntop4 (v4_src h)))]"
| "ip_report (V6 h) = (if v6_next h \<noteq> 6 then None else Some [(''id'', JNull), (''ttl'', jnat (v6_hop_limit h)), (''ip_version'', jnat 6),
     (''dst_ip'', jstr (inet_ntop6 (v6_dst h))), (''src_ip'', jstr (inet_ntop6 (v6_src h)))])"

definition parse_ip :: "nat \<Rightarrow> (byte_reader, dict option) meth" where
  "parse_ip version = (if version = 4 then bindM parse_ipv4 (\<lambda>ip. ret (Some ip)) else if version = 6 then parse_ipv6 else ret None)"

lemma version_bits: "drop_bit 4 (unat b) = unat (b :: byte) div 16"
  by (simp add: drop_bit_eq_div)

lemma parse_ip_decodes:
  assumes "wf_ip h"
  shows "br_decodes (parse_ip (drop_bit 4 (unat (hd (enc_ip h @ ys))))) (ip_report h) (enc_ip h)"
proof (cases h)
  case (V4 v)
  obtain k where k: "k \<le> 10" "length (v4_options v) = 4 * k" using assms V4 by (auto simp: wf_ipv4_def)
  have "hd (enc_ip h @ ys) = of_nat (64 + (5 + k))" using V4 k by (simp add: enc_ipv4_def)
  moreover have "unat (of_nat (64 + (5 + k)) :: byte) = 64 + (5 + k)" using k unat_of_nat_byte [of "64 + (5 + k)"] by simp
  ultimately have "drop_bit 4 (unat (hd (enc_ip h @ ys))) = 4"
    using k(1) unfolding version_bits by presburger
  then show ?thesis
    using V4 assms parse_ipv4_decodes [of v] by (auto simp: parse_ip_def intro: decodes_bind_ret)
next
  case (V6 v)
  then have "drop_bit 4 (unat (hd (enc_ip h @ ys))) = 6"
    using assms by (cases "v6_flow v") (auto simp: enc_ipv6_def wf_ipv6_def)
  then show ?thesis using V6 assms parse_ipv6_decodes [of v] by (auto simp: parse_ip_def)
qed

lemma syn_report_tcp:
  "syn_report n ip [(''src_port'', jnat (t_src_port t)), (''dst_port'', jnat (t_dst_port t)), (''ack'', jnat (t_ack t)),
      (''checksum'', jnat (t_checksum t)), (''seq'', jnat (t_seq t)), (''window'', jnat (t_window t))] =
   Inr (packet_report n ip t)"
  by (simp add: syn_report_def pop_item_def dict_pop_def packet_report_def tcp_report_def)

lemma parse_packet_split:
  "parse_packet data = parses (bindM (parse_ip (drop_bit 4 (unat (hd data)))) (\<lambda>ip.
     case ip of None \<Rightarrow> ret None
     | Some ip \<Rightarrow> bindM parse_tcp (\<lambda>tcp r. (bindR (syn_report (length data) ip tcp) (\<lambda>d. Inr (Some d)), r)))) data"
  by (simp add: parse_packet_def parse_ip_def Let_def)

lemma decodes_pure: "x = Inr v \<Longrightarrow> decodes rest ok (\<lambda>r. (x, r)) v []"
  by (simp add: decodes_def)

lemma parse_packet_complete:
  assumes "wf_ip h" "wf_tcp t"
  shows "parse_packet (enc_ip h @ enc_tcp t @ rest) =
    Inr (map_option (\<lambda>ip. packet_report (length (enc_ip h @ enc_tcp t @ rest)) ip t) (ip_report h))"
    (is "parse_packet ?d = Inr ?r")
proof (cases "ip_report h")
  case None
  have "br_decodes (bindM (parse_ip (drop_bit 4 (unat (hd ?d)))) (\<lambda>ip. case ip of None \<Rightarrow> ret None
     | Some ip \<Rightarrow> bindM parse_tcp (\<lambda>tcp r. (bindR (syn_report (length ?d) ip tcp) (\<lambda>d. Inr (Some d)), r)))) ?r (enc_ip h @ [])"
    by (rule decodes_bind [OF parse_ip_decodes [OF assms(1)]]) (simp add: None decodes_ret)
  from parses_decodes [OF this, of "enc_tcp t @ rest"] show ?thesis by (simp add: parse_packet_split)
next
  case (Some ip)
  have "br_decodes (bindM parse_tcp (\<lambda>tcp r. (bindR (syn_report (length ?d) ip tcp) (\<lambda>d. Inr (Some d)), r))) ?r (enc_tcp t @ [])"
    by (rule decodes_bind [OF parse_tcp_decodes [OF assms(2)] decodes_pure]) (simp add: syn_report_tcp Some)
  then have "br_decodes (bindM (parse_ip (drop_bit 4 (unat (hd ?d)))) (\<lambda>ip. case ip of None \<Rightarrow> ret None
     | Some ip \<Rightarrow> bindM parse_tcp (\<lambda>tcp r. (bindR (syn_report (length ?d) ip tcp) (\<lambda>d. Inr (Some d)), r)))) ?r (enc_ip h @ enc_tcp t)"
    by (intro decodes_bind [OF parse_ip_decodes [OF assms(1)]]) (simp add: Some)
  from parses_decodes [OF this, of rest] show ?thesis by (simp add: parse_packet_split)
qed

text \<open>Nothing but a short packet can fail, and that has no report.\<close>

lemma outcome_reads [outcome_intros]:
  "outcome (\<lambda>_. True) is_ValueError (read n)" "outcome (\<lambda>_. True) is_ValueError read_uint8"
  "outcome (\<lambda>_. True) is_ValueError read_uint16" "outcome (\<lambda>_. True) is_ValueError read_uint32"
  unfolding read_uints read_be_def
  by (auto simp: outcome_def read_def raise_def bindM_def ret_def)

lemma parse_tcp_outcome:
  "outcome (\<lambda>d. ''dst_port'' \<in> dom (map_of d) \<and> ''src_port'' \<in> dom (map_of d)) is_ValueError parse_tcp"
  unfolding parse_tcp_def by (intro outcome_intros) (simp add: domIff)

lemma syn_report_ports:
  assumes "''dst_port'' \<in> dom (map_of d) \<and> ''src_port'' \<in> dom (map_of d)"
  shows "\<exists>x. syn_report n ip d = Inr x"
  using assms by (auto simp: syn_report_def pop_item_def map_of_dict_pop)

lemma parse_syn_total: "\<exists>r. parse_syn d = Inr r"
proof -
  have ip: "outcome (\<lambda>_. True) is_ValueError (parse_ip v)" for v
    unfolding parse_ip_def parse_ipv4_def parse_ipv6_def Let_def by (intro outcome_intros TrueI)
  have tcp: "outcome (\<lambda>_. True) is_ValueError
      (bindM parse_tcp (\<lambda>tcp r. (bindR (syn_report n ip tcp) (\<lambda>d. Inr (Some d)), r)))" for n ip
  proof (rule outcome_bind_value [OF parse_tcp_outcome])
    fix d :: dict
    assume "''dst_port'' \<in> dom (map_of d) \<and> ''src_port'' \<in> dom (map_of d)"
    then obtain x where "syn_report n ip d = Inr x" using syn_report_ports by blast
    then show "outcome (\<lambda>_. True) is_ValueError (\<lambda>r. (bindR (syn_report n ip d) (\<lambda>d. Inr (Some d)), r))"
      by (simp add: outcome_def)
  qed
  have "outcome (\<lambda>_. True) is_ValueError (bindM (parse_ip v) (\<lambda>ip. case ip of None \<Rightarrow> ret None
     | Some ip \<Rightarrow> bindM parse_tcp (\<lambda>tcp r. (bindR (syn_report n ip tcp) (\<lambda>d. Inr (Some d)), r))))" for v n
    by (intro outcome_bind [OF ip] outcome_option outcome_ret tcp TrueI)
  then have "parse_packet p = Inl e \<Longrightarrow> is_ValueError e" for p e
    unfolding parse_packet_split parses_def outcome_def by (metis old.sum.simps(5))
  then show ?thesis by (cases d) (auto simp: parse_syn_def split: sum.split)
qed

text \<open>C35. The SYN report is exact: for an IPv4 header with any options, or an IPv6 header that
  announces TCP, followed by a TCP header and any further bytes, the report consists of exactly the
  fields of the two headers and the captured length; an IPv6 packet with extension headers has none.\<close>

theorem syn_roundtrip:
  assumes "wf_ip h" and "wf_tcp t"
  shows "parse_syn (Some (enc_ip h @ enc_tcp t @ rest)) =
    Inr (map_option (\<lambda>ip. packet_report (length (enc_ip h) + 20 + length rest) ip t) (ip_report h))"
proof -
  have "enc_tcp t \<noteq> []" "length (enc_tcp t) = 20" by (simp_all add: enc_tcp_def)
  with parse_packet_complete [OF assms, of rest] show ?thesis by (simp add: parse_syn_def add.assoc)
qed

definition sample_tcp :: tcp_header where
  "sample_tcp = \<lparr>t_src_port = 50000, t_dst_port = 443, t_seq = 7, t_ack = 0, t_offset = 80, t_flags = 2,
     t_window = 64240, t_checksum = 9, t_urgent = 0\<rparr>"

definition sample_ipv4 :: ipv4_header where
  "sample_ipv4 = \<lparr>v4_dscp = 0, v4_total = 40, v4_id = 5, v4_fragment = 16384, v4_ttl = 64, v4_protocol = 6,
     v4_checksum = 1, v4_src = [192, 0, 2, 1], v4_dst = [192, 0, 2, 2], v4_options = []\<rparr>"

theorem syn_roundtrip_witness:
  "parse_syn (Some (enc_ip (V4 sample_ipv4) @ enc_tcp sample_tcp @ [])) =
     Inr (Some (packet_report 40 [(''id'', jnat 5), (''ttl'', jnat 64), (''ip_version'', jnat 4),
       (''dst_ip'', jstr (inet_ntop4 [192, 0, 2, 2])), (''src_ip'', jstr (inet_ntop4 [192, 0, 2, 1]))] sample_tcp))"
proof -
  have "wf_ip (V4 sample_ipv4)" "wf_tcp sample_tcp" "length (enc_ip (V4 sample_ipv4)) = 20"
    by (simp_all add: wf_ipv4_def sample_ipv4_def wf_tcp_def sample_tcp_def enc_ipv4_def)
  from syn_roundtrip [OF this(1,2), of "[]"] this(3) show ?thesis by (simp add: sample_ipv4_def)
qed

end
