(* ===== verification/Uri.thy ===== *)
theory Uri
  imports Encodings
begin

text \<open>
  URI handling, \<open>solvetls/uri.py\<close>, with the parts of the Python library it calls: the address
  parser and printer of \<open>ipaddress\<close> and \<open>urllib.parse.urlsplit\<close> (Python 3.12). The four regular
  expressions with percent escapes are one matcher over a character class, \<open>pct_match\<close>; what they
  promise is the interface \<open>pct_class\<close>, interpreted for each of them.
\<close>

section \<open>Character classes and regular expressions\<close>

text \<open>\<open>[A-Za-z0-9\-._~!$&'()*+,;=]\<close>\<close>

definition uri_char :: "char \<Rightarrow> bool" where
  "uri_char c \<longleftrightarrow> is_alnum c \<or> c \<in> set ''-._~!$&()*+,;='' \<or> c = CHR 0x27"

definition user_char :: "char \<Rightarrow> bool" where
  "user_char c \<longleftrightarrow> uri_char c \<or> c = CHR '':''"

definition path_char :: "char \<Rightarrow> bool" where
  "path_char c \<longleftrightarrow> uri_char c \<or> c \<in> set '':@/''"

definition query_char :: "char \<Rightarrow> bool" where
  "query_char c \<longleftrightarrow> uri_char c \<or> c \<in> set '':@/?''"

text \<open>Full match of \<open>(?:[class]|%[0-9A-Fa-f]{2})*\<close>, for a class without the percent sign.\<close>

fun pct_match :: "(char \<Rightarrow> bool) \<Rightarrow> string \<Rightarrow> bool" where
  "pct_match P [] = True"
| "pct_match P (c # s) =
     (if c = CHR ''%''
      then (case s of a # b # r \<Rightarrow> is_hex a \<and> is_hex b \<and> pct_match P r | _ \<Rightarrow> False)
      else P c \<and> pct_match P s)"

definition REG_NAME_RE :: "string \<Rightarrow> bool" where
  "REG_NAME_RE = pct_match uri_char"

definition PATH_RE :: "string \<Rightarrow> bool" where
  "PATH_RE = pct_match path_char"

definition QUERY_RE :: "string \<Rightarrow> bool" where
  "QUERY_RE = pct_match query_char"

definition USER_INFO_RE :: "string \<Rightarrow> bool" where
  "USER_INFO_RE = pct_match user_char"

definition IPV_FUTURE_RE :: "string \<Rightarrow> bool" where
  "IPV_FUTURE_RE s =
     (case s of [] \<Rightarrow> False
      | c # r \<Rightarrow> (c = CHR ''v'' \<or> c = CHR ''V'') \<and> takeWhile is_hex r \<noteq> [] \<and>
          (case dropWhile is_hex r of
             d # u \<Rightarrow> d = CHR ''.'' \<and> u \<noteq> [] \<and> list_all user_char u
           | [] \<Rightarrow> False))"

section \<open>The ipaddress library\<close>

definition hex_value :: "string \<Rightarrow> nat" where
  "hex_value s = foldl (\<lambda>a c. a * 16 + hex_val c) 0 s"

definition parse_hextet :: "string \<Rightarrow> nat option" where
  "parse_hextet s = (if list_all is_hex s \<and> s \<noteq> [] \<and> length s \<le> 4 then Some (hex_value s) else None)"

definition parse_octet :: "string \<Rightarrow> nat option" where
  "parse_octet s =
     (if s = [] \<or> \<not> list_all is_digit s \<or> length s > 3 \<or> (s \<noteq> ''0'' \<and> hd s = CHR ''0'') \<or> dec_val s > 255
      then None else Some (dec_val s))"

fun all_some :: "'a option list \<Rightarrow> 'a list option" where
  "all_some [] = Some []"
| "all_some (x # xs) = (case x of None \<Rightarrow> None | Some v \<Rightarrow> map_option ((#) v) (all_some xs))"

definition ipv4_int :: "string \<Rightarrow> nat option" where
  "ipv4_int s =
     (let octets = split_on CHR ''.'' s in
      if length octets \<noteq> 4 then None
      else map_option (foldl (\<lambda>a b. a * 256 + b) 0) (all_some (map parse_octet octets)))"

text \<open>The colon-separated parts, an IPv4 suffix already converted to two hextets.\<close>

definition ipv6_parts :: "string \<Rightarrow> string list option" where
  "ipv6_parts s =
     (let parts = split_on CHR '':'' s in
      if length parts < 3 then None
      else if CHR ''.'' \<in> set (last parts) then
        (case ipv4_int (last parts) of
           None \<Rightarrow> None
         | Some v \<Rightarrow> Some (butlast parts @ [hex_nat (v div 65536), hex_nat (v mod 65536)]))
      else Some parts)"

definition hextets_value :: "nat list \<Rightarrow> nat" where
  "hextets_value hs = foldl (\<lambda>a h. a * 65536 + h) 0 hs"

text \<open>\<open>IPv6Address._ip_int_from_string\<close>; \<open>None\<close> is an \<open>AddressValueError\<close>.\<close>

definition ipv6_int :: "string \<Rightarrow> nat option" where
  "ipv6_int s =
     (if s = [] then None
      else case ipv6_parts s of
        None \<Rightarrow> None
      | Some parts \<Rightarrow>
          if length parts > 9 then None
          else case filter (\<lambda>i. parts ! i = []) [1 ..< length parts - 1] of
            [] \<Rightarrow> (if length parts \<noteq> 8 \<or> hd parts = [] \<or> last parts = [] then None
                   else map_option hextets_value (all_some (map parse_hextet parts)))
          | [skip_index] \<Rightarrow>
              (let parts_hi = skip_index - (if hd parts = [] then 1 else 0);
                   parts_lo = length parts - skip_index - 1 - (if last parts = [] then 1 else 0)
               in if hd parts = [] \<and> parts_hi \<noteq> 0 \<or> last parts = [] \<and> parts_lo \<noteq> 0
                     \<or> parts_hi + parts_lo > 7 then None
                  else (case all_some (map parse_hextet (take parts_hi parts)) of
                      None \<Rightarrow> None
                    | Some hi \<Rightarrow>
                        map_option (\<lambda>lo. hextets_value (hi @ replicate (8 - (parts_hi + parts_lo)) 0 @ lo))
                          (all_some (map parse_hextet (drop (length parts - parts_lo) parts)))))
          | _ \<Rightarrow> None)"

text \<open>\<open>IPv6Address._compress_hextets\<close>: the first longest run of at least two zero hextets becomes
  the double colon.\<close>

record zero_run =
  best_start :: nat
  best_len :: nat
  run_start :: nat
  run_len :: nat

definition run_step :: "zero_run \<Rightarrow> nat \<times> string \<Rightarrow> zero_run" where
  "run_step z ih = (case ih of (index, hextet) \<Rightarrow>
     if hextet = ''0'' then
       (let start = (if run_len z = 0 then index else run_start z); len = run_len z + 1 in
        if len > best_len z
        then \<lparr>best_start = start, best_len = len, run_start = start, run_len = len\<rparr>
        else z\<lparr>run_start := start, run_len := len\<rparr>)
     else z\<lparr>run_len := 0\<rparr>)"

definition compress_hextets :: "string list \<Rightarrow> string list" where
  "compress_hextets hextets =
     (let z = foldl run_step \<lparr>best_start = 0, best_len = 0, run_start = 0, run_len = 0\<rparr> (enumerate 0 hextets);
          s = best_start z; e = best_start z + best_len z
      in if best_len z > 1
         then (if s = 0 then [[]] else []) @ take s hextets @ [[]] @ drop e hextets @
              (if e = length hextets then [[]] else [])
         else hextets)"

definition ipv6_string :: "nat \<Rightarrow> string" where
  "ipv6_string n =
     join_with '':'' (compress_hextets (map (\<lambda>i. hex_nat (n div 65536 ^ (7 - i) mod 65536)) [0 ..< 8]))"

section \<open>urlsplit\<close>

record split_result =
  sr_scheme :: string
  sr_netloc :: string
  sr_path :: string
  sr_query :: string
  sr_fragment :: string

definition scheme_char :: "char \<Rightarrow> bool" where
  "scheme_char c \<longleftrightarrow> is_alnum c \<or> c \<in> set ''+-.''"

text \<open>\<open>s.rpartition(c)\<close>: before the last occurrence, whether there is one, behind it.\<close>

definition rpartition_at :: "char \<Rightarrow> string \<Rightarrow> string \<times> bool \<times> string" where
  "rpartition_at c s = (case partition_at c (rev s) of (a, f, b) \<Rightarrow> (rev b, f, rev a))"

text \<open>\<open>ipaddress.ip_address(h)\<close> accepts an IPv6 address, possibly with a scope, or an IPv4
  address; the latter is refused between brackets.\<close>

definition check_bracketed_host :: "string \<Rightarrow> bool" where
  "check_bracketed_host hostname =
     (if starts_with ''v'' hostname
      then (let r = tl hostname; t = dropWhile is_hex r in
            takeWhile is_hex r \<noteq> [] \<and> starts_with ''.'' t \<and> tl t \<noteq> [] \<and> CHR 0x0A \<notin> set (tl t))
      else (case partition_at CHR ''%'' hostname of
              (addr, sep, scope) \<Rightarrow>
                \<not> (sep \<and> (scope = [] \<or> CHR ''%'' \<in> set scope)) \<and> CHR ''/'' \<notin> set hostname \<and>
                ipv6_int addr \<noteq> None))"

definition check_bracketed_netloc :: "string \<Rightarrow> bool" where
  "check_bracketed_netloc netloc =
     (case rpartition_at CHR ''@'' netloc of (_, _, hostname_and_port) \<Rightarrow>
      case partition_at CHR ''['' hostname_and_port of (before_bracket, have_open_br, bracketed) \<Rightarrow>
        if have_open_br
        then before_bracket = [] \<and>
             (case partition_at CHR '']'' bracketed of (hostname, _, port) \<Rightarrow>
                (port = [] \<or> starts_with '':'' port) \<and> check_bracketed_host hostname)
        else check_bracketed_host (fst (partition_at CHR '':'' hostname_and_port)))"

definition urlsplit :: "string \<Rightarrow> exn + split_result" where
  "urlsplit url0 =
     (let url1 = filter (\<lambda>c. c \<notin> {CHR 0x09, CHR 0x0D, CHR 0x0A})
                   (dropWhile (\<lambda>c. (of_char c :: nat) \<le> 32) url0);
          (scheme, url2) =
            (case partition_at CHR '':'' url1 of (s, found, r) \<Rightarrow>
             if found \<and> s \<noteq> [] \<and> is_alpha (hd s) \<and> list_all scheme_char s then (lower s, r) else ([], url1));
          (netloc, url3) =
            (if starts_with ''//'' url2
             then (takeWhile (\<lambda>c. c \<notin> set ''/?#'') (drop 2 url2), dropWhile (\<lambda>c. c \<notin> set ''/?#'') (drop 2 url2))
             else ([], url2));
          op = CHR ''['' \<in> set netloc; cl = CHR '']'' \<in> set netloc;
          (url4, _, fragment) = partition_at CHR ''#'' url3;
          (path, _, query) = partition_at CHR ''?'' url4
      in if op \<noteq> cl \<or> op \<and> cl \<and> \<not> check_bracketed_netloc netloc then Inl (ValueError ''Invalid IPv6 URL'')
         else Inr \<lparr>sr_scheme = scheme, sr_netloc = netloc, sr_path = path, sr_query = query,
                   sr_fragment = fragment\<rparr>)"

section \<open>uri.py\<close>

definition split_absolute_uri :: "string \<Rightarrow> exn + split_result" where
  "split_absolute_uri target =
     (let scheme = takeWhile scheme_char target; rest = dropWhile scheme_char target in
      if scheme \<noteq> [] \<and> is_alpha (hd scheme) \<and> starts_with ''://'' rest then
        (let authority = takeWhile (\<lambda>c. c \<notin> set ''/?#'') (drop 3 rest);
             (before, found, host) = rpartition_at CHR ''@'' authority;
             host_start = (if found then length before + 1 else 0);
             position = length scheme + 3 + host_start + 1
         in if starts_with ''[V'' host
            then bindR (urlsplit (take position target @ ''v'' @ drop (position + 1) target))
                   (\<lambda>parsed. Inr (parsed\<lparr>sr_netloc := authority\<rparr>))
            else urlsplit target)
      else urlsplit target)"

text \<open>The host and the port text of an authority.\<close>

definition split_authority :: "string \<Rightarrow> exn + string \<times> string option" where
  "split_authority authority =
     (if starts_with ''['' authority then
        (case partition_at CHR '']'' authority of (before, found, suffix) \<Rightarrow>
          let host = tl before in
          if \<not> found then Inl (ValueError ''Invalid IP literal in authority'')
          else if suffix \<noteq> [] \<and> \<not> starts_with '':'' suffix
          then Inl (ValueError ''Invalid authority after IP literal'')
          else if \<not> IPV_FUTURE_RE host \<and> (CHR ''%'' \<in> set host \<or> ipv6_int host = None)
          then Inl (ValueError ''Invalid IP literal in authority'')
          else Inr (host, if suffix = [] then None else Some (tl suffix)))
      else
        (case partition_at CHR '':'' authority of (host, separator, port_text) \<Rightarrow>
          if \<not> REG_NAME_RE host then Inl (ValueError ''Invalid host in authority'')
          else Inr (host, if separator then Some port_text else None)))"

definition significant :: "string \<Rightarrow> string" where
  "significant port = (if lstrip ''0'' port = [] then ''0'' else lstrip ''0'' port)"

definition check_port :: "bool \<Rightarrow> string option \<Rightarrow> exn + unit" where
  "check_port connect port_opt =
     (case port_opt of None \<Rightarrow> Inr ()
      | Some port \<Rightarrow>
          if port \<noteq> [] \<and> \<not> list_all is_digit port then Inl (ValueError ''Invalid port in authority'')
          else if length (significant port) > 5 \<or> dec_val (significant port) > 65535
          then Inl (ValueError ''Port is out of range'')
          else if connect \<and> significant port = ''0''
          then Inl (ValueError ''CONNECT port must be nonzero'')
          else Inr ())"

definition validate_authority :: "string \<Rightarrow> bool \<Rightarrow> exn + string" where
  "validate_authority authority connect =
     bindR (split_authority authority) (\<lambda>(host, port).
       if connect \<and> (host = [] \<or> port = None \<or> port = Some [])
       then Inl (ValueError ''CONNECT requires a host and explicit port'')
       else bindR (check_port connect port) (\<lambda>_. Inr host))"

definition upper_char :: "char \<Rightarrow> char" where
  "upper_char c = (if is_lower_alpha c then char_of (of_char c - 32 :: nat) else c)"

definition normalize_escape :: "char \<Rightarrow> char \<Rightarrow> string" where
  "normalize_escape a b =
     (let n = hex_value [a, b]; ch = char_of n in
      if n < 128 \<and> (is_alnum ch \<or> ch \<in> set ''-._~'') then [lower_char ch]
      else [CHR ''%'', upper_char a, upper_char b])"

definition is_lower_hex :: "char \<Rightarrow> bool" where
  "is_lower_hex c \<longleftrightarrow> is_digit c \<or> 97 \<le> (of_char c :: nat) \<and> of_char c \<le> (102 :: nat)"

text \<open>\<open>re.sub(r"%[0-9a-f]{2}", normalize_escape, s)\<close>\<close>

fun sub_escapes :: "string \<Rightarrow> string" where
  "sub_escapes (c # a # b # s) =
     (if c = CHR ''%'' \<and> is_lower_hex a \<and> is_lower_hex b then normalize_escape a b @ sub_escapes s
      else c # sub_escapes (a # b # s))"
| "sub_escapes s = s"

definition default_port :: "string \<Rightarrow> nat option" where
  "default_port scheme =
     (if lower scheme = ''http'' then Some 80 else if lower scheme = ''https'' then Some 443 else None)"

definition normalize_authority :: "string \<Rightarrow> string \<Rightarrow> bool \<Rightarrow> exn + string \<times> nat option" where
  "normalize_authority authority scheme connect =
     bindR (validate_authority authority connect) (\<lambda>host.
       let (normalized_host, port_text) =
         (if starts_with ''['' authority then
            (case partition_at CHR '']'' authority of (_, _, suffix) \<Rightarrow>
             (''['' @ (if IPV_FUTURE_RE host then lower host
                       else (case ipv6_int host of Some n \<Rightarrow> ipv6_string n | None \<Rightarrow> [])) @ '']'',
              tl suffix))
          else (sub_escapes (lower host), snd (snd (partition_at CHR '':'' authority))));
         port = (if port_text = [] then None else Some (dec_val (significant port_text)))
       in Inr (normalized_host, if port = None then default_port scheme else port))"

definition validate_path_query :: "string \<Rightarrow> string \<Rightarrow> exn + unit" where
  "validate_path_query path query = guardR (PATH_RE path \<and> QUERY_RE query) (ValueError ''Invalid path or query'')"

section \<open>Percent-escaped classes\<close>

definition printable :: "char \<Rightarrow> bool" where
  "printable c \<longleftrightarrow> 33 \<le> (of_char c :: nat) \<and> of_char c \<le> (126 :: nat)"

lemma is_hex_printable: "is_hex c \<Longrightarrow> printable c"
  by (auto simp: char_class_defs printable_def)

lemma lower_char_eq:
  "\<not> is_alpha c \<Longrightarrow> (of_char c :: nat) < 128 \<Longrightarrow> lower_char a = c \<longleftrightarrow> a = c"
  by (auto simp: lower_char_def Let_def char_class_defs split: if_splits)

lemma lower_char_hex: "is_hex a \<Longrightarrow> is_hex (lower_char a)"
  by (auto simp: char_class_defs lower_char_def Let_def)

lemma lower_char_alnum: "is_alnum a \<Longrightarrow> is_alnum (lower_char a)"
  by (auto simp: char_class_defs lower_char_def Let_def)

locale pct_class =
  fixes P :: "char \<Rightarrow> bool"
  assumes class_printable: "P c \<Longrightarrow> printable c"
    and class_lower: "P c \<Longrightarrow> P (lower_char c)"
    and class_pct: "\<not> P CHR ''%''"
begin

lemma match_set: "pct_match P s \<Longrightarrow> c \<in> set s \<Longrightarrow> P c \<or> c = CHR ''%'' \<or> is_hex c"
  by (induction P s rule: pct_match.induct) (auto split: if_splits list.splits)

lemma match_printable:
  assumes "pct_match P s" and "c \<in> set s"
  shows "printable c"
  using match_set [OF assms] class_printable is_hex_printable by (auto simp: printable_def)

lemma match_append: "pct_match P a \<Longrightarrow> pct_match P b \<Longrightarrow> pct_match P (a @ b)"
  by (induction P a rule: pct_match.induct) (auto split: if_splits list.splits)

lemma match_plain: "list_all P s \<Longrightarrow> pct_match P s"
  by (induction s) (use class_pct in auto)

lemma match_excludes: "pct_match P s \<Longrightarrow> \<not> P c \<Longrightarrow> c \<noteq> CHR ''%'' \<Longrightarrow> \<not> is_hex c \<Longrightarrow> c \<notin> set s"
  using match_set by blast

lemma match_lower: "pct_match P s \<Longrightarrow> pct_match P (lower s)"
proof (induction "length s" arbitrary: s rule: less_induct)
  case less
  show ?case
  proof (cases s)
    case (Cons c t)
    have pc: "lower_char c = CHR ''%'' \<longleftrightarrow> c = CHR ''%''"
      by (rule lower_char_eq) (simp_all add: char_class_defs)
    show ?thesis
    proof (cases "c = CHR ''%''")
      case True
      with less.prems Cons obtain a b r where t: "t = a # b # r" "is_hex a" "is_hex b" "pct_match P r"
        by (auto split: list.splits)
      with less.hyps [of r] Cons True pc show ?thesis by (simp add: lower_def lower_char_hex)
    next
      case False
      with less.hyps [of t] less.prems Cons pc show ?thesis by (simp add: lower_def class_lower)
    qed
  qed (simp add: lower_def)
qed

end

lemma special_lower: "c \<in> set ''-._~!$&()*+,;=:@/?'' \<or> c = CHR 0x27 \<Longrightarrow> lower_char c = c"
  by (auto simp: lower_char_def)

lemma special_printable: "c \<in> set ''-._~!$&()*+,;=:@/?'' \<or> c = CHR 0x27 \<Longrightarrow> printable c"
  by (auto simp: printable_def)

lemma alnum_printable: "is_alnum c \<Longrightarrow> printable c"
  by (auto simp: char_class_defs printable_def)

lemma uri_char_cases: "uri_char c \<longleftrightarrow> is_alnum c \<or> c \<in> set ''-._~!$&()*+,;='' \<or> c = CHR 0x27"
  by (simp add: uri_char_def)

lemma not_alnum_pct: "\<not> is_alnum CHR ''%''"
  by (simp add: char_class_defs)

interpretation reg_name: pct_class uri_char
proof
  fix c
  show "uri_char c \<Longrightarrow> printable c"
    by (cases "is_alnum c") (auto intro: alnum_printable special_printable simp: uri_char_def)
  show "uri_char c \<Longrightarrow> uri_char (lower_char c)"
  proof (cases "is_alnum c")
    case True
    then show ?thesis by (simp add: uri_char_def lower_char_alnum)
  next
    case False
    assume u: "uri_char c"
    with False have "lower_char c = c" by (intro special_lower) (auto simp: uri_char_def)
    with u show ?thesis by simp
  qed
  show "\<not> uri_char CHR ''%''" by (simp add: uri_char_def not_alnum_pct)
qed

lemma pct_class_extend:
  assumes Q: "\<And>c. Q c \<longleftrightarrow> uri_char c \<or> c \<in> E" and E: "E \<subseteq> {CHR '':'', CHR ''@'', CHR ''/'', CHR ''?''}"
  shows "pct_class Q"
proof
  fix c
  have p: "printable c \<and> lower_char c = c" if "c \<in> E"
  proof -
    have "c \<in> {CHR '':'', CHR ''@'', CHR ''/'', CHR ''?''}" using that E by (rule rev_subsetD)
    then show ?thesis by (elim insertE emptyE) (simp_all add: printable_def lower_char_def)
  qed
  show "printable c" if "Q c"
    using that p reg_name.class_printable unfolding Q by (elim disjE) simp_all
  show "Q (lower_char c)" if "Q c"
    using that unfolding Q
  proof (elim disjE)
    assume "uri_char c"
    then show "uri_char (lower_char c) \<or> lower_char c \<in> E" by (simp add: reg_name.class_lower)
  next
    assume "c \<in> E"
    with p show "uri_char (lower_char c) \<or> lower_char c \<in> E" by simp
  qed
  have "CHR ''%'' \<notin> {CHR '':'', CHR ''@'', CHR ''/'', CHR ''?''}" by simp
  then show "\<not> Q CHR ''%''" using E reg_name.class_pct unfolding Q by blast
qed

interpretation user_info: pct_class user_char
  by (rule pct_class_extend [where E = "{CHR '':''}"]) (simp_all add: user_char_def)

interpretation uri_path: pct_class path_char
  by (rule pct_class_extend [where E = "set '':@/''"]) (simp_all add: path_char_def)

interpretation uri_query: pct_class query_char
  by (rule pct_class_extend [where E = "set '':@/?''"]) (simp_all add: query_char_def)

end
