(* ===== verification/Http1.thy ===== *)
theory Http1
  imports Http_Fields Uri
begin

text \<open>
  The HTTP/1.1 request parser, \<open>solvetls/http1.py\<close>: the size check of a head, the request line, the
  header fields, the request target and the framing fields. The regular expressions of the source
  are deterministic (each repetition is followed by a character outside its class), so they are
  written as functions that consume their input from left to right.
\<close>

section \<open>Constants and regular expressions\<close>

definition MAX_HEAD_SIZE :: nat where
  [simp]: "MAX_HEAD_SIZE = 65536"

definition CRLF :: bytes where
  "CRLF = [13, 10]"

definition HEAD_END :: bytes where
  "HEAD_END = [13, 10, 13, 10]"

definition tchar :: "char \<Rightarrow> bool" where
  "tchar c \<longleftrightarrow> is_alnum c \<or> c \<in> set ''!#$%&*+-.^_|~'' \<or> c = CHR 0x27 \<or> c = CHR 0x60"

definition TOKEN_RE :: "string \<Rightarrow> bool" where
  "TOKEN_RE s \<longleftrightarrow> s \<noteq> [] \<and> list_all tchar s"

definition VERSION_RE :: "bytes \<Rightarrow> bool" where
  "VERSION_RE v \<longleftrightarrow> length v = 8 \<and> take 5 (latin1 v) = ''HTTP/'' \<and> is_digit (latin1 v ! 5) \<and>
     latin1 v ! 6 = CHR ''.'' \<and> is_digit (latin1 v ! 7)"

definition SCHEME_RE :: "string \<Rightarrow> bool" where
  "SCHEME_RE s \<longleftrightarrow> (let sch = takeWhile scheme_char s; rest = dropWhile scheme_char s in
     sch \<noteq> [] \<and> is_alpha (hd sch) \<and> starts_with '':'' rest)"

definition skip_blanks :: "string \<Rightarrow> string" where
  "skip_blanks s = dropWhile (\<lambda>c. c \<in> set SP_HTAB) s"

text \<open>The rest of a quoted string behind its opening quotation mark: what follows the closing one.\<close>

fun match_quoted :: "string \<Rightarrow> string option" where
  "match_quoted [] = None"
| "match_quoted (c # s) =
     (if c = CHR 0x22 then Some s
      else if c = CHR 0x5C
      then (case s of [] \<Rightarrow> None | d # r \<Rightarrow> if d = CHR 0x0A then None else match_quoted r)
      else match_quoted s)"

lemma match_quoted_length: "match_quoted s = Some r \<Longrightarrow> length r < length s"
  by (induction s arbitrary: r rule: match_quoted.induct)
    (auto split: if_splits list.splits intro!: less_SucI)

text \<open>The parameters of a transfer coding up to the end of the value.\<close>

definition param_value :: "string \<Rightarrow> string option" where
  "param_value s =
     (case s of [] \<Rightarrow> None
      | c # r \<Rightarrow> if c = CHR 0x22 then match_quoted r
                 else if tchar c then Some (dropWhile tchar s) else None)"

definition match_param :: "string \<Rightarrow> string option" where
  "match_param s =
     (let r1 = skip_blanks s; r2 = skip_blanks (dropWhile tchar r1) in
      if takeWhile tchar r1 \<noteq> [] \<and> starts_with ''='' r2 then param_value (skip_blanks (tl r2)) else None)"

lemma param_value_length: "param_value s = Some r \<Longrightarrow> length r < length s"
  by (auto simp: param_value_def dest: match_quoted_length split: list.splits if_splits)
    (metis le_imp_less_Suc length_dropWhile_le)

lemma match_param_length: "match_param s = Some r \<Longrightarrow> length r < length s"
proof -
  assume a: "match_param s = Some r"
  let ?r1 = "skip_blanks s" and ?r2 = "skip_blanks (dropWhile tchar (skip_blanks s))"
  have "length r < length (skip_blanks (tl ?r2))"
    using a param_value_length by (auto simp: match_param_def Let_def split: if_splits)
  also have "\<dots> \<le> length (tl ?r2)" unfolding skip_blanks_def by (rule length_dropWhile_le)
  also have "\<dots> \<le> length ?r2" by simp
  also have "\<dots> \<le> length (dropWhile tchar ?r1)" unfolding skip_blanks_def by (rule length_dropWhile_le)
  also have "\<dots> \<le> length ?r1" by (rule length_dropWhile_le)
  also have "\<dots> \<le> length s" unfolding skip_blanks_def by (rule length_dropWhile_le)
  finally show ?thesis .
qed

function match_params :: "string \<Rightarrow> bool" where
  "match_params s =
     (case skip_blanks s of
        [] \<Rightarrow> True
      | c # r \<Rightarrow> c = CHR '';'' \<and> (case match_param r of None \<Rightarrow> False | Some r' \<Rightarrow> match_params r'))"
  by pat_completeness auto
termination
proof (relation "measure length", goal_cases)
  case (2 s c r r')
  have "length (c # r) \<le> length s" using 2(1) unfolding skip_blanks_def by (metis length_dropWhile_le)
  with match_param_length [OF 2(2)] show ?case by simp
qed simp

declare match_params.simps [simp del]

text \<open>\<open>_TRANSFER_CODING_RE.fullmatch(value)\<close> and its first group.\<close>

definition TRANSFER_CODING_RE :: "string \<Rightarrow> string option" where
  "TRANSFER_CODING_RE value =
     (let coding = takeWhile tchar value in
      if coding \<noteq> [] \<and> match_params (dropWhile tchar value) then Some coding else None)"

definition KNOWN_TRANSFER_CODINGS :: "string list" where
  "KNOWN_TRANSFER_CODINGS = [''chunked'', ''compress'', ''deflate'', ''gzip'']"

section \<open>The size of a head\<close>

definition find_from :: "bytes \<Rightarrow> nat \<Rightarrow> bytes \<Rightarrow> nat option" where
  "find_from sub start data = map_option ((+) start) (find_sub sub (drop start data))"

definition head_size :: "bytes \<Rightarrow> nat" where
  "head_size data = (case find_sub HEAD_END data of None \<Rightarrow> length data | Some e \<Rightarrow> e + length HEAD_END)"

definition check_head_size :: "bytes \<Rightarrow> bool \<Rightarrow> exn + unit" where
  "check_head_size data incomplete =
     (let no_end = (find_sub HEAD_END data = None);
          too_large = (head_size data > MAX_HEAD_SIZE \<or> incomplete \<and> no_end \<and> head_size data \<ge> MAX_HEAD_SIZE)
      in if \<not> too_large then Inr ()
         else
           let start = (if starts_with CRLF data then 2 else 0);
               line_end = find_from CRLF start data;
               request_line = slice data start (case line_end of None \<Rightarrow> length data | Some e \<Rightarrow> e);
               line_too_large = (case line_end of None \<Rightarrow> True | Some e \<Rightarrow> e + length HEAD_END > MAX_HEAD_SIZE);
               (method, separator, remainder) = partition_at 32 request_line;
               target = fst (partition_at 32 remainder);
               framing_size = start + length method + 14
           in if line_too_large \<and> separator \<and> 0 < int MAX_HEAD_SIZE - int framing_size
                 \<and> int MAX_HEAD_SIZE - int framing_size < int (length target)
              then Inl (HTTP1Error ''Request target too long'' 414)
              else Inl (HTTP1Error ''Request head too large'' 431))"

section \<open>The request target\<close>

definition validate_absolute :: "string \<Rightarrow> exn + unit" where
  "validate_absolute target =
     bindR (case split_absolute_uri target of
              Inl _ \<Rightarrow> Inl (ValueError ''Invalid absolute-form request target'') | Inr p \<Rightarrow> Inr p) (\<lambda>parsed.
     bindR (validate_path_query (sr_path parsed) (sr_query parsed)) (\<lambda>_.
       let has_authority = starts_with ''//'' (snd (snd (partition_at CHR '':'' target)));
           http_scheme = (lower (sr_scheme parsed) \<in> {''http'', ''https''});
           (user_info, at, authority) = rpartition_at CHR ''@'' (sr_netloc parsed)
       in bindR (if has_authority
                 then (if at \<and> (http_scheme \<or> \<not> USER_INFO_RE user_info)
                       then Inl (ValueError ''Invalid user information in absolute-form target'')
                       else bindR (validate_authority authority False) (\<lambda>host. Inr (Some host)))
                 else Inr None) (\<lambda>host.
            if http_scheme \<and> (host = None \<or> host = Some [])
            then Inl (ValueError ''HTTP absolute-form target requires an authority'')
            else Inr ())))"

definition validate_target :: "string \<Rightarrow> string \<Rightarrow> exn + unit" where
  "validate_target method target =
     (if method = ''CONNECT'' then bindR (validate_authority target True) (\<lambda>_. Inr ())
      else if target = ''*'' then
        (if method \<noteq> ''OPTIONS'' then Inl (ValueError ''Asterisk target is only valid for OPTIONS'') else Inr ())
      else if starts_with ''/'' target then
        (case partition_at CHR ''?'' target of (path, _, query) \<Rightarrow> validate_path_query path query)
      else if \<not> SCHEME_RE target \<or> CHR ''#'' \<in> set target then Inl (ValueError ''Invalid request target'')
      else if list_ex (\<lambda>c. (of_char c :: nat) \<le> 32 \<or> (of_char c :: nat) \<ge> 127) target
      then Inl (ValueError ''Invalid character in request target'')
      else validate_absolute target)"

section \<open>Header fields\<close>

record http1_request =
  r_method :: string
  r_path :: string
  r_headers :: "(string \<times> string) list"
  r_raw_head :: bytes

type_synonym field_dict = "(string \<times> string list) list"

text \<open>\<open>fields.setdefault(name, []).append(value)\<close>\<close>

fun fields_append :: "string \<Rightarrow> string \<Rightarrow> field_dict \<Rightarrow> field_dict" where
  "fields_append k v [] = [(k, [v])]"
| "fields_append k v ((k', vs) # d) = (if k' = k then (k', vs @ [v]) # d else (k', vs) # fields_append k v d)"

definition fields_get :: "field_dict \<Rightarrow> string \<Rightarrow> string list" where
  "fields_get flds k = (case map_of flds k of None \<Rightarrow> [] | Some vs \<Rightarrow> vs)"

definition bad_request :: "string \<Rightarrow> exn" where
  "bad_request msg = HTTP1Error msg 400"

definition parse_header_line :: "bytes \<Rightarrow> exn + string \<times> string" where
  "parse_header_line line =
     (if starts_with [32] line \<or> starts_with [9] line
      then Inl (bad_request ''Folded or whitespace-prefixed header field'')
      else case partition_at 58 line of (name, separator, value) \<Rightarrow>
        if \<not> separator then Inl (bad_request ''Header field has no colon'')
        else case ascii_decode name of
          Inl _ \<Rightarrow> Inl (bad_request ''Invalid header field name'')
        | Inr name_text \<Rightarrow>
            if \<not> TOKEN_RE name_text then Inl (bad_request ''Invalid header field name'')
            else if list_ex (\<lambda>b. b < 32 \<and> b \<noteq> 9 \<or> b = 127) value
            then Inl (bad_request ''Invalid control character in header field'')
            else Inr (name_text, latin1 (strip [32, 9] value)))"

fun parse_header_lines :: "bytes list \<Rightarrow> (string \<times> string) list \<Rightarrow> field_dict \<Rightarrow>
    exn + (string \<times> string) list \<times> field_dict" where
  "parse_header_lines [] headers flds = Inr (headers, flds)"
| "parse_header_lines (line # lines) headers flds =
     bindR (parse_header_line line) (\<lambda>(name, value).
       parse_header_lines lines (headers @ [(name, value)]) (fields_append (lower name) value flds))"

section \<open>Framing\<close>

fun check_codings :: "string list \<Rightarrow> string list \<Rightarrow> exn + string list" where
  "check_codings [] codings = Inr codings"
| "check_codings (value # vs) codings =
     (case TRANSFER_CODING_RE value of
        None \<Rightarrow> Inl (bad_request ''Invalid Transfer-Encoding'')
      | Some m \<Rightarrow>
          if lower m = ''chunked'' \<and> CHR '';'' \<in> set value
          then Inl (bad_request ''Chunked transfer coding cannot have parameters'')
          else check_codings vs (codings @ [lower m]))"

definition length_values :: "string list \<Rightarrow> string list" where
  "length_values lengths = concat (map (\<lambda>value. map (strip SP_HTAB) (split_on CHR '','' value)) lengths)"

definition validate_lengths :: "string list \<Rightarrow> exn + unit" where
  "validate_lengths lengths =
     (let values = length_values lengths in
      if list_ex (\<lambda>v. v = [] \<or> \<not> list_all is_digit v) values then Inl (bad_request ''Invalid Content-Length'')
      else if length (remdups (map significant values)) \<noteq> 1
      then Inl (bad_request ''Conflicting Content-Length values'')
      else Inr ())"

definition validate_encodings :: "string list \<Rightarrow> exn + unit" where
  "validate_encodings encodings =
     bindR (case parse_http_list (map Str encodings) of
              Inl e \<Rightarrow> Inl (bad_request (exn_str e)) | Inr vs \<Rightarrow> Inr vs) (\<lambda>coding_values.
     bindR (check_codings coding_values []) (\<lambda>codings.
       if codings = [] \<or> last codings \<noteq> ''chunked'' \<or> count_list codings ''chunked'' \<noteq> 1
       then Inl (bad_request ''Request Transfer-Encoding must end with one chunked coding'')
       else if list_ex (\<lambda>c. c \<notin> set KNOWN_TRANSFER_CODINGS) codings
       then Inl (HTTP1Error ''Transfer coding is not supported'' 501)
       else Inr ()))"

definition validate_framing :: "field_dict \<Rightarrow> exn + unit" where
  "validate_framing flds =
     (let lengths = fields_get flds ''content-length''; encodings = fields_get flds ''transfer-encoding'' in
      if lengths \<noteq> [] \<and> encodings \<noteq> []
      then Inl (bad_request ''Transfer-Encoding and Content-Length cannot be combined'')
      else bindR (if lengths \<noteq> [] then validate_lengths lengths else Inr ()) (\<lambda>_.
           if encodings \<noteq> [] then validate_encodings encodings else Inr ()))"

section \<open>The request\<close>

text \<open>\<open>data.split(b"\\r\\n")\<close>\<close>

fun split_crlf :: "bytes \<Rightarrow> bytes list" where
  "split_crlf [] = [[]]"
| "split_crlf (x # xs) =
     (if x = 13 \<and> starts_with [10] xs then [] # split_crlf (tl xs)
      else (case split_crlf xs of [] \<Rightarrow> [[x]] | p # ps \<Rightarrow> (x # p) # ps))"

text \<open>\<open>raise HTTP1Error(str(exc)) from exc\<close> for a \<open>ValueError\<close>.\<close>

definition as_http1 :: "exn + 'a \<Rightarrow> exn + 'a" where
  "as_http1 r = (case r of Inr x \<Rightarrow> Inr x | Inl e \<Rightarrow> if is_ValueError e then Inl (bad_request (exn_str e)) else Inl e)"

definition parse_request_line :: "bytes \<Rightarrow> exn + string \<times> string" where
  "parse_request_line line =
     (case split_on 32 line of
        [raw_method, raw_target, version] \<Rightarrow>
          if raw_method = [] \<or> raw_target = [] \<or> version = [] then Inl (bad_request ''Invalid request line'')
          else (case (ascii_decode raw_method, ascii_decode raw_target) of
            (Inr method, Inr target) \<Rightarrow>
              if \<not> TOKEN_RE method then Inl (bad_request ''Invalid request method'')
              else if version \<noteq> asc ''HTTP/1.1''
              then Inl (HTTP1Error ''HTTP version is not supported'' (if VERSION_RE version then 505 else 400))
              else bindR (as_http1 (validate_target method target)) (\<lambda>_. Inr (method, target))
          | _ \<Rightarrow> Inl (bad_request ''Request line must be ASCII''))
      | _ \<Rightarrow> Inl (bad_request ''Invalid request line''))"

definition parse_request :: "bytes \<Rightarrow> exn + http1_request" where
  "parse_request raw =
     bindR (check_head_size raw False) (\<lambda>_.
     case find_sub HEAD_END raw of
       None \<Rightarrow> Inl (bad_request ''Request head was not terminated'')
     | Some e \<Rightarrow>
         let raw_head = take (head_size raw) raw;
             lines0 = split_crlf (take (length raw_head - length HEAD_END) raw_head);
             lines = (if lines0 \<noteq> [] \<and> hd lines0 = [] then tl lines0 else lines0)
         in if lines = [] \<or> list_ex (\<lambda>l. 13 \<in> set l \<or> 10 \<in> set l) lines
            then Inl (bad_request ''Invalid request line ending'')
            else
              bindR (parse_request_line (hd lines)) (\<lambda>(method, target).
              bindR (parse_header_lines (tl lines) [] []) (\<lambda>(headers, flds).
                case fields_get flds ''host'' of
                  [host] \<Rightarrow>
                    bindR (as_http1 (validate_authority host False)) (\<lambda>_.
                    bindR (validate_framing flds) (\<lambda>_.
                      Inr \<lparr>r_method = method, r_path = target, r_headers = headers, r_raw_head = raw_head\<rparr>))
                | _ \<Rightarrow> Inl (bad_request ''Exactly one Host header field is required''))))"

end
