(* ===== verification/Uri_Correct.thy ===== *)
theory Uri_Correct
  imports Uri
begin

text \<open>
  What \<open>solvetls/uri.py\<close> promises: the exact grammar of the authorities with a registered name, the
  structure of every accepted authority (which consists of printable ASCII characters only), and
  the equivalences that \<open>normalize_authority\<close> decides.
\<close>

section \<open>Ports\<close>

lemma dec_val_cons_zero: "dec_val (CHR ''0'' # s) = dec_val s"
  by (simp add: dec_val_def)

lemma dec_val_lstrip: "dec_val (lstrip ''0'' s) = dec_val s"
  by (induction s) (auto simp: lstrip_def dec_val_cons_zero)

lemma dec_val_significant: "dec_val (significant s) = dec_val s"
proof (cases "lstrip ''0'' s = []")
  case True
  with dec_val_lstrip [of s] show ?thesis by (simp add: significant_def) (simp add: dec_val_def)
qed (simp add: significant_def dec_val_lstrip)

lemma foldl_dec_ge: "a * 10 ^ length s \<le> foldl (\<lambda>a c. a * 10 + (of_char c - 48)) (a :: nat) s"
proof (induction s arbitrary: a)
  case (Cons c s)
  have "a * 10 ^ length (c # s) \<le> (a * 10 + (of_char c - 48)) * 10 ^ length s" by simp
  also have "\<dots> \<le> foldl (\<lambda>a c. a * 10 + (of_char c - 48)) (a * 10 + (of_char c - 48)) s" by (rule Cons.IH)
  finally show ?case by simp
qed simp

lemma dec_val_ge:
  assumes "s \<noteq> []" and "is_digit (hd s)" and "hd s \<noteq> CHR ''0''"
  shows "10 ^ (length s - 1) \<le> dec_val s"
proof (cases s)
  case (Cons c t)
  have "(of_char c :: nat) \<noteq> of_char CHR ''0''" using assms(3) Cons by (simp only: of_char_eq_iff) simp
  then have "(of_char c :: nat) \<noteq> 48" by simp
  moreover have "48 \<le> (of_char c :: nat)" using assms(2) Cons by (simp add: is_digit_def)
  ultimately have "1 \<le> (of_char c :: nat) - 48" by linarith
  then have "1 * 10 ^ length t \<le> (of_char c - 48 :: nat) * 10 ^ length t" by (rule mult_le_mono1)
  also have "\<dots> \<le> dec_val s" using foldl_dec_ge [of "of_char c - 48" t] Cons by (simp add: dec_val_def)
  finally show ?thesis using Cons by simp
qed (use assms in simp)

lemma lstrip_zero_hd:
  assumes "list_all is_digit s" and "lstrip ''0'' s \<noteq> []"
  shows "is_digit (hd (lstrip ''0'' s))" "hd (lstrip ''0'' s) \<noteq> CHR ''0''"
proof -
  have "hd (lstrip ''0'' s) \<in> set s"
    using hd_in_set [OF assms(2)] set_dropWhile_subset unfolding lstrip_def by (rule rev_subsetD)
  with assms(1) show "is_digit (hd (lstrip ''0'' s))" by (simp add: list_all_iff)
  show "hd (lstrip ''0'' s) \<noteq> CHR ''0''"
    using assms(2) hd_dropWhile_not [of "\<lambda>x. x \<in> set ''0''" s] by (auto simp: lstrip_def)
qed

lemma significant_short:
  assumes "list_all is_digit s" and "dec_val s \<le> 65535"
  shows "length (significant s) \<le> 5"
proof (cases "lstrip ''0'' s = []")
  case False
  let ?t = "lstrip ''0'' s"
  note hd = lstrip_zero_hd [OF assms(1) False]
  from dec_val_ge [OF False hd] have "10 ^ (length ?t - 1) \<le> (65535 :: nat)"
    using assms(2) dec_val_lstrip [of s] by linarith
  then have "(10 :: nat) ^ (length ?t - 1) < 10 ^ 5" by simp
  then have "length ?t - 1 < 5" by (rule power_less_imp_less_exp [rotated]) simp
  then show ?thesis using False by (simp add: significant_def)
qed (simp add: significant_def)

lemma significant_zero: "list_all is_digit s \<Longrightarrow> significant s = ''0'' \<longleftrightarrow> dec_val s = 0"
proof -
  assume d: "list_all is_digit s"
  show ?thesis
  proof (cases "lstrip ''0'' s = []")
    case True
    then show ?thesis using dec_val_significant [of s] by (simp add: significant_def) (simp add: dec_val_def)
  next
    case False
    let ?t = "lstrip ''0'' s"
    note hd = lstrip_zero_hd [OF d False]
    from dec_val_ge [OF False hd] have "0 < dec_val s"
      using dec_val_lstrip [of s] by (metis gr0I le_zero_eq power_eq_0_iff zero_neq_numeral)
    with False hd show ?thesis by (auto simp: significant_def)
  qed
qed

text \<open>A port that is accepted: decimal digits with a value of at most 65535, for CONNECT not zero.\<close>

definition port_ok :: "bool \<Rightarrow> string \<Rightarrow> bool" where
  "port_ok connect p \<longleftrightarrow> list_all is_digit p \<and> dec_val p \<le> 65535 \<and> (connect \<longrightarrow> 0 < dec_val p)"

lemma check_port_iff: "check_port connect (Some p) = Inr () \<longleftrightarrow> port_ok connect p"
proof -
  have "significant [] = ''0''" "dec_val ''0'' = 0" by (simp_all add: significant_def lstrip_def dec_val_def)
  then show ?thesis
    using significant_short [of p] significant_zero [of p]
    by (cases "p = []") (auto simp: check_port_def port_ok_def dec_val_significant split: if_splits)
qed

lemma check_port_None [simp]: "check_port connect None = Inr ()"
  by (simp add: check_port_def)

section \<open>Authorities\<close>

definition port_suffix :: "string option \<Rightarrow> string" where
  "port_suffix port = (case port of None \<Rightarrow> [] | Some p \<Rightarrow> CHR '':'' # p)"

definition port_allowed :: "bool \<Rightarrow> string option \<Rightarrow> bool" where
  "port_allowed connect port \<longleftrightarrow> (case port of None \<Rightarrow> \<not> connect | Some p \<Rightarrow> port_ok connect p)"

lemma validate_authority_iff:
  "validate_authority a connect = Inr host \<longleftrightarrow>
     (\<exists>port. split_authority a = Inr (host, port) \<and> port_allowed connect port \<and> (connect \<longrightarrow> host \<noteq> []))"
proof -
  have "port_ok True []  = False" by (simp add: port_ok_def)
  then have key: "(\<not> (connect \<and> (h = [] \<or> port = None \<or> port = Some [])) \<and> check_port connect port = Inr ()) \<longleftrightarrow>
      port_allowed connect port \<and> (connect \<longrightarrow> h \<noteq> [])" for h port
    by (cases port; cases connect) (auto simp: port_allowed_def check_port_iff)
  have "validate_authority a connect = Inr host \<longleftrightarrow> (\<exists>port. split_authority a = Inr (host, port) \<and>
      \<not> (connect \<and> (host = [] \<or> port = None \<or> port = Some [])) \<and> check_port connect port = Inr ())"
    by (cases "split_authority a") (auto simp: validate_authority_def bindR_eq_Inr split: if_splits)
  then show ?thesis unfolding key by simp
qed

lemma reg_name_no_colon: "REG_NAME_RE h \<Longrightarrow> CHR '':'' \<notin> set h"
  unfolding REG_NAME_RE_def by (rule reg_name.match_excludes) (simp_all add: uri_char_def char_class_defs)

lemma split_reg_name:
  assumes "\<not> starts_with ''['' a"
  shows "split_authority a = Inr (host, port) \<longleftrightarrow> REG_NAME_RE host \<and> a = host @ port_suffix port"
proof
  assume s: "split_authority a = Inr (host, port)"
  obtain h f t where p: "partition_at CHR '':'' a = (h, f, t)" by (cases "partition_at CHR '':'' a") auto
  with s assms have r: "REG_NAME_RE h" "host = h" "port = (if f then Some t else None)"
    by (auto simp: split_authority_def split: if_splits)
  have "a = h @ port_suffix port"
  proof (cases f)
    case True
    with p partition_at_rebuild [of "CHR '':''" a h t] r(3) show ?thesis by (simp add: port_suffix_def)
  next
    case False
    with p have "CHR '':'' \<notin> set a" by (simp add: partition_at_def)
    from partition_at_absent [OF this] p False r(3) show ?thesis by (simp add: port_suffix_def)
  qed
  with r show "REG_NAME_RE host \<and> a = host @ port_suffix port" by simp
next
  assume h: "REG_NAME_RE host \<and> a = host @ port_suffix port"
  with reg_name_no_colon have n: "CHR '':'' \<notin> set host" by blast
  show "split_authority a = Inr (host, port)"
    using h assms partition_at_append [OF n] partition_at_absent [OF n]
    by (cases port) (simp_all add: split_authority_def port_suffix_def)
qed

text \<open>Authorities with a registered name: \<open>validate_authority\<close> returns a host exactly when the
  authority is that host, a sequence of unreserved, sub-delimiter and percent-escaped characters,
  followed by nothing or by a colon and a port of decimal digits (possibly none) with value at
  most 65535; for CONNECT the host is not empty and the port is present and not zero.\<close>

theorem reg_name_authority:
  assumes "\<not> starts_with ''['' a"
  shows "validate_authority a connect = Inr host \<longleftrightarrow>
    (\<exists>port. a = host @ port_suffix port \<and> pct_match uri_char host \<and> port_allowed connect port \<and>
      (connect \<longrightarrow> host \<noteq> []))"
  using split_reg_name [OF assms] by (auto simp: validate_authority_iff REG_NAME_RE_def)

theorem reg_name_authority_witness:
  "validate_authority ''a%2Fb:0443'' True = Inr ''a%2Fb''"
proof -
  have "port_allowed True (Some ''0443'') \<and> pct_match uri_char ''a%2Fb''"
    by (simp add: port_allowed_def port_ok_def dec_val_def uri_char_def char_class_defs)
  then show ?thesis
    by (subst reg_name_authority) (auto simp: port_suffix_def intro!: exI [of _ "Some ''0443''"])
qed

section \<open>Address literals consist of hexadecimal digits, colons and dots\<close>

definition addr_char :: "char \<Rightarrow> bool" where
  "addr_char c \<longleftrightarrow> is_hex c \<or> c = CHR '':'' \<or> c = CHR ''.''"

lemma split_on_cover: "c \<in> set s \<Longrightarrow> c = sep \<or> (\<exists>p \<in> set (split_on sep s). c \<in> set p)"
proof (induction s)
  case (Cons x s)
  obtain q qs where "split_on sep s = q # qs" by (cases "split_on sep s") auto
  with Cons show ?case by auto
qed simp

lemma all_some_defined: "all_some (map f xs) = Some ys \<Longrightarrow> x \<in> set xs \<Longrightarrow> f x \<noteq> None"
  by (induction xs arbitrary: ys) (auto split: option.splits)

lemma parse_hextet_addr: "parse_hextet p \<noteq> None \<Longrightarrow> c \<in> set p \<Longrightarrow> addr_char c"
  by (auto simp: parse_hextet_def addr_char_def list_all_iff split: if_splits)

lemma parse_octet_addr: "parse_octet p \<noteq> None \<Longrightarrow> c \<in> set p \<Longrightarrow> addr_char c"
  by (auto simp: parse_octet_def addr_char_def list_all_iff is_hex_def split: if_splits)

lemma ipv4_addr:
  assumes "ipv4_int s \<noteq> None" and "c \<in> set s"
  shows "addr_char c"
proof -
  from assms(1) obtain v where v: "all_some (map parse_octet (split_on CHR ''.'' s)) = Some v"
    by (auto simp: ipv4_int_def Let_def split: if_splits)
  from split_on_cover [OF assms(2), of "CHR ''.''"] show ?thesis
  proof
    assume "\<exists>p \<in> set (split_on CHR ''.'' s). c \<in> set p"
    then show ?thesis using all_some_defined [OF v] parse_octet_addr by blast
  qed (simp add: addr_char_def)
qed

text \<open>Every part of an accepted address is empty or a hextet.\<close>

definition hextet_or_empty :: "string \<Rightarrow> bool" where
  "hextet_or_empty p \<longleftrightarrow> p = [] \<or> parse_hextet p \<noteq> None"

lemma ipv6_skip_parts:
  assumes skip: "filter (\<lambda>i. parts ! i = []) [1 ..< length parts - 1] = [k]"
    and hi: "hi = k - (if hd parts = [] then 1 else 0)"
    and lo: "lo = length parts - k - 1 - (if last parts = [] then 1 else 0)"
    and ends: "\<not> (hd parts = [] \<and> hi \<noteq> 0)" "\<not> (last parts = [] \<and> lo \<noteq> 0)"
    and a: "all_some (map parse_hextet (take hi parts)) = Some x"
    and b: "all_some (map parse_hextet (drop (length parts - lo) parts)) = Some y"
    and p: "p \<in> set parts"
  shows "hextet_or_empty p"
proof -
  have "k \<in> set (filter (\<lambda>i. parts ! i = []) [1 ..< length parts - 1])" unfolding skip by simp
  then have k: "parts ! k = []" "1 \<le> k" "k < length parts - 1" by auto
  obtain i where i: "i < length parts" "p = parts ! i" using p by (auto simp: in_set_conv_nth)
  have ne: "parts \<noteq> []" using i by auto
  consider "i < k" | "i = k" | "k < i" by linarith
  then show ?thesis
  proof cases
    case 1
    show ?thesis
    proof (cases "hd parts = []")
      case True
      then have "i = 0" using 1 hi ends(1) by auto
      with True i ne show ?thesis by (simp add: hextet_or_empty_def hd_conv_nth)
    next
      case False
      then have "p \<in> set (take hi parts)" using 1 hi i by (auto simp: in_set_conv_nth)
      from all_some_defined [OF a this] show ?thesis by (simp add: hextet_or_empty_def)
    qed
  next
    case 2
    with k i show ?thesis by (simp add: hextet_or_empty_def)
  next
    case 3
    show ?thesis
    proof (cases "last parts = []")
      case True
      then have "length parts - k - 1 - 1 = 0" using lo ends(2) by simp
      then have "i = length parts - 1" using 3 i k by linarith
      with True i ne show ?thesis by (simp add: hextet_or_empty_def last_conv_nth)
    next
      case False
      then have "length parts - lo = k + 1" using lo k by simp
      then have "p \<in> set (drop (length parts - lo) parts)"
        using 3 i by (auto simp: in_set_conv_nth intro!: exI [of _ "i - (k + 1)"])
      from all_some_defined [OF b this] show ?thesis by (simp add: hextet_or_empty_def)
    qed
  qed
qed

lemma ipv6_int_parts:
  assumes "ipv6_int s = Some n"
  obtains parts where "ipv6_parts s = Some parts" "\<forall>p \<in> set parts. hextet_or_empty p"
proof -
  from assms obtain parts where parts: "ipv6_parts s = Some parts"
    by (auto simp: ipv6_int_def split: if_splits option.splits)
  let ?f = "filter (\<lambda>i. parts ! i = []) [1 ..< length parts - 1]"
  have "\<forall>p \<in> set parts. hextet_or_empty p"
  proof (cases ?f)
    case Nil
    with assms parts obtain v where "all_some (map parse_hextet parts) = Some v"
      by (auto simp: ipv6_int_def split: if_splits)
    then show ?thesis using all_some_defined by (fastforce simp: hextet_or_empty_def)
  next
    case (Cons k ks)
    with assms parts have ks: "ks = []" by (cases ks) (auto simp: ipv6_int_def split: if_splits)
    define hi where "hi = k - (if hd parts = [] then 1 else 0)"
    define lo where "lo = length parts - k - 1 - (if last parts = [] then 1 else 0)"
    have f: "?f = [k]" using Cons ks by simp
    from assms parts have
      "\<not> (hd parts = [] \<and> hi \<noteq> 0 \<or> last parts = [] \<and> lo \<noteq> 0 \<or> hi + lo > 7)"
      "\<exists>x. all_some (map parse_hextet (take hi parts)) = Some x"
      "\<exists>y. all_some (map parse_hextet (drop (length parts - lo) parts)) = Some y"
      unfolding ipv6_int_def Let_def
      by (simp_all only: f list.case option.case hi_def [symmetric] lo_def [symmetric])
        (auto split: if_splits option.splits)
    then show ?thesis using ipv6_skip_parts [OF f hi_def lo_def] by blast
  qed
  with parts that show ?thesis by blast
qed

lemma ipv6_addr:
  assumes "ipv6_int s \<noteq> None" and c: "c \<in> set s"
  shows "addr_char c"
proof -
  from assms(1) obtain n where n: "ipv6_int s = Some n" by auto
  from ipv6_int_parts [OF n] obtain parts where
    parts: "ipv6_parts s = Some parts" "\<forall>p \<in> set parts. hextet_or_empty p" by blast
  have he: "addr_char d" if "hextet_or_empty p" "d \<in> set p" for p d
    using that parse_hextet_addr by (auto simp: hextet_or_empty_def)
  from split_on_cover [OF c, of "CHR '':''"] show ?thesis
  proof
    assume "\<exists>p \<in> set (split_on CHR '':'' s). c \<in> set p"
    then obtain p where p: "p \<in> set (split_on CHR '':'' s)" "c \<in> set p" by blast
    show ?thesis
    proof (cases "CHR ''.'' \<in> set (last (split_on CHR '':'' s))")
      case True
      let ?l = "last (split_on CHR '':'' s)"
      from True parts(1) obtain v where v: "ipv4_int ?l = Some v"
        "parts = butlast (split_on CHR '':'' s) @ [hex_nat (v div 65536), hex_nat (v mod 65536)]"
        by (auto simp: ipv6_parts_def Let_def split: if_splits option.splits)
      have "p \<in> set (butlast (split_on CHR '':'' s)) \<or> p = ?l"
        using p(1) append_butlast_last_id [OF split_on_nonempty, of "CHR '':''" s]
        by (metis Un_iff empty_iff empty_set insert_iff list.simps(15) set_append)
      then show ?thesis
      proof
        assume "p = ?l"
        with v(1) p(2) show ?thesis using ipv4_addr [of ?l c] by simp
      next
        assume "p \<in> set (butlast (split_on CHR '':'' s))"
        with v(2) parts(2) p(2) he show ?thesis by auto
      qed
    next
      case False
      with parts p he show ?thesis by (auto simp: ipv6_parts_def Let_def split: if_splits)
    qed
  qed (simp add: addr_char_def)
qed

section \<open>Accepted authorities\<close>

lemma IPV_FUTURE_printable:
  assumes "IPV_FUTURE_RE s" and "c \<in> set s"
  shows "printable c"
proof -
  obtain v r where s: "s = v # r" using assms(1) by (cases s) (auto simp: IPV_FUTURE_RE_def)
  obtain d u where d: "dropWhile is_hex r = d # u" "d = CHR ''.''" "list_all user_char u"
    and v: "v = CHR ''v'' \<or> v = CHR ''V''"
    using assms(1) s by (auto simp: IPV_FUTURE_RE_def split: list.splits)
  have "set r = set (takeWhile is_hex r) \<union> set (d # u)"
    using takeWhile_dropWhile_id [of is_hex r] d(1) by (metis set_append)
  then have "c = v \<or> is_hex c \<or> c = d \<or> user_char c"
    using assms(2) s d(3) by (auto dest: set_takeWhileD simp: list_all_iff)
  then show ?thesis
    using v d(2) is_hex_printable user_info.class_printable by (auto simp: printable_def)
qed

lemma addr_char_printable: "addr_char c \<Longrightarrow> printable c"
  using is_hex_printable by (auto simp: addr_char_def printable_def)

lemma split_bracketed:
  assumes "starts_with ''['' a" and "split_authority a = Inr (host, port)"
  shows "a = ''['' @ host @ '']'' @ port_suffix port" and "\<forall>c \<in> set host. printable c"
proof -
  obtain b f t where p: "partition_at CHR '']'' a = (b, f, t)" by (cases "partition_at CHR '']'' a") auto
  with assms have r: "f" "host = tl b" "t = [] \<or> starts_with '':'' t" "port = (if t = [] then None else Some (tl t))"
    "IPV_FUTURE_RE host \<or> ipv6_int host \<noteq> None"
    by (auto simp: split_authority_def Let_def split: if_splits)
  from p r(1) partition_at_rebuild [of "CHR '']''" a b t] have a: "a = b @ CHR '']'' # t" by simp
  have "b \<noteq> []" using a assms(1) by (cases b) auto
  then have "b = CHR ''['' # host" using a assms(1) r(2) by (cases b) auto
  moreover have "t = port_suffix port" using r(3,4) by (cases t) (auto simp: port_suffix_def)
  ultimately show "a = ''['' @ host @ '']'' @ port_suffix port" using a by simp
  show "\<forall>c \<in> set host. printable c"
    using r(5) IPV_FUTURE_printable ipv6_addr addr_char_printable by blast
qed

lemma authority_shape:
  assumes "validate_authority a connect = Inr host"
  shows "\<exists>port. a = (if starts_with ''['' a then ''['' @ host @ '']'' else host) @ port_suffix port \<and>
    port_allowed connect port \<and> list_all printable a"
proof -
  from assms obtain port where s: "split_authority a = Inr (host, port)" "port_allowed connect port"
    by (auto simp: validate_authority_iff)
  have ps: "list_all printable (port_suffix port)"
    using s(2) by (auto simp: port_suffix_def port_allowed_def port_ok_def list_all_iff is_digit_def
        printable_def split: option.splits)
  show ?thesis
  proof (cases "starts_with ''['' a")
    case True
    with split_bracketed [OF True s(1)] s(2) ps show ?thesis
      by (intro exI [of _ port]) (auto simp: list_all_iff printable_def)
  next
    case False
    from s(1) have "REG_NAME_RE host" and a: "a = host @ port_suffix port"
      unfolding split_reg_name [OF False] by blast+
    then have "list_all printable host"
      using reg_name.match_printable by (auto simp: list_all_iff REG_NAME_RE_def)
    with a ps have "list_all printable a" by simp
    with a False s(2) show ?thesis by auto
  qed
qed

text \<open>No injection through an authority: every accepted authority, of either kind, is the host,
  in brackets if it is an IP literal, followed by the optional port, and all its characters are
  printable ASCII; it contains no control character, no space and no line break.\<close>

theorem authority_printable:
  assumes "validate_authority a connect = Inr host"
  shows "\<exists>port. a = (if starts_with ''['' a then ''['' @ host @ '']'' else host) @ port_suffix port \<and>
    port_allowed connect port \<and> list_all printable a"
  using assms by (rule authority_shape)

theorem authority_printable_witness:
  "validate_authority ''[::1]:80'' False = Inr ''::1'' \<and> list_all printable ''[::1]:80''"
proof -
  have i: "ipv6_int ''::1'' \<noteq> None"
    by (simp add: ipv6_int_def ipv6_parts_def Let_def upt_rec parse_hextet_def char_class_defs)
  have v: "validate_authority ''[::1]:80'' False = Inr ''::1''"
    unfolding validate_authority_iff
    by (rule exI [of _ "Some ''80''"]) (use i in \<open>simp add: Let_def split_authority_def partition_at_def
        port_allowed_def port_ok_def dec_val_def is_digit_def\<close>)
  from authority_printable [OF v] v show ?thesis by blast
qed

section \<open>Normalisation\<close>

definition effective_port :: "string \<Rightarrow> string option \<Rightarrow> nat option" where
  "effective_port scheme port =
     (if port = None \<or> port = Some [] then default_port scheme else Some (dec_val (the port)))"

lemma reg_name_no_bracket: "pct_match uri_char h \<Longrightarrow> \<not> starts_with ''['' (h @ port_suffix p)"
  by (cases h) (auto simp: port_suffix_def uri_char_def char_class_defs split: option.splits if_splits)

lemma sub_escapes_other: "c \<noteq> CHR ''%'' \<Longrightarrow> sub_escapes (c # z) = c # sub_escapes z"
  by (cases z rule: sub_escapes.cases; simp)

lemma lower_hex: "is_hex a \<Longrightarrow> is_lower_hex (lower_char a)"
  by (auto simp: is_lower_hex_def char_class_defs lower_char_def Let_def)

lemma sub_escapes_append:
  "pct_match uri_char x \<Longrightarrow> sub_escapes (lower x @ y) = sub_escapes (lower x) @ sub_escapes y"
proof (induction "length x" arbitrary: x rule: less_induct)
  case less
  show ?case
  proof (cases x)
    case (Cons c t)
    have pc: "lower_char c = CHR ''%'' \<longleftrightarrow> c = CHR ''%''"
      by (rule lower_char_eq) (simp_all add: char_class_defs)
    show ?thesis
    proof (cases "c = CHR ''%''")
      case True
      with less.prems Cons obtain a b r where t: "t = a # b # r" "is_hex a" "is_hex b" "pct_match uri_char r"
        by (auto split: list.splits)
      with less.hyps [of r] Cons True pc show ?thesis by (simp add: lower_def lower_hex)
    next
      case False
      with less.hyps [of t] less.prems Cons pc show ?thesis
        by (simp add: lower_def sub_escapes_other)
    qed
  qed (simp add: lower_def)
qed

text \<open>Normalised authorities: for a registered name the normal form is the lower-case host with
  its escapes normalised together with the effective port, an absent or empty port counting as the
  default port of the scheme and leading zeros of a port being irrelevant; and an escape of an
  unreserved character is equivalent to the character itself.\<close>

theorem normalize_reg_name:
  assumes "pct_match uri_char h" and "port_allowed False p"
  shows "normalize_authority (h @ port_suffix p) scheme False =
      Inr (sub_escapes (lower h), effective_port scheme p) \<and>
    (is_hex x \<and> is_hex y \<and> n = hex_value [lower_char x, lower_char y] \<and> n < 128 \<and>
       (is_alnum (char_of n) \<or> char_of n \<in> set ''-._~'') \<longrightarrow>
     sub_escapes (lower (h @ [CHR ''%'', x, y] @ r)) = sub_escapes (lower (h @ [char_of n] @ r)))"
proof (intro conjI impI)
  let ?a = "h @ port_suffix p"
  note nb = reg_name_no_bracket [OF assms(1)]
  have v: "validate_authority ?a False = Inr h"
    unfolding validate_authority_iff split_reg_name [OF nb] using assms by (auto simp: REG_NAME_RE_def)
  have nc: "CHR '':'' \<notin> set h" using reg_name_no_colon assms(1) by (simp add: REG_NAME_RE_def)
  have "partition_at CHR '':'' ?a = (h, p \<noteq> None, case p of None \<Rightarrow> [] | Some q \<Rightarrow> q)"
    using partition_at_append [OF nc] partition_at_absent [OF nc] by (cases p) (simp_all add: port_suffix_def)
  then show "normalize_authority ?a scheme False = Inr (sub_escapes (lower h), effective_port scheme p)"
    using v nb by (cases p) (auto simp: normalize_authority_def effective_port_def dec_val_significant)
next
  assume a: "is_hex x \<and> is_hex y \<and> n = hex_value [lower_char x, lower_char y] \<and> n < 128 \<and>
       (is_alnum (char_of n) \<or> char_of n \<in> set ''-._~'')"
  have pc: "lower_char CHR ''%'' = CHR ''%''" by (simp add: lower_char_def)
  let ?c = "lower_char (char_of n)"
  have "?c \<noteq> CHR ''%''"
  proof
    assume "?c = CHR ''%''"
    then have "char_of n = CHR ''%''" by (subst (asm) lower_char_eq) (simp_all add: char_class_defs)
    with a show False by (simp add: char_class_defs)
  qed
  then have "sub_escapes (?c # lower r) = ?c # sub_escapes (lower r)" by (rule sub_escapes_other)
  moreover have "sub_escapes (CHR ''%'' # lower_char x # lower_char y # lower r) = ?c # sub_escapes (lower r)"
    using a by (auto simp: lower_hex normalize_escape_def Let_def)
  ultimately show "sub_escapes (lower (h @ [CHR ''%'', x, y] @ r)) = sub_escapes (lower (h @ [char_of n] @ r))"
    using sub_escapes_append [OF assms(1)] pc by (simp add: lower_def)
qed

theorem normalize_reg_name_witness:
  "normalize_authority ''Ex.org:0443'' ''HTTPS'' False = normalize_authority ''eX.ORG'' ''https'' False"
proof -
  have "pct_match uri_char ''Ex.org'' \<and> pct_match uri_char ''eX.ORG'' \<and> port_allowed False (Some ''0443'') \<and>
      port_allowed False None"
    by (simp add: port_allowed_def port_ok_def dec_val_def uri_char_def char_class_defs)
  then have n: "normalize_authority (''Ex.org'' @ port_suffix (Some ''0443'')) ''HTTPS'' False =
        Inr (sub_escapes (lower ''Ex.org''), effective_port ''HTTPS'' (Some ''0443''))"
      "normalize_authority (''eX.ORG'' @ port_suffix None) ''https'' False =
        Inr (sub_escapes (lower ''eX.ORG''), effective_port ''https'' None)"
    using normalize_reg_name by blast+
  have l: "lower ''Ex.org'' = ''ex.org''" "lower ''eX.ORG'' = ''ex.org''" "lower ''HTTPS'' = ''https''"
    "lower ''https'' = ''https''"
    by code_simp+
  show ?thesis
    using n unfolding l by (simp add: port_suffix_def effective_port_def default_port_def l dec_val_def)
qed

end
