(* ===== verification/Http1_Correct.thy ===== *)
theory Http1_Correct
  imports Http1 Uri_Correct
begin

text \<open>
  What the HTTP/1.1 request parser promises: the head it returns is exactly the bytes up to the first
  empty line, nothing behind it matters, the framing is unambiguous, every part of an accepted
  request is free of control characters, every rejection carries one of five status codes, and every
  well-formed request is accepted.
\<close>

section \<open>Header fields and the field dictionary\<close>

definition values_of :: "string \<Rightarrow> (string \<times> string) list \<Rightarrow> string list" where
  "values_of k headers = map snd (filter (\<lambda>(n, v). lower n = k) headers)"

lemma fields_get_append:
  "fields_get (fields_append k v d) k' = (if k' = k then fields_get d k @ [v] else fields_get d k')"
  by (induction k v d rule: fields_append.induct) (auto simp: fields_get_def)

lemma parse_header_lines_append:
  "parse_header_lines lines hs d = Inr (headers, flds) \<Longrightarrow>
     \<exists>new. headers = hs @ new \<and> (\<forall>k. fields_get flds k = fields_get d k @ values_of k new) \<and>
       list_all2 (\<lambda>l h. parse_header_line l = Inr h) lines new"
proof (induction lines hs d rule: parse_header_lines.induct)
  case (1 hs d)
  then show ?case by (auto simp: values_of_def)
next
  case (2 line lines hs d)
  from "2.prems" obtain n v where h: "parse_header_line line = Inr (n, v)"
    and r: "parse_header_lines lines (hs @ [(n, v)]) (fields_append (lower n) v d) = Inr (headers, flds)"
    by (auto simp: bindR_eq_Inr)
  from "2.IH" [OF r] obtain new where new: "headers = (hs @ [(n, v)]) @ new"
    "\<forall>k. fields_get flds k = fields_get (fields_append (lower n) v d) k @ values_of k new"
    "list_all2 (\<lambda>l h. parse_header_line l = Inr h) lines new" by blast
  then show ?case
    using h by (intro exI [of _ "(n, v) # new"]) (auto simp: fields_get_append values_of_def)
qed

lemma parse_header_lines_result:
  assumes "parse_header_lines lines [] [] = Inr (headers, flds)"
  shows "fields_get flds k = values_of k headers" "list_all2 (\<lambda>l h. parse_header_line l = Inr h) lines headers"
  using parse_header_lines_append [OF assms] by (auto simp: fields_get_def)

lemma parse_header_lines_complete:
  "list_all2 (\<lambda>l h. parse_header_line l = Inr h) lines new \<Longrightarrow>
     \<exists>flds. parse_header_lines lines hs d = Inr (hs @ new, flds)"
proof (induction lines new arbitrary: hs d rule: list_all2_induct)
  case (Cons l ls h new)
  obtain n v where h: "h = (n, v)" by (cases h)
  from Cons(3) [of "hs @ [(n, v)]" "fields_append (lower n) v d"] Cons(1) h show ?case by auto
qed simp

text \<open>The text of an accepted field.\<close>

definition field_char :: "char \<Rightarrow> bool" where
  "field_char c \<longleftrightarrow> c = CHR 0x09 \<or> 32 \<le> (of_char c :: nat) \<and> of_char c \<noteq> (127 :: nat)"

definition field_value_ok :: "string \<Rightarrow> bool" where
  "field_value_ok v \<longleftrightarrow> list_all field_char v \<and>
     (v \<noteq> [] \<longrightarrow> hd v \<notin> set SP_HTAB \<and> last v \<notin> set SP_HTAB)"

lemma byte_char_eq: "byte_char b = c \<longleftrightarrow> b = char_byte c"
  by (metis byte_char_byte char_byte_char)

lemma field_char_byte: "field_char (byte_char b) \<longleftrightarrow> \<not> (b < 32 \<and> b \<noteq> 9 \<or> b = 127)"
proof -
  have 9: "byte_char b = CHR 0x09 \<longleftrightarrow> b = 9" by (simp add: byte_char_eq char_byte_def)
  have "b = 127 \<longleftrightarrow> unat b = 127" "b < 32 \<longleftrightarrow> unat b < 32"
    by (auto simp: word_less_nat_alt unat_arith_simps)
  then show ?thesis unfolding field_char_def 9 by auto
qed

lemma blank_byte: "byte_char b \<in> set SP_HTAB \<longleftrightarrow> b \<in> set [32, 9]"
  by (simp add: SP_HTAB_def byte_char_eq char_byte_def)

lemma parse_header_line_accepts:
  assumes "parse_header_line line = Inr (n, v)"
  shows "TOKEN_RE n" "field_value_ok v"
proof -
  obtain name sep val where p: "partition_at 58 line = (name, sep, val)"
    by (cases "partition_at 58 line") auto
  with assms have r: "TOKEN_RE n" "v = latin1 (strip [32, 9] val)" "\<not> list_ex (\<lambda>b. b < 32 \<and> b \<noteq> 9 \<or> b = 127) val"
    by (auto simp: parse_header_line_def split: if_splits sum.splits)
  show "TOKEN_RE n" by (rule r)
  let ?w = "strip [32, 9] val"
  have "\<forall>b \<in> set ?w. field_char (byte_char b)"
    using r(3) set_strip [of "[32, 9]" val] by (auto simp: list_ex_iff field_char_byte)
  then have a: "list_all field_char v" by (auto simp: r(2) latin1_def list_all_iff)
  have "hd v \<notin> set SP_HTAB \<and> last v \<notin> set SP_HTAB" if "v \<noteq> []"
  proof -
    have w: "?w \<noteq> []" using that r(2) by (auto simp: latin1_def)
    then have "hd v = byte_char (hd ?w)" "last v = byte_char (last ?w)"
      by (simp_all add: r(2) latin1_def hd_map last_map)
    then show ?thesis using hd_strip [OF w] last_strip [OF w] by (simp only: blank_byte not_False_eq_True simp_thms)
  qed
  with a show "field_value_ok v" by (simp add: field_value_ok_def)
qed

section \<open>The parts of an accepted request\<close>

definition head_lines :: "bytes \<Rightarrow> nat \<Rightarrow> bytes list" where
  "head_lines raw e = (let lines0 = split_crlf (take e raw) in
     if lines0 \<noteq> [] \<and> hd lines0 = [] then tl lines0 else lines0)"

definition parse_lines :: "bytes \<Rightarrow> bytes list \<Rightarrow> exn + http1_request" where
  "parse_lines raw_head lines =
     (if lines = [] \<or> list_ex (\<lambda>l. 13 \<in> set l \<or> 10 \<in> set l) lines
      then Inl (bad_request ''Invalid request line ending'')
      else
        bindR (parse_request_line (hd lines)) (\<lambda>(method, target).
        bindR (parse_header_lines (tl lines) [] []) (\<lambda>(headers, flds).
          case fields_get flds ''host'' of
            [host] \<Rightarrow>
              bindR (as_http1 (validate_authority host False)) (\<lambda>_.
              bindR (validate_framing flds) (\<lambda>_.
                Inr \<lparr>r_method = method, r_path = target, r_headers = headers, r_raw_head = raw_head\<rparr>))
          | _ \<Rightarrow> Inl (bad_request ''Exactly one Host header field is required''))))"

lemma length_HEAD_END [simp]: "length HEAD_END = 4"
  by (simp add: HEAD_END_def)

lemma length_CRLF [simp]: "length CRLF = 2"
  by (simp add: CRLF_def)

lemma head_size_Some: "find_sub HEAD_END raw = Some e \<Longrightarrow> head_size raw = e + 4"
  by (simp add: head_size_def)

lemma parse_request_Some:
  assumes e: "find_sub HEAD_END raw = Some e"
  shows "parse_request raw = bindR (check_head_size raw False) (\<lambda>_. parse_lines (take (e + 4) raw) (head_lines raw e))"
proof -
  have "e + 4 \<le> length raw" using find_sub_bound [OF e] by simp
  then have "take (length (take (e + 4) raw) - length HEAD_END) (take (e + 4) raw) = take e raw"
    by (simp add: min_def)
  then show ?thesis
    unfolding parse_request_def head_size_Some [OF e] e parse_lines_def head_lines_def Let_def by simp
qed

lemma check_head_size_ok:
  assumes "find_sub HEAD_END raw = Some e"
  shows "check_head_size raw incomplete = Inr () \<longleftrightarrow> e + 4 \<le> 65536"
  using assms by (auto simp: check_head_size_def Let_def head_size_Some split: prod.splits)

lemma as_http1_eq_Inr [simp]: "as_http1 r = Inr x \<longleftrightarrow> r = Inr x"
  by (cases r) (auto simp: as_http1_def)

lemma parse_linesD:
  assumes "parse_lines raw_head lines = Inr r"
  obtains flds host h where "lines \<noteq> []" "\<forall>l \<in> set lines. 13 \<notin> set l \<and> 10 \<notin> set l"
    "parse_request_line (hd lines) = Inr (r_method r, r_path r)"
    "parse_header_lines (tl lines) [] [] = Inr (r_headers r, flds)"
    "fields_get flds ''host'' = [host]" "validate_authority host False = Inr h"
    "validate_framing flds = Inr ()" "r_raw_head r = raw_head"
proof -
  from assms have l: "lines \<noteq> []" "\<forall>l \<in> set lines. 13 \<notin> set l \<and> 10 \<notin> set l"
    by (auto simp: parse_lines_def list_ex_iff split: if_splits)
  with assms obtain m t hs flds where p: "parse_request_line (hd lines) = Inr (m, t)"
    "parse_header_lines (tl lines) [] [] = Inr (hs, flds)"
    and c: "(case fields_get flds ''host'' of [host] \<Rightarrow>
              bindR (as_http1 (validate_authority host False)) (\<lambda>_.
              bindR (validate_framing flds) (\<lambda>_.
                Inr \<lparr>r_method = m, r_path = t, r_headers = hs, r_raw_head = raw_head\<rparr>))
          | _ \<Rightarrow> Inl (bad_request ''Exactly one Host header field is required'')) = Inr r"
    by (auto simp: parse_lines_def bindR_eq_Inr list_ex_iff split: if_splits)
  from c obtain host where h: "fields_get flds ''host'' = [host]"
    by (cases "fields_get flds ''host''" rule: remdups_adj.cases) auto
  with c obtain x where "validate_authority host False = Inr x" "validate_framing flds = Inr ()"
    "r = \<lparr>r_method = m, r_path = t, r_headers = hs, r_raw_head = raw_head\<rparr>"
    by (auto simp: bindR_eq_Inr)
  with l p h that show ?thesis by simp
qed

lemma parse_requestD:
  assumes "parse_request raw = Inr r"
  obtains e where "find_sub HEAD_END raw = Some e" "e + 4 \<le> 65536" "e + 4 \<le> length raw"
    "parse_lines (take (e + 4) raw) (head_lines raw e) = Inr r" "r_raw_head r = take (e + 4) raw"
proof -
  obtain e where e: "find_sub HEAD_END raw = Some e"
    using assms by (auto simp: parse_request_def bindR_eq_Inr split: option.splits)
  with assms have c: "check_head_size raw False = Inr ()" "parse_lines (take (e + 4) raw) (head_lines raw e) = Inr r"
    by (auto simp: parse_request_Some bindR_eq_Inr)
  have "r_raw_head r = take (e + 4) raw" using c(2) by (rule parse_linesD)
  moreover have "e + 4 \<le> length raw" using find_sub_bound [OF e] by simp
  moreover have "e + 4 \<le> 65536" using check_head_size_ok [OF e] c(1) by simp
  ultimately show ?thesis using that e c(2) by blast
qed

section \<open>Only the head matters\<close>

lemma crlf_in_head:
  assumes e: "find_sub HEAD_END raw = Some e" and st: "start \<le> 2"
  shows "find_sub CRLF (drop start raw) \<noteq> None"
proof
  assume n: "find_sub CRLF (drop start raw) = None"
  have le: "e + 4 \<le> length raw" using find_sub_bound [OF e] by simp
  from find_sub_SomeD [OF e] have "take 4 (drop e raw) = HEAD_END" by (simp add: starts_with_def)
  then have "drop 2 (take 4 (drop e raw)) = CRLF" by (simp add: HEAD_END_def CRLF_def)
  then have "take 2 (drop (e + 2) raw) = CRLF" by (simp add: drop_take add.commute)
  then have "starts_with CRLF (drop (e + 2 - start) (drop start raw))"
    using st by (simp add: starts_with_def add.commute)
  moreover have "\<not> starts_with CRLF (drop (e + 2 - start) (drop start raw))"
    by (rule find_sub_NoneD [OF n]) (use le st in simp)
  ultimately show False by contradiction
qed

lemma check_head_size_append:
  assumes e: "find_sub HEAD_END raw = Some e"
  shows "check_head_size (raw @ ys) i = check_head_size raw i"
proof -
  note e' = find_sub_append [OF e, of ys]
  have le: "e + 4 \<le> length raw" using find_sub_bound [OF e] by simp
  have st: "starts_with CRLF (raw @ ys) = starts_with CRLF raw"
    using le by (intro starts_with_append_iff) (simp add: CRLF_def)
  define start where "start = (if starts_with CRLF raw then 2 else 0 :: nat)"
  have s2: "start \<le> 2" by (simp add: start_def)
  obtain k where k: "find_sub CRLF (drop start raw) = Some k" using crlf_in_head [OF e s2] by auto
  have d: "drop start (raw @ ys) = drop start raw @ ys" using s2 le by simp
  have f: "find_from CRLF start (raw @ ys) = Some (start + k)" "find_from CRLF start raw = Some (start + k)"
    using find_sub_append [OF k, of ys] k unfolding find_from_def d by simp_all
  have "start + k \<le> length raw" using find_sub_bound [OF k] s2 le by simp
  then have sl: "slice (raw @ ys) start (start + k) = slice raw start (start + k)" by (rule slice_append_left)
  show ?thesis
    unfolding check_head_size_def head_size_Some [OF e] head_size_Some [OF e'] e e' st start_def [symmetric] f Let_def
    by (simp add: sl)
qed

lemma request_body_irrelevant_aux:
  assumes "find_sub HEAD_END raw = Some e"
  shows "parse_request (raw @ body) = parse_request raw"
proof -
  have "e + 4 \<le> length raw" using find_sub_bound [OF assms] by simp
  then show ?thesis
    using parse_request_Some [OF assms] parse_request_Some [OF find_sub_append [OF assms]]
      check_head_size_append [OF assms] by (simp add: head_lines_def)
qed

section \<open>The text of an accepted request\<close>

lemma path_query_printable:
  assumes "partition_at CHR ''?'' t = (p, f, q)" and "validate_path_query p q = Inr ()"
  shows "list_all printable t"
proof -
  have "pct_match path_char p" "pct_match query_char q"
    using assms(2) by (simp_all add: validate_path_query_def PATH_RE_def QUERY_RE_def)
  then have pq: "list_all printable p" "list_all printable q"
    using uri_path.match_printable uri_query.match_printable unfolding list_all_iff by blast+
  show ?thesis
  proof (cases "CHR ''?'' \<in> set t")
    case True
    then have "f" using assms(1) by (simp add: partition_at_def)
    with assms(1) have "t = p @ CHR ''?'' # q" using partition_at_rebuild [of _ t p q] by simp
    with pq show ?thesis by (simp add: printable_def)
  next
    case False
    from partition_at_absent [OF this] assms(1) pq(1) show ?thesis by simp
  qed
qed

lemma target_printable:
  assumes "validate_target m t = Inr ()"
  shows "list_all printable t"
proof -
  consider "m = ''CONNECT''" | "t = ''*''" | "m \<noteq> ''CONNECT''" "t \<noteq> ''*''" "starts_with ''/'' t"
    | "m \<noteq> ''CONNECT''" "t \<noteq> ''*''" "\<not> starts_with ''/'' t" by blast
  then show ?thesis
  proof cases
    case 1
    then obtain h where "validate_authority t True = Inr h"
      using assms by (auto simp: validate_target_def bindR_eq_Inr)
    then show ?thesis using authority_shape by blast
  next
    case 2
    then show ?thesis by (simp add: printable_def)
  next
    case 3
    then show ?thesis
      using assms by (cases "partition_at CHR ''?'' t") (auto simp: validate_target_def intro: path_query_printable)
  next
    case 4
    then have "\<not> list_ex (\<lambda>c. (of_char c :: nat) \<le> 32 \<or> (of_char c :: nat) \<ge> 127) t"
      using assms by (auto simp: validate_target_def split: if_splits)
    then show ?thesis by (auto simp: list_ex_iff list_all_iff printable_def)
  qed
qed

lemma parse_request_lineD:
  assumes "parse_request_line line = Inr (m, t)"
  shows "TOKEN_RE m" "t \<noteq> []" "validate_target m t = Inr ()"
  using assms
  by (auto simp: parse_request_line_def bindR_eq_Inr ascii_decode_def
      split: list.splits sum.splits if_splits)

section \<open>Framing\<close>

lemma check_codings_result:
  "check_codings vs acc = Inr codings \<Longrightarrow>
     \<exists>ms. codings = acc @ map lower ms \<and> list_all2 (\<lambda>v m. TRANSFER_CODING_RE v = Some m \<and>
       (lower m = ''chunked'' \<longrightarrow> CHR '';'' \<notin> set v)) vs ms"
proof (induction vs acc rule: check_codings.induct)
  case (2 v vs acc)
  from "2.prems" obtain m where m: "TRANSFER_CODING_RE v = Some m" "lower m = ''chunked'' \<longrightarrow> CHR '';'' \<notin> set v"
    "check_codings vs (acc @ [lower m]) = Inr codings"
    by (auto split: option.splits if_splits)
  from "2.IH" [OF m(1) _ m(3)] m(2) obtain ms where "codings = (acc @ [lower m]) @ map lower ms"
    "list_all2 (\<lambda>v m. TRANSFER_CODING_RE v = Some m \<and> (lower m = ''chunked'' \<longrightarrow> CHR '';'' \<notin> set v)) vs ms"
    by auto
  with m show ?case by (intro exI [of _ "m # ms"]) simp
qed simp

text \<open>A body with chunked framing: the last coding, and only the last, is chunked, it has no
  parameters, and all codings are known.\<close>

definition chunked_framing :: "string list \<Rightarrow> bool" where
  "chunked_framing encodings \<longleftrightarrow> (\<exists>vs ms. parse_http_list (map Str encodings) = Inr vs \<and>
     list_all2 (\<lambda>v m. TRANSFER_CODING_RE v = Some m) vs ms \<and> vs \<noteq> [] \<and>
     lower (last ms) = ''chunked'' \<and> CHR '';'' \<notin> set (last vs) \<and> ''chunked'' \<notin> lower ` set (butlast ms) \<and>
     lower ` set ms \<subseteq> set KNOWN_TRANSFER_CODINGS)"

definition length_framing :: "string list \<Rightarrow> bool" where
  "length_framing lengths \<longleftrightarrow> (\<exists>n. \<forall>v \<in> set (length_values lengths). v \<noteq> [] \<and> list_all is_digit v \<and> dec_val v = n)"

lemma last_only_chunked:
  assumes "xs \<noteq> []" and "last xs = c" and "count_list xs c = 1"
  shows "c \<notin> set (butlast xs)"
proof
  assume "c \<in> set (butlast xs)"
  then have "0 < count_list (butlast xs) c" by (metis count_list_0_iff gr0I)
  moreover have "count_list xs c = count_list (butlast xs) c + count_list [last xs] c"
    using append_butlast_last_id [OF assms(1)] by (metis count_list_append)
  ultimately show False using assms(2,3) by simp
qed

lemma validate_encodingsD:
  assumes "validate_encodings encodings = Inr ()"
  shows "chunked_framing encodings"
proof -
  from assms obtain vs codings where vs: "parse_http_list (map Str encodings) = Inr vs"
    "check_codings vs [] = Inr codings" and c: "codings \<noteq> []" "last codings = ''chunked''"
      "count_list codings ''chunked'' = 1" "\<forall>c \<in> set codings. c \<in> set KNOWN_TRANSFER_CODINGS"
    by (auto simp: validate_encodings_def bindR_eq_Inr list_ex_iff split: sum.splits if_splits)
  from check_codings_result [OF vs(2)] obtain ms where ms: "codings = map lower ms"
    "list_all2 (\<lambda>v m. TRANSFER_CODING_RE v = Some m \<and> (lower m = ''chunked'' \<longrightarrow> CHR '';'' \<notin> set v)) vs ms"
    by auto
  have ne: "ms \<noteq> []" "vs \<noteq> []" using c(1) ms by auto
  have len: "length vs = length ms" using ms(2) by (rule list_all2_lengthD)
  have l: "TRANSFER_CODING_RE (last vs) = Some (last ms)" "lower (last ms) = ''chunked'' \<longrightarrow> CHR '';'' \<notin> set (last vs)"
    using list_all2_nthD [OF ms(2), of "length vs - 1"] ne len by (auto simp: last_conv_nth)
  have lc: "lower (last ms) = ''chunked''" using c(2) ms(1) ne by (simp add: last_map)
  have "''chunked'' \<notin> set (butlast (map lower ms))"
    by (rule last_only_chunked [OF c(1-3), unfolded ms(1)])
  then have nb: "''chunked'' \<notin> lower ` set (butlast ms)" by (simp add: map_butlast [symmetric])
  have l2: "list_all2 (\<lambda>v m. TRANSFER_CODING_RE v = Some m) vs ms"
    using ms(2) by (rule list_all2_mono) simp
  have "lower ` set ms \<subseteq> set KNOWN_TRANSFER_CODINGS" using c(4) ms(1) by auto
  with vs(1) l2 ne l(2) lc nb show ?thesis unfolding chunked_framing_def by blast
qed

lemma validate_lengthsD:
  assumes "validate_lengths lengths = Inr ()"
  shows "length_framing lengths"
proof -
  let ?vs = "length_values lengths"
  from assms have d: "\<forall>v \<in> set ?vs. v \<noteq> [] \<and> list_all is_digit v"
    and one: "length (remdups (map significant ?vs)) = 1"
    by (auto simp: validate_lengths_def Let_def list_ex_iff split: if_splits)
  from one obtain x where "remdups (map significant ?vs) = [x]" by (auto simp: length_Suc_conv)
  then have "set (map significant ?vs) = {x}" by (metis list.simps(15) set_empty set_remdups empty_set)
  then have "\<forall>v \<in> set ?vs. significant v = x" by auto
  then have "\<forall>v \<in> set ?vs. dec_val v = dec_val x" using dec_val_significant by metis
  with d show ?thesis unfolding length_framing_def by blast
qed

section \<open>Errors\<close>

definition http1_fault :: "exn \<Rightarrow> bool" where
  "http1_fault e \<longleftrightarrow> (\<exists>m s. e = HTTP1Error m s \<and> s \<in> {400, 414, 431, 501, 505})"

lemma http1_fault_bad [simp]: "http1_fault (bad_request m)"
  by (simp add: http1_fault_def bad_request_def)

lemma http1_fault_codes [simp]:
  "http1_fault (HTTP1Error m 400)" "http1_fault (HTTP1Error m 414)" "http1_fault (HTTP1Error m 431)"
  "http1_fault (HTTP1Error m 501)" "http1_fault (HTTP1Error m 505)"
  by (simp_all add: http1_fault_def)

lemma raises_port [raises_intros]: "raises is_ValueError (check_port c p)"
  unfolding check_port_def by (intro raises_intros) simp_all

lemma raises_split_authority [raises_intros]: "raises is_ValueError (split_authority a)"
  unfolding split_authority_def Let_def by (intro raises_intros) simp_all

lemma raises_authority [raises_intros]: "raises is_ValueError (validate_authority a c)"
  unfolding validate_authority_def by (intro raises_intros) simp_all

lemma raises_path_query [raises_intros]: "raises is_ValueError (validate_path_query p q)"
  unfolding validate_path_query_def guardR_def by (intro raises_intros) simp_all

lemma raises_absolute [raises_intros]: "raises is_ValueError (validate_absolute t)"
  unfolding validate_absolute_def Let_def by (intro raises_intros) simp_all

lemma raises_target [raises_intros]: "raises is_ValueError (validate_target m t)"
  unfolding validate_target_def by (intro raises_intros) simp_all

lemma raises_as_http1 [raises_intros]: "raises is_ValueError r \<Longrightarrow> raises http1_fault (as_http1 r)"
  by (cases r) (auto simp: as_http1_def raises_def)

lemma raises_request_line [raises_intros]: "raises http1_fault (parse_request_line line)"
  unfolding parse_request_line_def by (intro raises_intros) simp_all

lemma raises_header_line [raises_intros]: "raises http1_fault (parse_header_line line)"
  unfolding parse_header_line_def by (intro raises_intros) simp_all

lemma raises_header_lines [raises_intros]: "raises http1_fault (parse_header_lines lines hs d)"
  by (induction lines hs d rule: parse_header_lines.induct) (auto intro!: raises_intros)

lemma raises_codings [raises_intros]: "raises http1_fault (check_codings vs acc)"
  by (induction vs acc rule: check_codings.induct) (auto intro!: raises_intros split: option.splits)

lemma raises_framing [raises_intros]: "raises http1_fault (validate_framing flds)"
  unfolding validate_framing_def validate_lengths_def validate_encodings_def Let_def
  by (intro raises_intros) simp_all

lemma raises_head_size: "raises (\<lambda>e. \<exists>m s. e = HTTP1Error m s \<and> s \<in> {414, 431}) (check_head_size d i)"
  unfolding check_head_size_def Let_def by (intro raises_intros) simp_all

lemma raises_lines [raises_intros]: "raises http1_fault (parse_lines raw lines)"
  unfolding parse_lines_def by (intro raises_intros) simp_all

section \<open>Well-formed requests are accepted\<close>

definition header_line :: "string \<times> string \<Rightarrow> bytes" where
  "header_line nv = asc (fst nv) @ [58, 32] @ asc (snd nv)"

definition request_line :: "string \<Rightarrow> string \<Rightarrow> bytes" where
  "request_line m t = asc m @ [32] @ asc t @ [32] @ asc ''HTTP/1.1''"

definition enc_request :: "string \<Rightarrow> string \<Rightarrow> (string \<times> string) list \<Rightarrow> bytes" where
  "enc_request m t hs = join_with CRLF (request_line m t # map header_line hs) @ HEAD_END"

definition framing_ok :: "(string \<times> string) list \<Rightarrow> bool" where
  "framing_ok hs \<longleftrightarrow>
     (let cl = values_of ''content-length'' hs; te = values_of ''transfer-encoding'' hs in
      (cl = [] \<or> te = []) \<and> (cl = [] \<or> validate_lengths cl = Inr ()) \<and> (te = [] \<or> validate_encodings te = Inr ()))"

definition wf_request :: "string \<Rightarrow> string \<Rightarrow> (string \<times> string) list \<Rightarrow> bool" where
  "wf_request m t hs \<longleftrightarrow> TOKEN_RE m \<and> t \<noteq> [] \<and> validate_target m t = Inr () \<and>
     list_all (\<lambda>(n, v). TOKEN_RE n \<and> field_value_ok v) hs \<and>
     (\<exists>host h. values_of ''host'' hs = [host] \<and> validate_authority host False = Inr h) \<and>
     framing_ok hs \<and> length (enc_request m t hs) \<le> MAX_HEAD_SIZE"

definition clean_line :: "bytes \<Rightarrow> bool" where
  "clean_line l \<longleftrightarrow> l \<noteq> [] \<and> 13 \<notin> set l \<and> 10 \<notin> set l"

lemma split_crlf_line: "13 \<notin> set l \<Longrightarrow> split_crlf l = [l]"
  by (induction l) auto

lemma split_crlf_cons: "13 \<notin> set l \<Longrightarrow> split_crlf (l @ 13 # 10 # r) = l # split_crlf r"
  by (induction l) auto

lemma split_crlf_join:
  "lines \<noteq> [] \<Longrightarrow> \<forall>l \<in> set lines. 13 \<notin> set l \<Longrightarrow> split_crlf (join_with CRLF lines) = lines"
proof (induction lines)
  case (Cons l ls)
  show ?case
  proof (cases ls)
    case Nil
    with Cons.prems show ?thesis by (simp add: split_crlf_line)
  next
    case (Cons l2 ls2)
    then have j: "join_with CRLF (l # ls) = l @ 13 # 10 # join_with CRLF ls" by (simp add: CRLF_def)
    have "split_crlf (join_with CRLF ls) = ls" using Cons.IH Cons.prems Cons by simp
    then show ?thesis unfolding j using split_crlf_cons [of l "join_with CRLF ls"] Cons.prems(2) by simp
  qed
qed simp

lemma find_sub_skip:
  "s \<noteq> [] \<Longrightarrow> hd s \<notin> set l \<Longrightarrow> find_sub s (l @ r) = map_option ((+) (length l)) (find_sub s r)"
proof (induction l)
  case Nil
  then show ?case by (cases "find_sub s r") simp_all
next
  case (Cons x l)
  then have "\<not> starts_with s (x # l @ r)" by (cases s) auto
  with Cons show ?case by (simp add: option.map_comp comp_def)
qed

lemma find_head_end:
  "lines \<noteq> [] \<Longrightarrow> \<forall>l \<in> set lines. clean_line l \<Longrightarrow>
     find_sub HEAD_END (join_with CRLF lines @ HEAD_END @ ys) = Some (length (join_with CRLF lines))"
proof (induction lines)
  case (Cons l ls)
  have l: "hd HEAD_END \<notin> set l" "HEAD_END \<noteq> []"
    using Cons.prems by (simp_all add: clean_line_def HEAD_END_def)
  show ?case
  proof (cases ls)
    case Nil
    have "starts_with HEAD_END (HEAD_END @ ys)" by (simp add: starts_with_def)
    then have "find_sub HEAD_END (HEAD_END @ ys) = Some 0" by (simp add: HEAD_END_def)
    then show ?thesis using find_sub_skip [OF l(2,1), of "HEAD_END @ ys"] Nil by simp
  next
    case (Cons l2 ls2)
    let ?r = "join_with CRLF ls @ HEAD_END @ ys"
    have "clean_line l2" using Cons Cons.prems by simp
    then obtain x y where l2: "l2 = x # y" "x \<noteq> 13" by (cases l2) (auto simp: clean_line_def)
    have r: "?r = x # tl ?r" using Cons l2 by (cases ls2) auto
    have "\<not> starts_with HEAD_END (13 # 10 # ?r)" "\<not> starts_with HEAD_END (10 # ?r)"
      using l2(2) by (subst r, simp add: HEAD_END_def)+
    then have "find_sub HEAD_END (CRLF @ ?r) = map_option ((+) 2) (find_sub HEAD_END ?r)"
      by (cases "find_sub HEAD_END ?r") (simp_all add: CRLF_def)
    also have "find_sub HEAD_END ?r = Some (length (join_with CRLF ls))"
      using Cons.IH Cons Cons.prems by simp
    finally have "find_sub HEAD_END (CRLF @ ?r) = Some (2 + length (join_with CRLF ls))" by simp
    moreover have "join_with CRLF (l # ls) @ HEAD_END @ ys = l @ CRLF @ ?r"
      "length (join_with CRLF (l # ls)) = length l + 2 + length (join_with CRLF ls)"
      using Cons by simp_all
    ultimately show ?thesis using find_sub_skip [OF l(2,1), of "CRLF @ ?r"] by simp
  qed
qed simp

section \<open>Characters as bytes\<close>

lemma char_byte_eq: "char_byte c = b \<longleftrightarrow> (of_char c :: nat) = unat b"
  by (metis byte_char_byte char_byte_char of_char_byte_char of_char_eq_iff)

lemma byte_in_asc: "b \<in> set (asc s) \<longleftrightarrow> byte_char b \<in> set s"
  by (auto simp: asc_def) (metis char_byte_char image_iff byte_char_byte)

lemma printable_bytes: "list_all printable s \<Longrightarrow> 13 \<notin> set (asc s) \<and> 10 \<notin> set (asc s) \<and> 32 \<notin> set (asc s)"
  unfolding byte_in_asc by (auto simp: list_all_iff printable_def)

lemma tchar_printable: "tchar c \<Longrightarrow> printable c"
  by (auto simp: tchar_def printable_def char_class_defs)

lemma token_printable: "TOKEN_RE s \<Longrightarrow> list_all printable s"
  using tchar_printable by (auto simp: TOKEN_RE_def list_all_iff)

lemma ascii_decode_asc: "list_all printable s \<Longrightarrow> ascii_decode (asc s) = Inr s"
  by (auto simp: ascii_decode_def asc_def list_all_iff printable_def comp_def)

lemma field_char_bytes:
  assumes "field_value_ok v"
  shows "13 \<notin> set (asc v)" "10 \<notin> set (asc v)" "\<not> list_ex (\<lambda>b. b < 32 \<and> b \<noteq> 9 \<or> b = 127) (asc v)"
    "strip [32, 9] (32 # asc v) = asc v"
proof -
  have f: "field_char c" if "c \<in> set v" for c
    using that assms by (auto simp: field_value_ok_def list_all_iff)
  have b: "\<not> (b < 32 \<and> b \<noteq> 9 \<or> b = 127)" if "b \<in> set (asc v)" for b
    using f that unfolding byte_in_asc field_char_byte [symmetric] by blast
  show "13 \<notin> set (asc v)" using b [of 13] by auto
  show "10 \<notin> set (asc v)" using b [of 10] by auto
  show "\<not> list_ex (\<lambda>b. b < 32 \<and> b \<noteq> 9 \<or> b = 127) (asc v)" using b by (auto simp: list_ex_iff)
  have e: "asc v = [] \<or> hd (asc v) \<notin> set [32, 9] \<and> last (asc v) \<notin> set [32, 9]"
  proof (cases "v = []")
    case False
    then have "hd v \<notin> set SP_HTAB" "last v \<notin> set SP_HTAB" using assms by (auto simp: field_value_ok_def)
    moreover have "hd v = byte_char (hd (asc v))" "last v = byte_char (last (asc v))"
      using False by (simp_all add: asc_def hd_map last_map)
    ultimately show ?thesis by (simp only: blank_byte not_False_eq_True simp_thms)
  qed (simp add: asc_def)
  have "strip [32, 9] (32 # asc v) = strip [32, 9] (asc v)" by (simp add: strip_def lstrip_def)
  with strip_id [OF e] show "strip [32, 9] (32 # asc v) = asc v" by simp
qed

lemma token_bytes:
  assumes "TOKEN_RE n"
  shows "asc n \<noteq> []" "13 \<notin> set (asc n)" "10 \<notin> set (asc n)" "32 \<notin> set (asc n)" "58 \<notin> set (asc n)"
    "9 \<notin> set (asc n)"
proof -
  have t: "tchar c" if "c \<in> set n" for c using assms that by (auto simp: TOKEN_RE_def list_all_iff)
  show "asc n \<noteq> []" using assms by (simp add: TOKEN_RE_def asc_def)
  show "13 \<notin> set (asc n)" "10 \<notin> set (asc n)" "32 \<notin> set (asc n)"
    using printable_bytes [OF token_printable [OF assms]] by auto
  have "\<not> tchar (byte_char 58)" "\<not> tchar (byte_char 9)"
    by (simp_all add: tchar_def char_class_defs byte_char_eq char_byte_def)
  then show "58 \<notin> set (asc n)" "9 \<notin> set (asc n)" using t unfolding byte_in_asc by blast+
qed

lemma header_line_parses:
  assumes "TOKEN_RE n" and "field_value_ok v"
  shows "parse_header_line (header_line (n, v)) = Inr (n, v)" "clean_line (header_line (n, v))"
proof -
  note t = token_bytes [OF assms(1)] and f = field_char_bytes [OF assms(2)]
  have p: "partition_at 58 (header_line (n, v)) = (asc n, True, 32 # asc v)"
    using partition_at_append [OF t(5), of "32 # asc v"] by (simp add: header_line_def)
  obtain b bs where b: "asc n = b # bs" using t(1) by (cases "asc n") auto
  then have s: "\<not> starts_with [32] (header_line (n, v))" "\<not> starts_with [9] (header_line (n, v))"
    using t(4,6) by (auto simp: header_line_def)
  show "parse_header_line (header_line (n, v)) = Inr (n, v)"
    using p s f(3,4) ascii_decode_asc [OF token_printable [OF assms(1)]] assms(1)
    by (simp add: parse_header_line_def)
  show "clean_line (header_line (n, v))"
    using t f by (auto simp: clean_line_def header_line_def)
qed

lemma request_line_parses:
  assumes "TOKEN_RE m" and "t \<noteq> []" and "validate_target m t = Inr ()"
  shows "parse_request_line (request_line m t) = Inr (m, t)" "clean_line (request_line m t)"
proof -
  note m = token_bytes [OF assms(1)] and t = printable_bytes [OF target_printable [OF assms(3)]]
  have h: "list_all printable ''HTTP/1.1''" by (simp add: printable_def)
  have "split_on 32 (asc m @ 32 # (asc t @ 32 # asc ''HTTP/1.1'')) = [asc m, asc t, asc ''HTTP/1.1'']"
    using split_on_append [OF m(4)] split_on_append [of 32 "asc t"] split_on_single [of 32 "asc ''HTTP/1.1''"]
      t printable_bytes [OF h] by simp
  then have s: "split_on 32 (request_line m t) = [asc m, asc t, asc ''HTTP/1.1'']"
    by (simp add: request_line_def)
  have "asc t \<noteq> []" "asc ''HTTP/1.1'' \<noteq> []" using assms(2) by (simp_all add: asc_def)
  then show "parse_request_line (request_line m t) = Inr (m, t)"
    using m(1) ascii_decode_asc [OF token_printable [OF assms(1)]] ascii_decode_asc [OF target_printable [OF assms(3)]]
      assms(1,3) by (simp add: parse_request_line_def s as_http1_def)
  show "clean_line (request_line m t)"
    using m t printable_bytes [OF h] by (auto simp: clean_line_def request_line_def)
qed

lemma validate_framing_values:
  assumes "\<And>k. fields_get flds k = values_of k hs" and "framing_ok hs"
  shows "validate_framing flds = Inr ()"
  using assms(2) unfolding validate_framing_def assms(1) framing_ok_def Let_def by auto

lemma request_accepted:
  assumes "wf_request m t hs"
  shows "parse_request (enc_request m t hs @ body) =
    Inr \<lparr>r_method = m, r_path = t, r_headers = hs, r_raw_head = enc_request m t hs\<rparr>"
proof -
  let ?lines = "request_line m t # map header_line hs"
  note rl = request_line_parses [of m t]
  have w: "TOKEN_RE m" "t \<noteq> []" "validate_target m t = Inr ()" "framing_ok hs"
    "\<forall>(n, v) \<in> set hs. TOKEN_RE n \<and> field_value_ok v" "length (enc_request m t hs) \<le> 65536"
    using assms by (auto simp: wf_request_def list_all_iff)
  from assms obtain host h where host: "values_of ''host'' hs = [host]" "validate_authority host False = Inr h"
    by (auto simp: wf_request_def)
  have clean: "\<forall>l \<in> set ?lines. clean_line l"
    using rl(2) [OF w(1-3)] header_line_parses(2) w(5) by auto
  let ?j = "join_with CRLF ?lines"
  have f: "find_sub HEAD_END (enc_request m t hs @ body) = Some (length ?j)"
    using find_head_end [OF _ clean] by (simp add: enc_request_def)
  have hl: "head_lines (enc_request m t hs @ body) (length ?j) = ?lines"
  proof -
    have "take (length ?j) (enc_request m t hs @ body) = ?j" by (simp add: enc_request_def)
    moreover have "split_crlf ?j = ?lines" using clean by (intro split_crlf_join) (auto simp: clean_line_def)
    ultimately show ?thesis using clean by (simp add: head_lines_def clean_line_def)
  qed
  have raw: "take (length ?j + 4) (enc_request m t hs @ body) = enc_request m t hs"
    by (simp add: enc_request_def)
  have "list_all2 (\<lambda>l h. parse_header_line l = Inr h) (map header_line hs) hs"
    using w(5) header_line_parses(1) by (auto simp: list_all2_conv_all_nth in_set_conv_nth split: prod.splits)
      (metis nth_mem old.prod.case surj_pair)
  then obtain flds where flds: "parse_header_lines (map header_line hs) [] [] = Inr (hs, flds)"
    using parse_header_lines_complete [of "map header_line hs" hs "[]" "[]"] by auto
  note get = parse_header_lines_result(1) [OF flds]
  have "parse_lines (enc_request m t hs) ?lines =
      Inr \<lparr>r_method = m, r_path = t, r_headers = hs, r_raw_head = enc_request m t hs\<rparr>"
    using rl(1) [OF w(1-3)] flds get [of "''host''"] host validate_framing_values [OF get w(4)] clean
    by (auto simp: parse_lines_def list_ex_iff clean_line_def as_http1_def)
  moreover have "check_head_size (enc_request m t hs @ body) False = Inr ()"
    using check_head_size_ok [OF f] w(6) by (simp add: enc_request_def)
  ultimately show ?thesis using parse_request_Some [OF f] hl raw by simp
qed

text \<open>A sample request.\<close>

definition sample_request :: http1_request where
  "sample_request = \<lparr>r_method = ''GET'', r_path = ''/'', r_headers = [(''Host'', ''a'')],
     r_raw_head = enc_request ''GET'' ''/'' [(''Host'', ''a'')]\<rparr>"

lemma sample_wf: "wf_request ''GET'' ''/'' [(''Host'', ''a'')]"
proof -
  have l: "lower ''Host'' = ''host''" by code_simp
  have a: "\<exists>h. validate_authority ''a'' False = Inr h"
    by (simp add: validate_authority_def split_authority_def partition_at_def REG_NAME_RE_def uri_char_def
        char_class_defs check_port_def)
  have t: "TOKEN_RE ''GET''" "TOKEN_RE ''Host''" "field_value_ok ''a''"
    by (simp_all add: TOKEN_RE_def tchar_def char_class_defs field_value_ok_def field_char_def SP_HTAB_def)
  have v: "validate_target ''GET'' ''/'' = Inr ()"
    by (simp add: validate_target_def partition_at_def validate_path_query_def PATH_RE_def QUERY_RE_def
        path_char_def uri_char_def char_class_defs)
  have n: "length (enc_request ''GET'' ''/'' [(''Host'', ''a'')]) \<le> MAX_HEAD_SIZE"
    by (simp add: enc_request_def request_line_def header_line_def CRLF_def asc_def)
  show ?thesis using a t v n by (simp add: wf_request_def values_of_def framing_ok_def l)
qed

lemma sample_parse: "parse_request (r_raw_head sample_request @ body) = Inr sample_request"
  using request_accepted [OF sample_wf, of body] by (simp add: sample_request_def)

text \<open>C26. Every well-formed request is accepted: the textual form of a request with a valid method,
  target, header fields, Host and framing, within the size limit, is parsed back to exactly that
  request, whatever content follows.\<close>

theorem request_roundtrip:
  assumes "wf_request m t hs"
  shows "parse_request (enc_request m t hs @ body) =
    Inr \<lparr>r_method = m, r_path = t, r_headers = hs, r_raw_head = enc_request m t hs\<rparr>"
  using assms by (rule request_accepted)

theorem request_roundtrip_witness:
  "parse_request (enc_request ''GET'' ''/'' [(''Host'', ''a'')] @ [1, 2]) = Inr sample_request"
  using request_roundtrip [OF sample_wf] by (simp add: sample_request_def)

section \<open>Properties\<close>

text \<open>Content cannot influence the request: once the buffer holds a complete head, the outcome of
  parsing, success or error, is the same whatever bytes follow.\<close>

theorem request_body_irrelevant:
  assumes "find_sub HEAD_END raw = Some e"
  shows "parse_request (raw @ body) = parse_request raw"
  using assms by (rule request_body_irrelevant_aux)

theorem request_body_irrelevant_witness:
  "parse_request (r_raw_head sample_request @ [1, 2, 3]) = parse_request (r_raw_head sample_request)"
proof -
  obtain e where "find_sub HEAD_END (r_raw_head sample_request) = Some e"
    using sample_parse [of "[]"] by (auto elim: parse_requestD)
  then show ?thesis by (rule request_body_irrelevant)
qed

text \<open>The recorded head is exact: it is the prefix of the received bytes that ends with the first
  empty line, it has at most 65536 bytes, and parsing it again gives the same request.\<close>

theorem request_head_exact:
  assumes "parse_request raw = Inr r"
  shows "\<exists>body. raw = r_raw_head r @ body \<and> length (r_raw_head r) \<le> MAX_HEAD_SIZE \<and>
    find_sub HEAD_END (r_raw_head r) = Some (length (r_raw_head r) - 4) \<and>
    parse_request (r_raw_head r) = Inr r"
proof -
  from assms obtain e where e: "find_sub HEAD_END raw = Some e" "e + 4 \<le> 65536" "e + 4 \<le> length raw"
    "r_raw_head r = take (e + 4) raw" by (rule parse_requestD)
  have raw: "raw = r_raw_head r @ drop (e + 4) raw" using e(4) by simp
  have f: "find_sub HEAD_END (r_raw_head r) = Some e"
    using find_sub_take [OF e(1), of "e + 4"] e(4) by simp
  have "parse_request (r_raw_head r) = Inr r"
    using request_body_irrelevant_aux [OF f, of "drop (e + 4) raw"] raw assms by simp
  with f e show ?thesis by (intro exI [of _ "drop (e + 4) raw"]) simp
qed

theorem request_head_exact_witness:
  "\<exists>body. r_raw_head sample_request @ [7] = r_raw_head sample_request @ body \<and>
     length (r_raw_head sample_request) \<le> MAX_HEAD_SIZE"
  using request_head_exact [OF sample_parse [of "[7]"]] by blast

text \<open>C25. No ASCII control characters: the method of an accepted request is a token, the target is a
  non-empty sequence of printable ASCII characters valid for the method, every field name is a
  token, and every field value is free of ASCII control characters (0 to 31 and 127) other than the tab and
  has no blank at either end; bytes from 0x80 on are allowed in it. In particular nothing that is reported or echoed contains a line break.\<close>

theorem request_text_safe:
  assumes "parse_request raw = Inr r"
  shows "TOKEN_RE (r_method r) \<and> r_path r \<noteq> [] \<and> list_all printable (r_path r) \<and>
    validate_target (r_method r) (r_path r) = Inr () \<and>
    list_all (\<lambda>(n, v). TOKEN_RE n \<and> field_value_ok v) (r_headers r)"
proof -
  from assms obtain e where "parse_lines (take (e + 4) raw) (head_lines raw e) = Inr r"
    by (rule parse_requestD)
  then obtain flds where l: "parse_request_line (hd (head_lines raw e)) = Inr (r_method r, r_path r)"
    "parse_header_lines (tl (head_lines raw e)) [] [] = Inr (r_headers r, flds)"
    by (rule parse_linesD)
  from parse_header_lines_result(2) [OF l(2)] have "list_all (\<lambda>(n, v). TOKEN_RE n \<and> field_value_ok v) (r_headers r)"
  proof (induction rule: list_all2_induct)
    case (Cons x xs y ys)
    then show ?case using parse_header_line_accepts by (cases y) auto
  qed simp
  with parse_request_lineD [OF l(1)] target_printable show ?thesis by blast
qed

theorem request_text_safe_witness:
  "parse_request (r_raw_head sample_request) = Inr sample_request \<and> TOKEN_RE (r_method sample_request)"
  using request_text_safe [OF sample_parse [of "[]"]] sample_parse [of "[]"] by simp

text \<open>C24. Unambiguous framing: an accepted request has exactly one Host field, with a valid
  authority; it never has both Content-Length and Transfer-Encoding; all its Content-Length members
  are the same decimal number; and a Transfer-Encoding ends in exactly one chunked coding without
  parameters, all codings being known.\<close>

theorem request_framing:
  assumes "parse_request raw = Inr r"
  shows "(\<exists>host h. values_of ''host'' (r_headers r) = [host] \<and> validate_authority host False = Inr h) \<and>
    (values_of ''content-length'' (r_headers r) = [] \<or> values_of ''transfer-encoding'' (r_headers r) = []) \<and>
    (values_of ''content-length'' (r_headers r) = [] \<or> length_framing (values_of ''content-length'' (r_headers r))) \<and>
    (values_of ''transfer-encoding'' (r_headers r) = [] \<or>
       chunked_framing (values_of ''transfer-encoding'' (r_headers r)))"
proof -
  from assms obtain e where "parse_lines (take (e + 4) raw) (head_lines raw e) = Inr r"
    by (rule parse_requestD)
  then obtain flds host h where l: "parse_header_lines (tl (head_lines raw e)) [] [] = Inr (r_headers r, flds)"
    "fields_get flds ''host'' = [host]" "validate_authority host False = Inr h" "validate_framing flds = Inr ()"
    by (rule parse_linesD)
  note get = parse_header_lines_result(1) [OF l(1)]
  from l(4) have "fields_get flds ''content-length'' = [] \<or> fields_get flds ''transfer-encoding'' = []"
    "fields_get flds ''content-length'' = [] \<or> validate_lengths (fields_get flds ''content-length'') = Inr ()"
    "fields_get flds ''transfer-encoding'' = [] \<or> validate_encodings (fields_get flds ''transfer-encoding'') = Inr ()"
    by (auto simp: validate_framing_def Let_def bindR_eq_Inr split: if_splits)
  with l(2,3) show ?thesis unfolding get using validate_lengthsD validate_encodingsD by blast
qed

theorem request_framing_witness:
  "parse_request (r_raw_head sample_request) = Inr sample_request \<and>
   (\<exists>host. values_of ''host'' (r_headers sample_request) = [host])"
  using request_framing [OF sample_parse [of "[]"]] sample_parse [of "[]"] by auto

lemma parse_request_fault:
  assumes "parse_request raw = Inl e"
  shows "http1_fault e"
proof (cases "check_head_size raw False")
  case (Inl x)
  with assms raises_head_size [of raw False] show ?thesis
    by (auto simp: parse_request_def raises_def http1_fault_def)
next
  case (Inr u)
  show ?thesis
  proof (cases "find_sub HEAD_END raw")
    case None
    with assms Inr show ?thesis by (auto simp: parse_request_def)
  next
    case (Some x)
    with assms Inr raises_lines show ?thesis by (auto simp: parse_request_Some raises_def)
  qed
qed

text \<open>C27. Every rejection has a status code: parsing never fails otherwise than with an
  \<open>HTTP1Error\<close> whose status is 400, 414, 431, 501 or 505, and a head of more than 65536 bytes is
  always rejected with 414 or 431.\<close>

theorem request_errors:
  assumes "parse_request raw = Inl e"
  shows "\<exists>m s. e = HTTP1Error m s \<and> s \<in> {400, 414, 431, 501, 505} \<and>
    (head_size raw > MAX_HEAD_SIZE \<longrightarrow> s \<in> {414, 431})"
proof (cases "check_head_size raw False")
  case (Inl x)
  with assms raises_head_size [of raw False] show ?thesis by (auto simp: parse_request_def raises_def)
next
  case (Inr u)
  then have small: "\<not> head_size raw > MAX_HEAD_SIZE"
    using raises_head_size [of raw False]
    by (auto simp: check_head_size_def Let_def split: prod.splits if_splits)
  have "http1_fault e" using assms by (rule parse_request_fault)
  with small show ?thesis by (auto simp: http1_fault_def)
qed

theorem request_errors_witness:
  "\<exists>e m s. parse_request [71] = Inl e \<and> e = HTTP1Error m s \<and> s \<in> {400, 414, 431, 501, 505}"
proof -
  have e: "parse_request [71] = Inl (bad_request ''Request head was not terminated'')"
    by (simp add: parse_request_def check_head_size_def head_size_def HEAD_END_def)
  from request_errors [OF e] e show ?thesis by auto
qed

end
