(* ===== verification/Redirect.thy ===== *)
theory Redirect
  imports Http1_Correct
begin

text \<open>
  The plain-HTTP redirect service, \<open>solvetls/redirect.py\<close>. The peer is a list of what the reads of
  the stream return, a chunk or an exception; when the list ends the peer stays silent and the
  request timeout expires. The date of the response is a parameter. The handler on the streams, with the close of the
  transport, is in \<open>Redirect_Handler\<close>.
\<close>

section \<open>Model\<close>

datatype io_event = Chunk bytes | Fail exn

text \<open>From the authority and the path: validation of the host and the URL itself.\<close>

definition make_location :: "string \<Rightarrow> string \<Rightarrow> int \<Rightarrow> exn + string" where
  "make_location authority path https_port =
     bindR (validate_authority authority False) (\<lambda>host.
       if host = [] then Inl (bad_request ''A redirect requires a host'')
       else Inr (''https://'' @ (if starts_with ''['' authority then ''['' @ host @ '']'' else host) @
                 (if https_port = 443 then [] else CHR '':'' # str_int https_port) @ path))"

definition redirect_location :: "http1_request \<Rightarrow> int \<Rightarrow> exn + string" where
  "redirect_location request https_port =
     (if r_method request = ''CONNECT'' then Inl (HTTP1Error ''CONNECT tunnels are not supported'' 501)
      else let target = r_path request in
      if target = ''*'' then Inl (bad_request ''A redirect requires a request path'')
      else bindR
        (if starts_with ''/'' target then
           (case values_of ''host'' (r_headers request) of
              [] \<Rightarrow> Inl (RuntimeError ''StopIteration'')
            | authority # _ \<Rightarrow> Inr (authority, target))
         else bindR (split_absolute_uri target) (\<lambda>parsed.
           if sr_scheme parsed \<notin> {''http'', ''https''}
           then Inl (bad_request ''Only HTTP request targets can be redirected'')
           else let authority = sr_netloc parsed;
                    path = drop (length (sr_scheme parsed) + 3 + length authority) target
                in Inr (authority, if starts_with ''/'' path then path else CHR ''/'' # path)))
        (\<lambda>(authority, path). make_location authority path https_port))"

fun read_head :: "io_event list \<Rightarrow> bytes \<Rightarrow> (exn + bytes) \<times> io_event list" where
  "read_head [] data = (Inl TimeoutError, [])"
| "read_head (Fail e # es) data = (Inl e, es)"
| "read_head (Chunk chunk # es) data =
     (if chunk = []
      then (if data = [] then Inr [] else Inl (bad_request ''Request head was not terminated''), es)
      else case check_head_size (data @ chunk) True of
          Inl e \<Rightarrow> (Inl e, es)
        | Inr _ \<Rightarrow>
            (case find_sub HEAD_END (data @ chunk) of
               Some e \<Rightarrow> (Inr (take (e + length HEAD_END) (data @ chunk)), es)
             | None \<Rightarrow> read_head es (data @ chunk)))"

text \<open>\<open>HTTPStatus(code).phrase\<close> for the codes the service answers with.\<close>

definition status_phrase :: "nat \<Rightarrow> string" where
  "status_phrase code =
     (if code = 308 then ''Permanent Redirect'' else if code = 400 then ''Bad Request''
      else if code = 408 then ''Request Timeout'' else if code = 414 then ''Request-URI Too Long''
      else if code = 431 then ''Request Header Fields Too Large'' else if code = 501 then ''Not Implemented''
      else if code = 505 then ''HTTP Version Not Supported'' else [])"

text \<open>The inner \<open>try\<close>: the status and the location, \<open>None\<close> when the peer closed without a byte.\<close>

definition redirect_outcome :: "int \<Rightarrow> io_event list \<Rightarrow> exn + (nat \<times> string option) option" where
  "redirect_outcome https_port es =
     (case bindR (fst (read_head es [])) (\<lambda>head.
             if head = [] then Inr None
             else bindR (parse_request head) (\<lambda>r.
                  bindR (redirect_location r https_port) (\<lambda>loc. Inr (Some (308, Some loc))))) of
        Inr x \<Rightarrow> Inr x
      | Inl e \<Rightarrow> (case e of HTTP1Error m s \<Rightarrow> Inr (Some (s, None))
                 | TimeoutError \<Rightarrow> Inr (Some (408, None))
                 | _ \<Rightarrow> Inl e))"

definition response_lines :: "string \<Rightarrow> nat \<Rightarrow> string option \<Rightarrow> string list" where
  "response_lines date status location =
     [''HTTP/1.1 '' @ str_nat status @ '' '' @ status_phrase status, ''date: '' @ date,
      ''content-length: 0'', ''connection: close''] @
     (case location of None \<Rightarrow> [] | Some l \<Rightarrow> [''location: '' @ l])"

definition encode_ascii :: "string \<Rightarrow> exn + bytes" where
  "encode_ascii s =
     (if list_all (\<lambda>c. (of_char c :: nat) < 128) s then Inr (asc s)
      else Inl (ValueError ''ordinal not in range(128)''))"

fun is_OSError :: "exn \<Rightarrow> bool" where
  "is_OSError (ConnectionResetError _) = True"
| "is_OSError (PyConnectionError _) = True"
| "is_OSError (SSLError _) = True"
| "is_OSError SSLWantReadError = True"
| "is_OSError SSLWantWriteError = True"
| "is_OSError TimeoutError = True"
| "is_OSError _ = False"

text \<open>The bytes the handler writes; an \<open>OSError\<close> (which \<open>TimeoutError\<close> is) ends the connection.\<close>

definition handle_redirect :: "string \<Rightarrow> int \<Rightarrow> io_event list \<Rightarrow> exn + bytes option" where
  "handle_redirect date https_port es =
     (case bindR (redirect_outcome https_port es) (\<lambda>out.
             case out of
               None \<Rightarrow> Inr None
             | Some (status, location) \<Rightarrow>
                 bindR (encode_ascii (join_with [CHR 0x0D, CHR 0x0A] (response_lines date status location) @
                                      [CHR 0x0D, CHR 0x0A, CHR 0x0D, CHR 0x0A])) (\<lambda>bs. Inr (Some bs))) of
        Inr x \<Rightarrow> Inr x
      | Inl e \<Rightarrow> if is_OSError e then Inr None else Inl e)"

section \<open>Reading the head\<close>

lemma check_incomplete_ok:
  "find_sub HEAD_END d = None \<Longrightarrow> length d < 65536 \<Longrightarrow> check_head_size d True = Inr ()"
  by (simp add: check_head_size_def head_size_def)

lemma read_head_fragments:
  assumes "find_sub HEAD_END data = None" and "find_sub HEAD_END (data @ concat cs) = Some e"
    and "e + 4 \<le> 65536" and "[] \<notin> set cs"
  shows "\<exists>rest. read_head (map Chunk cs @ es) data = (Inr (take (e + 4) (data @ concat cs)), rest)"
  using assms
proof (induction cs arbitrary: data)
  case Nil
  then show ?case by simp
next
  case (Cons c cs)
  let ?d = "data @ c"
  have c: "c \<noteq> []" using Cons.prems(4) by auto
  have cat: "data @ concat (c # cs) = ?d @ concat cs" by simp
  have e: "find_sub HEAD_END (?d @ concat cs) = Some e" using Cons.prems(2) by simp
  show ?case
  proof (cases "find_sub HEAD_END ?d")
    case (Some k)
    with find_sub_append [OF Some, of "concat cs"] e have k: "k = e" by simp
    have "check_head_size ?d True = Inr ()" using check_head_size_ok [OF Some] k Cons.prems(3) by simp
    moreover have "e + 4 \<le> length ?d" using find_sub_bound [OF Some] k by simp
    ultimately show ?thesis using Some k c by simp
  next
    case None
    have "length ?d < e + 4"
    proof (rule ccontr)
      assume "\<not> length ?d < e + 4"
      then have "find_sub HEAD_END (take (length ?d) (?d @ concat cs)) = Some e"
        by (intro find_sub_take [OF e]) simp
      with None show False by simp
    qed
    then have "check_head_size ?d True = Inr ()"
      using None Cons.prems(3) by (intro check_incomplete_ok) auto
    then have "read_head (map Chunk (c # cs) @ es) data = read_head (map Chunk cs @ es) ?d"
      using None c by simp
    with Cons.IH [OF None e Cons.prems(3)] Cons.prems(4) cat show ?thesis by simp
  qed
qed

text \<open>Fragmentation does not matter: however the bytes of a head of at most 65536 bytes are cut
  into non-empty chunks, and whatever follows them, the service reads exactly that head.\<close>

theorem read_head_any_fragmentation:
  assumes "find_sub HEAD_END (concat cs) = Some e" and "e + 4 \<le> MAX_HEAD_SIZE" and "[] \<notin> set cs"
  shows "fst (read_head (map Chunk cs @ es) []) = Inr (take (e + 4) (concat cs))"
proof -
  have "find_sub HEAD_END [] = None" by (simp add: HEAD_END_def)
  from read_head_fragments [OF this, of cs e es] assms show ?thesis by auto
qed

theorem read_head_any_fragmentation_witness:
  "fst (read_head (map Chunk [[71, 13], [10, 13], [10, 1]] @ []) []) = Inr [71, 13, 10, 13, 10]"
proof -
  have "find_sub HEAD_END (concat [[71, 13], [10, 13], [10, 1]]) = Some 1"
    by (simp add: HEAD_END_def)
  from read_head_any_fragmentation [OF this, of "[]"] show ?thesis by simp
qed

section \<open>The location\<close>

lemma rpartition_absent: "c \<notin> set s \<Longrightarrow> rpartition_at c s = ([], False, s)"
  by (simp add: rpartition_at_def partition_at_absent)

lemma validate_absolute_http:
  assumes v: "validate_absolute t = Inr ()" and p: "split_absolute_uri t = Inr parsed"
    and s: "sr_scheme parsed \<in> {''http'', ''https''}"
  shows "\<exists>h. validate_authority (sr_netloc parsed) False = Inr h"
proof -
  have l: "lower ''http'' = ''http''" "lower ''https'' = ''https''" by code_simp+
  have http: "lower (sr_scheme parsed) \<in> {''http'', ''https''}" using s l by auto
  obtain u at a where r: "rpartition_at CHR ''@'' (sr_netloc parsed) = (u, at, a)"
    by (cases "rpartition_at CHR ''@'' (sr_netloc parsed)") auto
  have b: "bindR (if starts_with ''//'' (snd (snd (partition_at CHR '':'' t)))
                 then (if at \<and> (lower (sr_scheme parsed) \<in> {''http'', ''https''} \<or> \<not> USER_INFO_RE u)
                       then Inl (ValueError ''Invalid user information in absolute-form target'')
                       else bindR (validate_authority a False) (\<lambda>host. Inr (Some host)))
                 else Inr None) (\<lambda>host.
            if lower (sr_scheme parsed) \<in> {''http'', ''https''} \<and> (host = None \<or> host = Some [])
            then Inl (ValueError ''HTTP absolute-form target requires an authority'')
            else Inr ()) = Inr ()"
    using iffD1 [OF bindR_eq_Inr v [unfolded validate_absolute_def p sum.case bindR_simps Let_def r prod.case]]
    by blast
  then obtain h where h: "\<not> at" "validate_authority a False = Inr h"
    using http by (auto simp: bindR_eq_Inr split: if_splits)
  have "CHR ''@'' \<notin> set (sr_netloc parsed)"
    using r h(1) by (auto simp: rpartition_at_def partition_at_def)
  from rpartition_absent [OF this] r h(2) show ?thesis by auto
qed

lemma list_all_drop: "list_all P xs \<Longrightarrow> list_all P (drop n xs)"
  by (auto simp: list_all_iff dest: in_set_dropD)

lemma str_int_printable: "list_all printable (str_int i)"
proof -
  have "list_all printable (str_nat n)" for n
    using str_nat_digits alnum_printable unfolding list_all_iff is_alnum_def by blast
  then show ?thesis by (simp add: str_int_def printable_def)
qed

lemma host_text_printable:
  assumes "validate_authority a False = Inr host"
  shows "list_all printable (if starts_with ''['' a then ''['' @ host @ '']'' else host)"
  using authority_shape [OF assms] by (metis list_all_append)

definition location_ok :: "int \<Rightarrow> string \<Rightarrow> bool" where
  "location_ok port loc \<longleftrightarrow> list_all printable loc \<and> (\<exists>host path. host \<noteq> [] \<and> starts_with ''/'' path \<and>
     loc = ''https://'' @ host @ (if port = 443 then [] else CHR '':'' # str_int port) @ path)"

definition location_outcome_ok :: "int \<Rightarrow> exn + string \<Rightarrow> bool" where
  "location_outcome_ok port x \<longleftrightarrow>
     (case x of Inl e \<Rightarrow> \<exists>m s. e = HTTP1Error m s \<and> s \<in> {400, 501} | Inr loc \<Rightarrow> location_ok port loc)"

lemma build_location:
  assumes a: "validate_authority authority False = Inr host0" and p: "list_all printable path" "starts_with ''/'' path"
  shows "location_outcome_ok port (make_location authority path port)"
proof (cases "host0 = []")
  case True
  with a show ?thesis by (simp add: make_location_def location_outcome_ok_def bad_request_def)
next
  case False
  let ?h = "if starts_with ''['' authority then ''['' @ host0 @ '']'' else host0"
  have "list_all printable ?h" by (rule host_text_printable [OF a])
  moreover have "?h \<noteq> []" using False by simp
  moreover have "list_all printable ''https://''" "printable CHR '':''" by (simp_all add: printable_def)
  ultimately have "location_ok port (''https://'' @ ?h @ (if port = 443 then [] else CHR '':'' # str_int port) @ path)"
    unfolding location_ok_def using p str_int_printable by (intro conjI exI [of _ ?h] exI [of _ path]) auto
  with a False show ?thesis by (simp add: make_location_def location_outcome_ok_def)
qed

lemma accepted_request_parts:
  assumes "parse_request raw = Inr r"
  obtains host h where "values_of ''host'' (r_headers r) = [host]" "validate_authority host False = Inr h"
    "validate_target (r_method r) (r_path r) = Inr ()" "list_all printable (r_path r)"
proof -
  from assms obtain e where "parse_lines (take (e + 4) raw) (head_lines raw e) = Inr r"
    by (rule parse_requestD)
  then obtain flds host h where l: "parse_request_line (hd (head_lines raw e)) = Inr (r_method r, r_path r)"
    "parse_header_lines (tl (head_lines raw e)) [] [] = Inr (r_headers r, flds)"
    "fields_get flds ''host'' = [host]" "validate_authority host False = Inr h"
    by (rule parse_linesD)
  note t = parse_request_lineD(3) [OF l(1)]
  show ?thesis
    by (rule that [OF _ l(4) t target_printable [OF t]])
      (use l(3) parse_header_lines_result(1) [OF l(2)] in simp)
qed

lemma redirect_location_outcome:
  assumes "parse_request raw = Inr r"
  shows "location_outcome_ok port (redirect_location r port)"
proof -
  from assms obtain host h where r: "values_of ''host'' (r_headers r) = [host]"
    "validate_authority host False = Inr h" "validate_target (r_method r) (r_path r) = Inr ()"
    "list_all printable (r_path r)" by (rule accepted_request_parts)
  let ?t = "r_path r"
  consider (simple) "r_method r = ''CONNECT'' \<or> ?t = ''*''"
    | (origin) "r_method r \<noteq> ''CONNECT''" "?t \<noteq> ''*''" "starts_with ''/'' ?t"
    | (absolute) "r_method r \<noteq> ''CONNECT''" "?t \<noteq> ''*''" "\<not> starts_with ''/'' ?t" by blast
  then show ?thesis
  proof cases
    case simple
    then show ?thesis
      by (auto simp: redirect_location_def location_outcome_ok_def bad_request_def Let_def)
  next
    case origin
    then have "redirect_location r port = make_location host ?t port"
      using r(1) by (simp add: redirect_location_def)
    with build_location [OF r(2) r(4) origin(3), of port] show ?thesis by simp
  next
    case absolute
    then have v: "validate_absolute ?t = Inr ()"
      using r(3) by (auto simp: validate_target_def split: if_splits)
    then obtain parsed where p: "split_absolute_uri ?t = Inr parsed"
      by (cases "split_absolute_uri ?t") (auto simp: validate_absolute_def)
    show ?thesis
    proof (cases "sr_scheme parsed \<in> {''http'', ''https''}")
      case False
      with absolute p show ?thesis
        by (auto simp: redirect_location_def location_outcome_ok_def bad_request_def Let_def)
    next
      case True
      obtain h' where h': "validate_authority (sr_netloc parsed) False = Inr h'"
        using validate_absolute_http [OF v p True] by blast
      define d where "d = drop (length (sr_scheme parsed) + 3 + length (sr_netloc parsed)) ?t"
      define path where "path = (if starts_with ''/'' d then d else CHR ''/'' # d)"
      have "list_all printable d" unfolding d_def by (rule list_all_drop [OF r(4)])
      then have "list_all printable path" "starts_with ''/'' path" by (auto simp: path_def printable_def)
      moreover have "redirect_location r port = make_location (sr_netloc parsed) path port"
        using absolute p True by (auto simp: redirect_location_def Let_def d_def path_def)
      ultimately show ?thesis using build_location [OF h', of path port] by simp
    qed
  qed
qed

text \<open>C29. Redirects are safe: for a request that the parser accepted, computing the location either
  fails with an \<open>HTTP1Error\<close> of status 400 or 501, which the handler answers, or gives an
  \<open>https\<close> URL with a non-empty host, the configured port and an absolute path, all of it printable
  ASCII. It never fails in a way the handler does not catch.\<close>

theorem redirect_location_safe:
  assumes "parse_request raw = Inr r"
  shows "case redirect_location r port of
      Inl e \<Rightarrow> \<exists>m s. e = HTTP1Error m s \<and> s \<in> {400, 501}
    | Inr loc \<Rightarrow> list_all printable loc \<and> (\<exists>host path. host \<noteq> [] \<and> starts_with ''/'' path \<and>
        loc = ''https://'' @ host @ (if port = 443 then [] else CHR '':'' # str_int port) @ path)"
  using redirect_location_outcome [OF assms, of port]
  unfolding location_outcome_ok_def location_ok_def .

theorem redirect_location_safe_witness:
  "redirect_location sample_request 443 = Inr ''https://a/'' \<and> list_all printable ''https://a/''"
proof -
  have l: "lower ''Host'' = ''host''" by code_simp
  have "redirect_location sample_request 443 = Inr ''https://a/''"
    by (simp add: redirect_location_def make_location_def sample_request_def values_of_def l validate_authority_def
        split_authority_def partition_at_def REG_NAME_RE_def uri_char_def char_class_defs check_port_def)
  with redirect_location_safe [OF sample_parse [of "[]"], of 443] show ?thesis by simp
qed

section \<open>The response\<close>

lemma read_head_fault:
  "fst (read_head es d) = Inl e \<Longrightarrow> http1_fault e \<or> e = TimeoutError \<or> Fail e \<in> set es"
proof (induction es d rule: read_head.induct)
  case (3 chunk es data)
  show ?case
  proof (cases "chunk = []")
    case True
    with "3.prems" show ?thesis by (auto split: if_splits)
  next
    case False
    show ?thesis
    proof (cases "check_head_size (data @ chunk) True")
      case (Inl x)
      with raises_head_size [of "data @ chunk" True] False "3.prems" show ?thesis
        by (auto simp: raises_def http1_fault_def)
    next
      case (Inr u)
      with "3.IH" [OF False Inr] "3.prems" False show ?thesis by (auto split: option.splits)
    qed
  qed
qed auto

definition outcome_ok :: "int \<Rightarrow> nat \<times> string option \<Rightarrow> bool" where
  "outcome_ok port out \<longleftrightarrow> (case snd out of
      None \<Rightarrow> fst out \<in> {400, 408, 414, 431, 501, 505}
    | Some l \<Rightarrow> fst out = 308 \<and> location_ok port l)"

lemma redirect_outcome_ok:
  assumes "\<forall>e. Fail e \<in> set es \<longrightarrow> is_OSError e"
  shows "case redirect_outcome port es of Inl e \<Rightarrow> is_OSError e | Inr None \<Rightarrow> True | Inr (Some out) \<Rightarrow> outcome_ok port out"
proof (cases "fst (read_head es [])")
  case (Inl e)
  from read_head_fault [OF Inl] consider m s where "e = HTTP1Error m s" "s \<in> {400, 414, 431, 501, 505}"
    | "is_OSError e" using assms by (auto simp: http1_fault_def)
  then show ?thesis
  proof cases
    case 1
    with Inl show ?thesis by (auto simp: redirect_outcome_def outcome_ok_def)
  next
    case 2
    with Inl show ?thesis by (cases e) (auto simp: redirect_outcome_def outcome_ok_def)
  qed
next
  case (Inr head)
  show ?thesis
  proof (cases "head = []")
    case True
    with Inr show ?thesis by (simp add: redirect_outcome_def)
  next
    case False
    show ?thesis
    proof (cases "parse_request head")
      case (Inl e)
      then obtain m s where "e = HTTP1Error m s" "s \<in> {400, 414, 431, 501, 505}"
        using parse_request_fault [OF Inl] by (auto simp: http1_fault_def)
      with Inr False Inl show ?thesis by (auto simp: redirect_outcome_def outcome_ok_def)
    next
      case r: (Inr r)
      from redirect_location_outcome [OF r, of port] Inr False r show ?thesis
        by (cases "redirect_location r port") (auto simp: redirect_outcome_def outcome_ok_def location_outcome_ok_def)
    qed
  qed
qed

definition text_line :: "string \<Rightarrow> bool" where
  "text_line s \<longleftrightarrow> s \<noteq> [] \<and> list_all (\<lambda>c. 32 \<le> (of_char c :: nat) \<and> of_char c \<le> (126 :: nat)) s"

lemma printable_text: "list_all printable s \<Longrightarrow> list_all (\<lambda>c. 32 \<le> (of_char c :: nat) \<and> of_char c \<le> (126 :: nat)) s"
  by (auto simp: list_all_iff printable_def)

lemma response_lines_text:
  assumes "outcome_ok port (s, loc)" and "text_line date"
  shows "\<forall>l \<in> set (response_lines date s loc). text_line l"
proof -
  have n: "list_all (\<lambda>c. 32 \<le> (of_char c :: nat) \<and> of_char c \<le> (126 :: nat)) (str_nat s)"
    using str_int_printable [of "int s"] by (intro printable_text) (simp add: str_int_def)
  have p: "list_all (\<lambda>c. 32 \<le> (of_char c :: nat) \<and> of_char c \<le> (126 :: nat)) (status_phrase s)"
    by (simp add: status_phrase_def)
  have l: "list_all (\<lambda>c. 32 \<le> (of_char c :: nat) \<and> of_char c \<le> (126 :: nat)) l" if "loc = Some l" for l
    using assms(1) that by (intro printable_text) (simp add: outcome_ok_def location_ok_def)
  have d: "list_all (\<lambda>c. 32 \<le> (of_char c :: nat) \<and> of_char c \<le> (126 :: nat)) date"
    using assms(2) by (simp add: text_line_def)
  show ?thesis
    using n p l d by (cases loc) (simp_all add: response_lines_def text_line_def)
qed

lemma asc_join: "asc (join_with sep xs) = join_with (asc sep) (map asc xs)"
  by (induction sep xs rule: join_with.induct) (simp_all add: asc_def)

lemma text_line_bytes: "text_line l \<Longrightarrow> clean_line (asc l)"
  unfolding clean_line_def byte_in_asc by (auto simp: text_line_def asc_def list_all_iff)

lemma encode_response:
  assumes "\<forall>l \<in> set ls. text_line l"
  shows "encode_ascii (join_with [CHR 0x0D, CHR 0x0A] ls @ [CHR 0x0D, CHR 0x0A, CHR 0x0D, CHR 0x0A]) =
    Inr (join_with CRLF (map asc ls) @ HEAD_END)"
proof -
  have "list_all (\<lambda>c. (of_char c :: nat) < 128) (join_with [CHR 0x0D, CHR 0x0A] ls)"
    using assms by (induction ls rule: induct_list012) (auto simp: text_line_def list_all_iff)
  moreover have "asc [CHR 0x0D, CHR 0x0A] = CRLF"
    "asc [CHR 0x0D, CHR 0x0A, CHR 0x0D, CHR 0x0A] = HEAD_END"
    by (simp_all add: asc_def CRLF_def HEAD_END_def char_byte_def)
  moreover have "asc (a @ b) = asc a @ asc b" for a b by (simp add: asc_def)
  ultimately show ?thesis by (simp add: encode_ascii_def asc_join)
qed

lemma HEAD_END_response:
  assumes "lines \<noteq> []" "\<forall>l \<in> set lines. text_line l"
  shows "find_sub HEAD_END (join_with CRLF (map asc lines) @ HEAD_END) = Some (length (join_with CRLF (map asc lines)))"
    and "split_crlf (join_with CRLF (map asc lines)) = map asc lines"
proof -
  have c: "map asc lines \<noteq> []" "\<forall>l \<in> set (map asc lines). clean_line l"
    using assms text_line_bytes by auto
  from find_head_end [OF c, of "[]"]
  show "find_sub HEAD_END (join_with CRLF (map asc lines) @ HEAD_END) = Some (length (join_with CRLF (map asc lines)))"
    by simp
  show "split_crlf (join_with CRLF (map asc lines)) = map asc lines"
    using c by (intro split_crlf_join) (auto simp: clean_line_def)
qed

text \<open>C28. The redirect service always answers with one well-formed response and never fails: whatever
  a client sends in whatever chunks, as long as the transport itself fails with nothing but an
  \<open>OSError\<close>, the handler returns normally, writing either nothing or a head whose only empty line is
  its end and whose lines are the status line, the date, a zero content length, \<open>connection: close\<close>
  and, exactly for a 308, the location. No request can inject a header line.\<close>

theorem redirect_response:
  assumes "\<forall>e. Fail e \<in> set es \<longrightarrow> is_OSError e" and "text_line date"
  shows "handle_redirect date port es = Inr None \<or>
    (\<exists>head status location. handle_redirect date port es = Inr (Some (head @ HEAD_END)) \<and>
       find_sub HEAD_END (head @ HEAD_END) = Some (length head) \<and>
       split_crlf head = map asc (response_lines date status location) \<and>
       (case location of None \<Rightarrow> status \<in> {400, 408, 414, 431, 501, 505} | Some l \<Rightarrow> status = 308 \<and> location_ok port l))"
proof (cases "redirect_outcome port es")
  case (Inl e)
  with redirect_outcome_ok [OF assms(1), of port] show ?thesis by (simp add: handle_redirect_def)
next
  case (Inr out)
  show ?thesis
  proof (cases out)
    case None
    with Inr show ?thesis by (simp add: handle_redirect_def)
  next
    case (Some p)
    then obtain s loc where out: "out = Some (s, loc)" by (cases p) auto
    let ?ls = "response_lines date s loc"
    have ok: "outcome_ok port (s, loc)" using redirect_outcome_ok [OF assms(1), of port] Inr out by simp
    note t = response_lines_text [OF ok assms(2)]
    have "?ls \<noteq> []" by (simp add: response_lines_def)
    note h = HEAD_END_response [OF this t]
    have "handle_redirect date port es = Inr (Some (join_with CRLF (map asc ?ls) @ HEAD_END))"
      using Inr out encode_response [OF t] by (simp add: handle_redirect_def)
    with h ok show ?thesis unfolding outcome_ok_def fst_conv snd_conv by blast
  qed
qed

theorem redirect_response_witness:
  "\<exists>head status. handle_redirect ''Mon'' 443 [Chunk [71], Chunk []] = Inr (Some (head @ HEAD_END)) \<and>
    split_crlf head = map asc (response_lines ''Mon'' status None) \<and> status \<in> {400, 408, 414, 431, 501, 505}"
proof -
  let ?es = "[Chunk [71], Chunk []]"
  have o: "redirect_outcome 443 ?es = Inr (Some (400, None))"
    by (simp add: redirect_outcome_def check_incomplete_ok HEAD_END_def bad_request_def)
  have t: "text_line ''Mon''" by (simp add: text_line_def)
  have ls: "\<forall>l \<in> set (response_lines ''Mon'' 400 None). text_line l"
    by (rule response_lines_text [of 443]) (simp_all add: outcome_ok_def t)
  have h: "handle_redirect ''Mon'' 443 ?es =
      Inr (Some (join_with CRLF (map asc (response_lines ''Mon'' 400 None)) @ HEAD_END))"
    using o encode_response [OF ls] by (simp add: handle_redirect_def)
  have e: "\<forall>e. Fail e \<in> set ?es \<longrightarrow> is_OSError e" by simp
  from redirect_response [OF e t, of 443] h HEAD_END_response(2) [OF _ ls]
  show ?thesis
    by (intro exI [of _ "join_with CRLF (map asc (response_lines ''Mon'' 400 None))"] exI [of _ 400])
      (simp add: response_lines_def)
qed

end
