(* ===== verification/Methods.thy ===== *)
theory Methods
  imports Prelude
begin

text \<open>
  More on methods that mutate a state and raise: access to the state, handlers, loops, and the laws
  that the proofs about stateful components share. \<open>wp m Q E s\<close> says that \<open>m\<close>, run in \<open>s\<close>, ends in a
  state with \<open>Q\<close> when it returns and with \<open>E\<close> when it raises; it is computed by equations. The locale
  \<open>step_relation\<close> has the rules for a reflexive and transitive relation between the states before and
  after a method.
\<close>

section \<open>Access, handlers, loops\<close>

definition modifyM :: "('s \<Rightarrow> 's) \<Rightarrow> ('s, unit) meth" where
  "modifyM f = (\<lambda>s. (Inr (), f s))"

definition getsM :: "('s \<Rightarrow> 'a) \<Rightarrow> ('s, 'a) meth" where
  "getsM f = (\<lambda>s. (Inr (f s), s))"

definition handleM :: "('s, 'a) meth \<Rightarrow> (exn \<Rightarrow> ('s, 'a) meth) \<Rightarrow> ('s, 'a) meth" where
  "handleM m h s = (case m s of (Inl e, s1) \<Rightarrow> h e s1 | r \<Rightarrow> r)"

text \<open>\<open>while True\<close> with the local variables \<open>x\<close>: the body continues with new ones or returns. A loop that
  never ends has no value in \<open>loopP\<close>; as a method it is \<open>Diverges\<close>.\<close>

partial_function (option) loopP :: "('x \<Rightarrow> ('s, 'x + 'a) meth) \<Rightarrow> 'x \<Rightarrow> 's \<Rightarrow> ((exn + 'a) \<times> 's) option" where
  "loopP turn v st =
     (case turn v st of
        (Inl e, s1) \<Rightarrow> Some (Inl e, s1)
      | (Inr r, s1) \<Rightarrow> (case r of Inr a \<Rightarrow> Some (Inr a, s1) | Inl x1 \<Rightarrow> loopP turn x1 s1))"

definition loopM :: "('x \<Rightarrow> ('s, 'x + 'a) meth) \<Rightarrow> 'x \<Rightarrow> ('s, 'a) meth" where
  "loopM body x s = (case loopP body x s of Some r \<Rightarrow> r | None \<Rightarrow> (Inl Diverges, s))"

lemma loopM_unfold:
  "body x s = (Inl e, s1) \<Longrightarrow> loopM body x s = (Inl e, s1)"
  "body x s = (Inr (Inr a), s1) \<Longrightarrow> loopM body x s = (Inr a, s1)"
  "body x s = (Inr (Inl x1), s1) \<Longrightarrow> loopP body x1 s1 = Some r \<Longrightarrow> loopM body x s = r"
  by (simp_all add: loopM_def loopP.simps [of body x s])

lemma loopM_turn:
  "body x s = (Inr (Inl x1), s1) \<Longrightarrow> loopM body x1 s1 = (Inr a, s') \<Longrightarrow> loopM body x s = (Inr a, s')"
  by (auto simp: loopM_def loopP.simps [of body x s] split: option.splits)

section \<open>Weakest preconditions\<close>

definition wp :: "('s, 'a) meth \<Rightarrow> ('a \<Rightarrow> 's \<Rightarrow> bool) \<Rightarrow> (exn \<Rightarrow> 's \<Rightarrow> bool) \<Rightarrow> 's \<Rightarrow> bool" where
  "wp m Q E s = (case m s of (Inr x, s') \<Rightarrow> Q x s' | (Inl e, s') \<Rightarrow> E e s')"

named_theorems wp_simps \<open>equations of \<open>wp\<close>\<close>

lemma wp_return [wp_simps]: "wp (ret x) Q E s = Q x s" "wp (raise e) Q E s = E e s"
  by (simp_all add: wp_def ret_def raise_def)

lemma wp_access [wp_simps]: "wp (modifyM f) Q E s = Q () (f s)" "wp (getsM g) Q' E s = Q' (g s) s"
  by (simp_all add: wp_def modifyM_def getsM_def)

lemma wp_bind [wp_simps]: "wp (bindM m k) Q E s = wp m (\<lambda>x. wp (k x) Q E) E s"
  by (auto simp: wp_def bindM_def split: prod.splits sum.splits)

lemma wp_handle [wp_simps]: "wp (handleM m h) Q E s = wp m Q (\<lambda>e. wp (h e) Q E) s"
  by (auto simp: wp_def handleM_def split: prod.splits sum.splits)

lemma wp_cases [wp_simps]:
  "wp (if d then m1 else m2) Q E s = (if d then wp m1 Q E s else wp m2 Q E s)"
  "wp (case opt of None \<Rightarrow> m0 | Some x \<Rightarrow> k x) Q E s = (case opt of None \<Rightarrow> wp m0 Q E s | Some x \<Rightarrow> wp (k x) Q E s)"
  "wp (case r of Inl e \<Rightarrow> f e | Inr y \<Rightarrow> g y) Q E s = (case r of Inl e \<Rightarrow> wp (f e) Q E s | Inr y \<Rightarrow> wp (g y) Q E s)"
  "wp (case p of (x, y) \<Rightarrow> l x y) Q E s = (case p of (x, y) \<Rightarrow> wp (l x y) Q E s)"
  by (auto split: option.splits sum.splits prod.splits)

lemma wp_mono: "wp m Q E s \<Longrightarrow> (\<And>x s'. Q x s' \<Longrightarrow> Q' x s') \<Longrightarrow> (\<And>e s'. E e s' \<Longrightarrow> E' e s') \<Longrightarrow> wp m Q' E' s"
  by (auto simp: wp_def split: prod.splits sum.splits)

lemma wp_conj: "wp m Q E s \<Longrightarrow> wp m Q' E' s \<Longrightarrow> wp m (\<lambda>x s'. Q x s' \<and> Q' x s') (\<lambda>e s'. E e s' \<and> E' e s') s"
  by (auto simp: wp_def split: prod.splits sum.splits)

lemma wpD:
  "wp m Q E s \<Longrightarrow> m s = (Inr x, s') \<Longrightarrow> Q x s'"
  "wp m Q E s \<Longrightarrow> m s = (Inl e, s') \<Longrightarrow> E e s'"
  by (auto simp: wp_def)

text \<open>Loops: the invariant of the turns, and a measure that decreases with every turn that continues.\<close>

lemma wp_loop:
  fixes m :: "'x \<Rightarrow> 's \<Rightarrow> nat"
  assumes "I x s"
    and turn: "\<And>x s. I x s \<Longrightarrow> wp (body x) (\<lambda>r s'. case r of Inr a \<Rightarrow> Q a s' | Inl x1 \<Rightarrow> I x1 s' \<and> m x1 s' < m x s) E s"
  shows "wp (loopM body x) Q E s"
proof -
  have "\<exists>r. loopP body x s = Some r \<and> (case r of (Inr a, s') \<Rightarrow> Q a s' | (Inl e, s') \<Rightarrow> E e s')" if "I x s" for x s
    using that
  proof (induction "m x s" arbitrary: x s rule: less_induct)
    case less
    obtain r s1 where b: "body x s = (r, s1)" by fastforce
    note t = turn [OF less.prems, unfolded wp_def b]
    show ?case
    proof (cases r)
      case (Inl e)
      with t b show ?thesis by (simp add: loopP.simps [of body x s])
    next
      case (Inr y)
      with t b less.hyps show ?thesis by (cases y) (simp_all add: loopP.simps [of body x s])
    qed
  qed
  with assms(1) show ?thesis by (fastforce simp: wp_def loopM_def)
qed

lemma loopP_post:
  "loopP body x s = Some y \<Longrightarrow>
    \<forall>x s. I x s \<longrightarrow> wp (body x) (\<lambda>r s'. case r of Inr a \<Rightarrow> Q a s' | Inl x1 \<Rightarrow> I x1 s') E s \<Longrightarrow> I x s \<Longrightarrow>
    (case y of (Inr a, s') \<Rightarrow> Q a s' | (Inl e, s') \<Rightarrow> E e s')"
proof (induction rule: loopP.raw_induct [rotated, consumes 1, case_names step])
  case (step loop body x s y)
  obtain r s1 where b: "body x s = (r, s1)" by fastforce
  have t: "wp (body x) (\<lambda>r s'. case r of Inr a \<Rightarrow> Q a s' | Inl x1 \<Rightarrow> I x1 s') E s" using step(3,4) by blast
  show ?case
  proof (cases r)
    case (Inl e)
    with t b step(2) show ?thesis by (auto simp: wp_def)
  next
    case (Inr z)
    with t b step(1) [OF _ step(3)] step(2) show ?thesis by (cases z) (auto simp: wp_def)
  qed
qed

lemma wp_loop_partial:
  assumes "I x s" and "\<And>s. E Diverges s"
    and turn: "\<And>x s. I x s \<Longrightarrow> wp (body x) (\<lambda>r s'. case r of Inr a \<Rightarrow> Q a s' | Inl x1 \<Rightarrow> I x1 s') E s"
  shows "wp (loopM body x) Q E s"
proof (cases "loopP body x s")
  case (Some y)
  have "case y of (Inr a, s') \<Rightarrow> Q a s' | (Inl e, s') \<Rightarrow> E e s'"
    by (rule loopP_post [where I = I, OF Some]) (use turn assms(1) in auto)
  with Some show ?thesis by (simp add: wp_def loopM_def)
qed (use assms(2) in \<open>simp add: wp_def loopM_def\<close>)

section \<open>What a method keeps\<close>

definition meth_keeps :: "('s \<Rightarrow> bool) \<Rightarrow> ('s, 'a) meth \<Rightarrow> bool" where
  "meth_keeps J m \<longleftrightarrow> (\<forall>s. J s \<longrightarrow> J (snd (m s)))"

lemma keeps_bind: "meth_keeps J m \<Longrightarrow> (\<And>x. meth_keeps J (f x)) \<Longrightarrow> meth_keeps J (bindM m f)"
  by (auto simp: meth_keeps_def bindM_def split: prod.splits sum.splits)

lemma keeps_simple: "meth_keeps J (ret x)" "meth_keeps J (raise e)"
  by (simp_all add: meth_keeps_def ret_def raise_def)

section \<open>Relations between the states before and after\<close>

definition moves :: "('s \<Rightarrow> 's \<Rightarrow> bool) \<Rightarrow> ('s, 'a) meth \<Rightarrow> bool" where
  "moves R m \<longleftrightarrow> (\<forall>s. R s (snd (m s)))"

text \<open>With an invariant \<open>I\<close> that holds again when the method returns, though not when it raises.\<close>

definition contract :: "('s \<Rightarrow> 's \<Rightarrow> bool) \<Rightarrow> ('s \<Rightarrow> bool) \<Rightarrow> ('s, 'a) meth \<Rightarrow> bool" where
  "contract R I m \<longleftrightarrow> (\<forall>s. wp m (\<lambda>_ s'. R s s' \<and> (I s \<longrightarrow> I s')) (\<lambda>_. R s) s)"

lemma moves_wp: "(\<And>s. wp m (\<lambda>_. R s) (\<lambda>_. R s) s) \<Longrightarrow> moves R m"
  unfolding moves_def wp_def
proof
  fix s assume "\<And>s. case m s of (Inl e, s') \<Rightarrow> R s s' | (Inr x, s') \<Rightarrow> R s s'"
  from this [of s] show "R s (snd (m s))" by (auto split: prod.splits sum.splits)
qed

locale step_relation =
  fixes R :: "'s \<Rightarrow> 's \<Rightarrow> bool"
  assumes refl: "R s s"
    and trans: "R a b \<Longrightarrow> R b c \<Longrightarrow> R a c"
begin

lemma return: "moves R (ret x)" "moves R (raise e)"
  by (simp_all add: moves_def ret_def raise_def refl)

lemma update: "(\<And>s. R s (f s)) \<Longrightarrow> moves R (modifyM f)"
  by (simp add: moves_def modifyM_def)

lemma bind: "moves R m \<Longrightarrow> (\<And>x. moves R (f x)) \<Longrightarrow> moves R (bindM m f)"
  unfolding moves_def bindM_def by (auto split: prod.splits sum.splits) (metis snd_conv trans)+

lemma branch: "(c \<Longrightarrow> moves R a) \<Longrightarrow> (\<not> c \<Longrightarrow> moves R b) \<Longrightarrow> moves R (if c then a else b)"
  by simp

lemma gets: "moves R (getsM f)"
  by (simp add: moves_def getsM_def refl)

lemma handle: "moves R m \<Longrightarrow> (\<And>e. moves R (h e)) \<Longrightarrow> moves R (handleM m h)"
  unfolding moves_def handleM_def by (auto split: prod.splits sum.splits) (metis snd_conv trans)+

lemma prod: "(\<And>x y. moves R (f x y)) \<Longrightarrow> moves R (case p of (x, y) \<Rightarrow> f x y)"
  by (cases p) auto

lemma option: "moves R a \<Longrightarrow> (\<And>x. moves R (f x)) \<Longrightarrow> moves R (case p of None \<Rightarrow> a | Some x \<Rightarrow> f x)"
  by (cases p) auto

lemma sum: "(\<And>x. moves R (f x)) \<Longrightarrow> (\<And>x. moves R (g x)) \<Longrightarrow> moves R (case p of Inl x \<Rightarrow> f x | Inr x \<Rightarrow> g x)"
  by (cases p) auto

lemma wp_moves: "moves R m \<Longrightarrow> (\<And>x s'. R s s' \<Longrightarrow> Q x s') \<Longrightarrow> (\<And>e s'. R s s' \<Longrightarrow> E e s') \<Longrightarrow> wp m Q E s"
  by (auto simp: wp_def moves_def split: prod.splits sum.splits) (metis snd_conv)+

lemma loop:
  assumes "\<And>x. moves R (body x)"
  shows "moves R (loopM body x)"
proof (rule moves_wp)
  fix s
  have turn: "\<forall>x s1. R s s1 \<longrightarrow> wp (body x) (\<lambda>r s'. case r of Inr a \<Rightarrow> R s s' | Inl x1 \<Rightarrow> R s s') (\<lambda>_. R s) s1"
    by (intro allI impI wp_moves [OF assms]) (auto split: sum.splits intro: trans)
  show "wp (loopM body x) (\<lambda>_. R s) (\<lambda>_. R s) s"
  proof (cases "loopP body x s")
    case None
    then show ?thesis by (simp add: wp_def loopM_def refl)
  next
    case (Some y)
    from loopP_post [OF Some turn refl] show ?thesis by (simp add: wp_def loopM_def Some)
  qed
qed

lemmas intros = return bind branch option sum gets handle prod

lemma contractD: "contract R I m \<Longrightarrow> wp m (\<lambda>_ s'. R s s' \<and> (I s \<longrightarrow> I s')) (\<lambda>_. R s) s"
  by (simp add: contract_def)

lemma contract_return: "contract R I (ret x)" "contract R I (raise e)" "contract R I (getsM f)"
  by (simp_all add: contract_def wp_simps refl)

lemma contract_bind:
  assumes "contract R I m" "\<And>x. contract R I (k x)"
  shows "contract R I (bindM m k)"
  unfolding contract_def wp_simps
proof
  fix s
  show "wp m (\<lambda>x. wp (k x) (\<lambda>_ s'. R s s' \<and> (I s \<longrightarrow> I s')) (\<lambda>_. R s)) (\<lambda>_. R s) s"
  proof (rule wp_mono [OF contractD [OF assms(1)]])
    fix x s1 assume 1: "R s s1 \<and> (I s \<longrightarrow> I s1)"
    show "wp (k x) (\<lambda>_ s'. R s s' \<and> (I s \<longrightarrow> I s')) (\<lambda>_. R s) s1"
      by (rule wp_mono [OF contractD [OF assms(2)]]) (use 1 trans in blast)+
  qed
qed

lemma contract_branch: "(c \<Longrightarrow> contract R I a) \<Longrightarrow> (\<not> c \<Longrightarrow> contract R I b) \<Longrightarrow> contract R I (if c then a else b)"
  by simp

lemma contract_option:
  "(p = None \<Longrightarrow> contract R I a) \<Longrightarrow> (\<And>x. p = Some x \<Longrightarrow> contract R I (f x)) \<Longrightarrow> contract R I (case p of None \<Rightarrow> a | Some x \<Rightarrow> f x)"
  by (cases p) auto

lemma contract_sum:
  "(\<And>x. contract R I (f x)) \<Longrightarrow> (\<And>x. contract R I (g x)) \<Longrightarrow> contract R I (case p of Inl x \<Rightarrow> f x | Inr x \<Rightarrow> g x)"
  by (cases p) auto

lemma contract_prod: "(\<And>x y. contract R I (f x y)) \<Longrightarrow> contract R I (case p of (x, y) \<Rightarrow> f x y)"
  by (cases p) auto

lemma contract_handle:
  assumes "contract R I m" "\<And>e. moves R (h e)" "\<And>e s s' x. h e s \<noteq> (Inr x, s')"
  shows "contract R I (handleM m h)"
  unfolding contract_def wp_simps
proof
  fix s
  show "wp m (\<lambda>_ s'. R s s' \<and> (I s \<longrightarrow> I s')) (\<lambda>e. wp (h e) (\<lambda>_ s'. R s s' \<and> (I s \<longrightarrow> I s')) (\<lambda>_. R s)) s"
  proof (rule wp_mono [OF contractD [OF assms(1)]])
    fix e s1 assume "R s s1"
    moreover obtain e' s2 where "h e s1 = (Inl e', s2)" using assms(3) by (metis sum.exhaust surj_pair)
    ultimately show "wp (h e) (\<lambda>_ s'. R s s' \<and> (I s \<longrightarrow> I s')) (\<lambda>_. R s) s1"
      using assms(2) [of e] trans by (auto simp: wp_def moves_def) (metis snd_conv)
  qed
qed

lemmas contracts = contract_return contract_bind contract_branch contract_option contract_sum contract_prod

end

lemma moves_mono: "moves R m \<Longrightarrow> (\<And>s s'. R s s' \<Longrightarrow> R' s s') \<Longrightarrow> moves R' m"
  by (simp add: moves_def)

lemma moves_eq: "moves R m \<Longrightarrow> m s = (r, s') \<Longrightarrow> R s s'"
  by (metis moves_def snd_conv)

section \<open>Methods that end\<close>

text \<open>A method that ends on every state.\<close>

definition ends :: "('s, 'a) meth \<Rightarrow> bool" where
  "ends m \<longleftrightarrow> (\<forall>s. wp m (\<lambda>_ _. True) (\<lambda>e _. e \<noteq> Diverges) s)"

lemma ends_wp: "ends m \<Longrightarrow> (\<And>x s. Q x s) \<Longrightarrow> (\<And>e s. e \<noteq> Diverges \<Longrightarrow> E e s) \<Longrightarrow> wp m Q E s"
  by (rule wp_mono [of m "\<lambda>_ _. True" "\<lambda>e _. e \<noteq> Diverges"]) (auto simp: ends_def)

lemma endsI: "(\<And>s. wp m (\<lambda>_ _. True) (\<lambda>e _. e \<noteq> Diverges) s) \<Longrightarrow> ends m"
  by (simp add: ends_def)

lemma ends_snd: "ends m \<Longrightarrow> Q (snd (m s)) \<Longrightarrow> wp m (\<lambda>_. Q) (\<lambda>e _. e \<noteq> Diverges) s"
  by (auto simp: ends_def wp_def split: prod.splits sum.splits)

lemma ends_simple: "ends (ret x)" "ends (getsM f)" "ends (modifyM g)" "e \<noteq> Diverges \<Longrightarrow> ends (raise e)"
  by (simp_all add: ends_def wp_simps)

lemma ends_bind: "ends m \<Longrightarrow> (\<And>x. ends (k x)) \<Longrightarrow> ends (bindM m k)"
  by (rule endsI, unfold wp_bind, rule ends_wp) (auto intro: ends_wp)

lemma ends_handle: "ends m \<Longrightarrow> (\<And>e. e \<noteq> Diverges \<Longrightarrow> ends (h e)) \<Longrightarrow> ends (handleM m h)"
  by (rule endsI, unfold wp_handle, rule ends_wp) (auto intro: ends_wp)

lemma ends_branch: "(d \<Longrightarrow> ends m) \<Longrightarrow> (\<not> d \<Longrightarrow> ends m') \<Longrightarrow> ends (if d then m else m')"
  by simp

lemma ends_prod: "(\<And>x y. ends (f x y)) \<Longrightarrow> ends (case p of (x, y) \<Rightarrow> f x y)"
  by (cases p) simp

end
