(* ===== verification/Tls_Stream.thy ===== *)
theory Tls_Stream
  imports Methods Client_Hello Tls_Extensions
begin

text \<open>
  The lower half of \<open>solvetls/connection.py\<close>: the TCP stream, the two memory BIOs and the \<open>SSLObject\<close> of
  a connection. asyncio's streams and OpenSSL are the environment of the program: a record of operations
  on a state of any type, each of which may raise. A \<open>TimeoutError\<close> of an operation is the expiry of the
  \<open>wait_for\<close> around it, \<open>CancelledError True\<close> the expiry of an enclosing \<open>asyncio.timeout\<close>.
\<close>

section \<open>Environment\<close>

record 'e net_api =
  net_read :: "nat \<Rightarrow> ('e, bytes) meth"
  net_readexactly :: "nat \<Rightarrow> ('e, bytes) meth"
  net_write :: "bytes \<Rightarrow> ('e, unit) meth"
  net_drain :: "('e, unit) meth"
  net_can_write_eof :: "'e \<Rightarrow> bool"
  net_write_eof :: "('e, unit) meth"
  net_is_closing :: "'e \<Rightarrow> bool"
  net_close :: "('e, unit) meth"
  net_wait_closed :: "('e, unit) meth"
  net_abort :: "('e, unit) meth"
  bio_write :: "bytes \<Rightarrow> ('e, unit) meth"
  bio_pending :: "'e \<Rightarrow> bool"
  bio_read :: "('e, bytes) meth"
  ssl_do_handshake :: "('e, unit) meth"
  ssl_read :: "nat \<Rightarrow> ('e, bytes) meth"
  ssl_write :: "bytes \<Rightarrow> ('e, unit) meth"
  ssl_unwrap :: "('e, unit) meth"
  ssl_version :: "'e \<Rightarrow> string option"
  ssl_alpn :: "'e \<Rightarrow> string option"

text \<open>\<open>bio_write\<close> is \<open>_incoming.write\<close>; \<open>bio_pending\<close> and \<open>bio_read\<close> are those of \<open>_outgoing\<close>.\<close>

record 'e tls =
  tl_env :: 'e
  tl_eof :: bool
  tl_shutdown_sent :: bool
  tl_fatal_alert_sent :: bool

definition on_env :: "('e, 'a) meth \<Rightarrow> ('e tls, 'a) meth" where
  "on_env m s = (case m (tl_env s) of (r, e) \<Rightarrow> (r, s\<lparr>tl_env := e\<rparr>))"

definition TLS_RECORD_HEADER_SIZE :: nat where [simp]: "TLS_RECORD_HEADER_SIZE = 5"
definition TLS_ALERT_CONTENT_TYPE :: byte where [simp]: "TLS_ALERT_CONTENT_TYPE = 0x15"
definition TLS_HANDSHAKE_CONTENT_TYPE :: byte where [simp]: "TLS_HANDSHAKE_CONTENT_TYPE = 0x16"
definition TLS_CLIENT_HELLO_TYPE :: byte where [simp]: "TLS_CLIENT_HELLO_TYPE = 0x01"
definition TLS_MESSAGE_HEADER_SIZE :: nat where [simp]: "TLS_MESSAGE_HEADER_SIZE = 4"
definition MAX_TLS_RECORD_SIZE :: nat where "MAX_TLS_RECORD_SIZE = 16384"
definition MAX_CLIENT_HELLO_SIZE :: nat where "MAX_CLIENT_HELLO_SIZE = 65536"
definition PLAINTEXT_CHUNK_SIZE :: nat where "PLAINTEXT_CHUNK_SIZE = 65536"
definition MAX_HANDSHAKE_BYTES :: nat where "MAX_HANDSHAKE_BYTES = 1048576"
definition SUPPORTED_ALPN :: "bytes list" where "SUPPORTED_ALPN = [asc ''h2'', asc ''http/1.1'']"

section \<open>Sending\<close>

definition handle_outgoing_data :: "'e net_api \<Rightarrow> ('e tls, unit) meth" where
  "handle_outgoing_data net =
     loopM (\<lambda>_. bindM (getsM (\<lambda>s. bio_pending net (tl_env s))) (\<lambda>pending.
       if \<not> pending then ret (Inr ())
       else bindM (on_env (bio_read net)) (\<lambda>encrypted_data.
            bindM (on_env (net_write net encrypted_data)) (\<lambda>_.
            bindM (handleM (on_env (net_drain net))
                     (\<lambda>e. raise (if e = TimeoutError then PyConnectionError ''Write timeout'' else e))) (\<lambda>_.
            ret (Inl ())))))) ()"

definition must_answer_peer_close :: "'e net_api \<Rightarrow> 'e tls \<Rightarrow> bool" where
  "must_answer_peer_close net s \<longleftrightarrow> tl_eof s \<and> ssl_version net (tl_env s) \<noteq> Some ''TLSv1.3''"

definition answer_peer_close :: "'e net_api \<Rightarrow> ('e tls, unit) meth" where
  "answer_peer_close net =
     bindM (getsM tl_shutdown_sent) (\<lambda>sent.
     bindM (if \<not> sent
            then bindM (handleM (on_env (ssl_unwrap net)) (\<lambda>e. if e = SSLWantReadError then ret () else raise e))
                   (\<lambda>_. modifyM (\<lambda>s. s\<lparr>tl_shutdown_sent := True\<rparr>))
            else ret ()) (\<lambda>_.
     handle_outgoing_data net))"

definition tls_write :: "'e net_api \<Rightarrow> bytes \<Rightarrow> ('e tls, unit) meth" where
  "tls_write net content =
     bindM (getsM (must_answer_peer_close net)) (\<lambda>closed.
       if closed then bindM (answer_peer_close net) (\<lambda>_. raise (ConnectionResetError ''Peer sent TLS close_notify''))
       else bindM (on_env (ssl_write net content)) (\<lambda>_. handle_outgoing_data net))"

definition send_plaintext_alert :: "'e net_api \<Rightarrow> byte \<Rightarrow> ('e tls, unit) meth" where
  "send_plaintext_alert net description =
     bindM (getsM tl_fatal_alert_sent) (\<lambda>sent.
       if sent then ret ()
       else bindM (modifyM (\<lambda>s. s\<lparr>tl_fatal_alert_sent := True\<rparr>)) (\<lambda>_.
            bindM (on_env (net_write net ([0x15, 0x03, 0x03, 0x00, 0x02, 0x02] @ [description]))) (\<lambda>_.
            on_env (net_drain net))))"

section \<open>Receiving\<close>

text \<open>\<open>_drain_plaintext\<close>: \<open>None\<close> stands for a read that has to wait.\<close>

definition drain_plaintext :: "'e net_api \<Rightarrow> ('e tls, bytes) meth" where
  "drain_plaintext net =
     loopM (\<lambda>chunks.
       bindM (handleM (bindM (on_env (ssl_read net PLAINTEXT_CHUNK_SIZE)) (\<lambda>chunk. ret (Some chunk)))
                (\<lambda>e. if e = SSLWantReadError \<or> e = SSLWantWriteError then ret None else raise e)) (\<lambda>r.
       case r of
         None \<Rightarrow> ret (Inr (concat chunks))
       | Some chunk \<Rightarrow>
           if chunk = [] then bindM (modifyM (\<lambda>s. s\<lparr>tl_eof := True\<rparr>)) (\<lambda>_. ret (Inr (concat chunks)))
           else ret (Inl (chunks @ [chunk])))) []"

definition tls_read :: "'e net_api \<Rightarrow> nat \<Rightarrow> ('e tls, bytes) meth" where
  "tls_read net n =
     loopM (\<lambda>_.
       bindM (drain_plaintext net) (\<lambda>plaintext.
       bindM (handle_outgoing_data net) (\<lambda>_.
       bindM (getsM (must_answer_peer_close net)) (\<lambda>closed.
       if closed then bindM (answer_peer_close net) (\<lambda>_. raise (ConnectionResetError ''Peer sent TLS close_notify''))
       else if plaintext \<noteq> [] then ret (Inr plaintext)
       else bindM (getsM tl_eof) (\<lambda>eof.
       if eof then raise (ConnectionResetError ''Connection closed'')
       else bindM (handleM (on_env (net_read net (min n PLAINTEXT_CHUNK_SIZE)))
                     (\<lambda>e. raise (if e = TimeoutError then ConnectionResetError ''Read timeout'' else e))) (\<lambda>encrypted_data.
            if encrypted_data = [] then raise (ConnectionResetError ''Connection closed'')
            else bindM (on_env (bio_write net encrypted_data)) (\<lambda>_. ret (Inl ())))))))) ()"

definition drain_peer :: "'e net_api \<Rightarrow> ('e tls, unit) meth" where
  "drain_peer net =
     loopM (\<lambda>_. bindM (on_env (net_read net PLAINTEXT_CHUNK_SIZE)) (\<lambda>data. ret (if data = [] then Inr () else Inl ()))) ()"

section \<open>The ClientHello\<close>

definition read_exactly :: "'e net_api \<Rightarrow> nat \<Rightarrow> ('e tls, bytes) meth" where
  "read_exactly net n =
     handleM (on_env (net_readexactly net n))
       (\<lambda>e. raise (if e = IncompleteReadError then PyConnectionError ''Incomplete handshake data'' else e))"

text \<open>The checks of a record header; \<open>readexactly\<close> returns as many bytes as it is asked for.\<close>

definition check_record_header :: "'e net_api \<Rightarrow> bytes \<Rightarrow> ('e tls, nat) meth" where
  "check_record_header net header =
     (case header of
        [content_type, _, _, high, low] \<Rightarrow>
          if content_type \<noteq> TLS_HANDSHAKE_CONTENT_TYPE
          then bindM (if content_type \<noteq> TLS_ALERT_CONTENT_TYPE then send_plaintext_alert net 10 else ret ())
                 (\<lambda>_. raise (SSLError ''Invalid SSL handshake''))
          else let record_length = be_nat [high, low] in
            if \<not> (0 < record_length \<and> record_length \<le> MAX_TLS_RECORD_SIZE)
            then bindM (if record_length > MAX_TLS_RECORD_SIZE then send_plaintext_alert net 22 else ret ())
                   (\<lambda>_. raise (SSLError ''Invalid handshake record length''))
            else ret record_length
      | _ \<Rightarrow> raise StructError)"

text \<open>The length of the message, once its header is there.\<close>

definition check_message :: "'e net_api \<Rightarrow> nat option \<Rightarrow> bytes \<Rightarrow> ('e tls, nat option) meth" where
  "check_message net message_length message =
     (if message_length = None \<and> length message \<ge> TLS_MESSAGE_HEADER_SIZE then
        if hd message \<noteq> TLS_CLIENT_HELLO_TYPE
        then bindM (send_plaintext_alert net 10) (\<lambda>_. raise (SSLError ''Not Client Hello''))
        else let len = be_nat (slice message 1 4) in
          if len > MAX_CLIENT_HELLO_SIZE then raise (SSLError ''Client Hello too large'') else ret (Some len)
      else ret message_length)"

definition hello_complete :: "bytes \<times> bytes \<times> nat option \<Rightarrow> bool" where
  "hello_complete v = (case v of (raw, message, message_length) \<Rightarrow>
     (case message_length of None \<Rightarrow> False | Some len \<Rightarrow> length message \<ge> len + TLS_MESSAGE_HEADER_SIZE))"

text \<open>The loop: the raw records, the message so far and its length.\<close>

definition read_records :: "'e net_api \<Rightarrow> ('e tls, bytes \<times> bytes \<times> nat option) meth" where
  "read_records net =
     loopM (\<lambda>(raw, message, message_length).
       if hello_complete (raw, message, message_length) then ret (Inr (raw, message, message_length))
       else bindM (read_exactly net TLS_RECORD_HEADER_SIZE) (\<lambda>header.
            bindM (check_record_header net header) (\<lambda>record_length.
            bindM (read_exactly net record_length) (\<lambda>payload.
            bindM (check_message net message_length (message @ payload)) (\<lambda>message_length'.
            ret (Inl (raw @ header @ payload, message @ payload, message_length'))))))) ([], [], None)"

definition read_client_hello :: "'e net_api \<Rightarrow> ('e tls, bytes \<times> client_hello) meth" where
  "read_client_hello net =
     bindM (read_records net) (\<lambda>(raw, message, message_length).
       let body = slice message TLS_MESSAGE_HEADER_SIZE (TLS_MESSAGE_HEADER_SIZE + the message_length) in
       case parses parse_client_hello body of
         Inr hello \<Rightarrow> ret (raw, hello)
       | Inl e \<Rightarrow> if is_ValueError e
                 then bindM (send_plaintext_alert net 50) (\<lambda>_. raise (SSLError ''Malformed ClientHello''))
                 else raise e)"

definition has_shared_alpn :: "client_hello \<Rightarrow> exn + bool" where
  "has_shared_alpn hello =
     (case filter (\<lambda>x. ext_type x = EXT_ALPN) (ch_extensions hello) of
        [] \<Rightarrow> Inr True
      | x # _ \<Rightarrow>
          (case parse_alpn_protocols (ext_data x) of
             Inl e \<Rightarrow> if is_ValueError e then Inr True else Inl e
           | Inr protocols \<Rightarrow> Inr (protocols = [] \<or> (\<exists>p \<in> set protocols. p \<in> set SUPPORTED_ALPN))))"

section \<open>Handshake\<close>

definition tryM :: "('s, 'a) meth \<Rightarrow> ('s, exn + 'a) meth" where
  "tryM m s = (case m s of (r, s1) \<Rightarrow> (Inr r, s1))"

definition handshake_loop :: "'e net_api \<Rightarrow> nat \<Rightarrow> ('e tls, unit) meth" where
  "handshake_loop net received =
     loopM (\<lambda>received.
       bindM (tryM (on_env (ssl_do_handshake net))) (\<lambda>r.
       case r of
         Inr _ \<Rightarrow> ret (Inr ())
       | Inl e \<Rightarrow>
           if e = SSLWantReadError then
             bindM (handle_outgoing_data net) (\<lambda>_.
             bindM (on_env (net_read net PLAINTEXT_CHUNK_SIZE)) (\<lambda>data.
             if data = [] then raise (ConnectionResetError ''Closed during handshake'')
             else if received + length data > MAX_HANDSHAKE_BYTES then raise (SSLError ''Handshake too large'')
             else bindM (on_env (bio_write net data)) (\<lambda>_. ret (Inl (received + length data)))))
           else if e = SSLWantWriteError then bindM (handle_outgoing_data net) (\<lambda>_. ret (Inl received))
           else raise e)) received"

end
