(* ===== verification/Http2_Validation.thy ===== *)
theory Http2_Validation
  imports Http1_Correct
begin

text \<open>
  \<open>solvetls/http2/validation.py\<close>: the checks on the decoded fields of an HTTP/2 request. The final
  step calls \<open>validate_headers\<close> of the h2 package, which is a parameter \<open>h2_validate\<close> of the model:
  a function of the trailer flag and the fields that may raise.
\<close>

type_synonym field_list = "(bytes \<times> bytes) list"
type_synonym h2_validator = "bool \<Rightarrow> field_list \<Rightarrow> exn + unit"

section \<open>Model\<close>

text \<open>\<open>ProtocolError\<close> of h2 carries the error code \<open>PROTOCOL_ERROR\<close> unless it is replaced.\<close>

definition protocol_error :: "string \<Rightarrow> exn" where
  "protocol_error m = ProtocolError m 1"

definition TOKEN :: "bytes \<Rightarrow> bool" where
  "TOKEN b \<longleftrightarrow> b \<noteq> [] \<and> list_all tchar (latin1 b)"

definition SCHEME :: "bytes \<Rightarrow> bool" where
  "SCHEME b \<longleftrightarrow> b \<noteq> [] \<and> is_alpha (byte_char (hd b)) \<and>
     list_all (\<lambda>c. is_alnum c \<or> c \<in> set ''+.-'') (latin1 (tl b))"

text \<open>\<open>bytes.isdigit\<close>, \<open>values.get(name, other)\<close> and the values of one field.\<close>

definition isdigit :: "bytes \<Rightarrow> bool" where
  "isdigit b \<longleftrightarrow> b \<noteq> [] \<and> list_all is_digit (latin1 b)"

definition get_field :: "field_list \<Rightarrow> string \<Rightarrow> bytes \<Rightarrow> bytes" where
  "get_field values name other = (case map_of values (asc name) of Some v \<Rightarrow> v | None \<Rightarrow> other)"

definition field_values :: "string \<Rightarrow> field_list \<Rightarrow> bytes list" where
  "field_values name headers = map snd (filter (\<lambda>h. fst h = asc name) headers)"

definition blank :: "byte \<Rightarrow> bool" where
  "blank b \<longleftrightarrow> b = 32 \<or> b = 9"

definition validate_raw_field :: "bool \<Rightarrow> bytes \<times> bytes \<Rightarrow> exn + unit" where
  "validate_raw_field trailers h =
     (case h of (name, value) \<Rightarrow>
        if (0 \<in> set value \<or> 10 \<in> set value \<or> 13 \<in> set value) \<or>
           value \<noteq> [] \<and> (blank (hd value) \<or> blank (last value))
        then Inl (protocol_error ''Invalid HTTP field value'')
        else if \<not> starts_with (asc '':'') name \<and> \<not> TOKEN name
        then Inl (protocol_error ''Invalid HTTP field name'')
        else if name = asc ''content-length'' \<and> (value = [] \<or> \<not> isdigit value \<or> trailers)
        then Inl (protocol_error ''Invalid Content-Length field'')
        else Inr ())"

fun validate_raw_fields :: "bool \<Rightarrow> field_list \<Rightarrow> exn + unit" where
  "validate_raw_fields trailers [] = Inr ()"
| "validate_raw_fields trailers (h # hs) =
     bindR (validate_raw_field trailers h) (\<lambda>_. validate_raw_fields trailers hs)"

text \<open>\<open>value.lstrip(b"0")\<close>.\<close>

definition lstrip_zeros :: "bytes \<Rightarrow> bytes" where
  "lstrip_zeros value = lstrip (asc ''0'') value"

definition validate_field_lists :: "field_list \<Rightarrow> exn + unit" where
  "validate_field_lists headers =
     (let lengths = field_values ''content-length'' headers in
      if lengths \<noteq> [] \<and> (\<exists>v \<in> set lengths. lstrip_zeros v \<noteq> lstrip_zeros (hd lengths))
      then Inl (protocol_error ''Conflicting Content-Length fields'')
      else if length (field_values ''host'' headers) > 1
      then Inl (protocol_error ''Duplicate Host fields'')
      else case parse_http_list (map Bytes (field_values ''te'' headers)) of
          Inl e \<Rightarrow> if is_ValueError e then Inl (protocol_error (exn_str e)) else Inl e
        | Inr transfer_options \<Rightarrow>
            if \<exists>v \<in> set transfer_options. lower v \<noteq> ''trailers''
            then Inl (protocol_error ''Invalid TE field'') else Inr ())"

definition check_authorities :: "field_list \<Rightarrow> string \<Rightarrow> bool \<Rightarrow> string \<Rightarrow> exn + string" where
  "check_authorities values authority connect scheme =
     bindR (validate_authority authority connect) (\<lambda>host.
       case (map_of values (asc '':authority''), map_of values (asc ''host'')) of
         (Some _, Some h) \<Rightarrow>
           bindR (normalize_authority authority scheme connect) (\<lambda>normalized_authority.
           bindR (normalize_authority (latin1 h) scheme connect) (\<lambda>normalized_host.
           if normalized_authority \<noteq> normalized_host
           then Inl (protocol_error ''Host and :authority do not match'') else Inr host))
       | _ \<Rightarrow> Inr host)"

definition validate_request_authority :: "field_list \<Rightarrow> bool \<Rightarrow> bytes \<Rightarrow> exn + unit" where
  "validate_request_authority values connect scheme =
     (let authority = latin1 (get_field values '':authority'' (get_field values ''host'' [])) in
      case check_authorities values authority connect (latin1 scheme) of
        Inl e \<Rightarrow> if is_ValueError e then Inl (protocol_error (exn_str e)) else Inl e
      | Inr host \<Rightarrow> if host = [] then Inl (protocol_error ''Invalid request authority'') else Inr ())"

definition validate_request_path :: "bytes \<Rightarrow> exn + unit" where
  "validate_request_path path =
     (case bindR (ascii_decode path) (\<lambda>s.
             case partition_at CHR ''?'' s of (path_text, _, query) \<Rightarrow> validate_path_query path_text query) of
        Inl e \<Rightarrow> if is_ValueError e then Inl (protocol_error ''Invalid request path'') else Inl e
      | Inr _ \<Rightarrow> Inr ())"

definition validate_request_target :: "field_list \<Rightarrow> exn + unit" where
  "validate_request_target values =
     (let method = get_field values '':method'' []; scheme = get_field values '':scheme'' [] in
      if \<not> TOKEN method then Inl (protocol_error ''Invalid request method'')
      else if map_of values (asc '':protocol'') \<noteq> None
      then Inl (protocol_error ''Extended CONNECT was not enabled'')
      else bindR
        (if method \<noteq> asc ''CONNECT'' then
           let path = get_field values '':path'' [] in
           if \<not> SCHEME scheme then Inl (protocol_error ''Invalid request scheme'')
           else if bytes_lower scheme \<in> {asc ''http'', asc ''https''} \<and>
             \<not> (starts_with (asc ''/'') path \<or> path = asc ''*'' \<and> method = asc ''OPTIONS'')
           then Inl (protocol_error ''Invalid request path'')
           else validate_request_path path
         else if get_field values '':authority'' [] = []
         then Inl (protocol_error ''CONNECT requires an authority'') else Inr ())
        (\<lambda>_. validate_request_authority values (method = asc ''CONNECT'') scheme))"

definition headers_for_h2 :: "field_list \<Rightarrow> field_list \<Rightarrow> bool \<Rightarrow> field_list" where
  "headers_for_h2 headers values trailers =
     map (\<lambda>(name, value).
            if name = asc ''te'' then (name, asc ''trailers'')
            else if name = asc ''host'' \<and> map_of values (asc '':authority'') \<noteq> None \<and> \<not> trailers
            then (name, get_field values '':authority'' [])
            else (name, value)) headers"

definition validate_fields :: "h2_validator \<Rightarrow> field_list \<Rightarrow> bool \<Rightarrow> exn + unit" where
  "validate_fields h2_validate headers trailers =
     (let values = dict_of headers in
      bindR (validate_raw_fields trailers headers) (\<lambda>_.
      bindR (validate_field_lists headers) (\<lambda>_.
      bindR (if \<not> trailers then validate_request_target values else Inr ()) (\<lambda>_.
      h2_validate trailers (headers_for_h2 headers values trailers)))))"

section \<open>Accepted requests\<close>

lemma validate_raw_fields_iff:
  "validate_raw_fields trailers hs = Inr () \<longleftrightarrow> (\<forall>h \<in> set hs. validate_raw_field trailers h = Inr ())"
  by (induction hs) (auto simp: bindR_eq_Inr)

definition clean_field :: "bool \<Rightarrow> bytes \<times> bytes \<Rightarrow> bool" where
  "clean_field trailers h \<longleftrightarrow> 0 \<notin> set (snd h) \<and> 10 \<notin> set (snd h) \<and> 13 \<notin> set (snd h) \<and>
     (snd h \<noteq> [] \<longrightarrow> \<not> blank (hd (snd h)) \<and> \<not> blank (last (snd h))) \<and>
     (starts_with (asc '':'') (fst h) \<or> TOKEN (fst h)) \<and>
     (fst h = asc ''content-length'' \<longrightarrow> isdigit (snd h) \<and> \<not> trailers)"

lemma validate_raw_field_iff: "validate_raw_field trailers h = Inr () \<longleftrightarrow> clean_field trailers h"
  by (cases h) (auto simp: validate_raw_field_def clean_field_def isdigit_def)

lemma latin1_lstrip: "latin1 (lstrip_zeros v) = lstrip ''0'' (latin1 v)"
proof -
  have "b = char_byte CHR ''0'' \<longleftrightarrow> byte_char b = CHR ''0''" for b by (metis byte_char_byte char_byte_char)
  then show ?thesis by (induction v) (simp_all add: lstrip_zeros_def lstrip_def asc_def latin1_def)
qed

lemma lstrip_same_value: "lstrip_zeros a = lstrip_zeros b \<Longrightarrow> dec_val (latin1 a) = dec_val (latin1 b)"
  by (metis dec_val_lstrip latin1_lstrip)

lemma validate_field_listsD:
  assumes "validate_field_lists hs = Inr ()"
  shows "\<And>u v. u \<in> set (field_values ''content-length'' hs) \<Longrightarrow> v \<in> set (field_values ''content-length'' hs) \<Longrightarrow>
      dec_val (latin1 u) = dec_val (latin1 v)"
    and "length (field_values ''host'' hs) \<le> 1"
    and "\<exists>ts. parse_http_list (map Bytes (field_values ''te'' hs)) = Inr ts \<and> (\<forall>t \<in> set ts. lower t = ''trailers'')"
proof -
  let ?l = "field_values ''content-length'' hs"
  have l: "\<forall>v \<in> set ?l. lstrip_zeros v = lstrip_zeros (hd ?l)"
    and h: "length (field_values ''host'' hs) \<le> 1"
    using assms by (auto simp: validate_field_lists_def Let_def split: if_splits)
  show "u \<in> set ?l \<Longrightarrow> v \<in> set ?l \<Longrightarrow> dec_val (latin1 u) = dec_val (latin1 v)" for u v
    by (rule lstrip_same_value, rule trans [OF bspec [OF l] bspec [OF l, symmetric]])
  show "length (field_values ''host'' hs) \<le> 1" by (rule h)
  show "\<exists>ts. parse_http_list (map Bytes (field_values ''te'' hs)) = Inr ts \<and> (\<forall>t \<in> set ts. lower t = ''trailers'')"
    using assms by (auto simp: validate_field_lists_def Let_def split: if_splits sum.splits)
qed

definition request_authority :: "field_list \<Rightarrow> string" where
  "request_authority values = latin1 (get_field values '':authority'' (get_field values ''host'' []))"

lemma validate_request_authorityD:
  assumes "validate_request_authority values connect scheme = Inr ()"
  shows "\<exists>host. host \<noteq> [] \<and> validate_authority (request_authority values) connect = Inr host"
    and "map_of values (asc '':authority'') = Some a \<Longrightarrow> map_of values (asc ''host'') = Some h \<Longrightarrow>
      \<exists>n. normalize_authority (latin1 a) (latin1 scheme) connect = Inr n \<and> normalize_authority (latin1 h) (latin1 scheme) connect = Inr n"
proof -
  obtain host where c: "check_authorities values (request_authority values) connect (latin1 scheme) = Inr host" "host \<noteq> []"
    using assms by (auto simp: validate_request_authority_def request_authority_def Let_def split: sum.splits if_splits)
  from c(1) have v: "validate_authority (request_authority values) connect = Inr host"
    by (auto simp: check_authorities_def bindR_eq_Inr split: option.splits if_splits)
  with c(2) show "\<exists>host. host \<noteq> [] \<and> validate_authority (request_authority values) connect = Inr host" by blast
  assume "map_of values (asc '':authority'') = Some a" "map_of values (asc ''host'') = Some h"
  with c(1) v show "\<exists>n. normalize_authority (latin1 a) (latin1 scheme) connect = Inr n \<and> normalize_authority (latin1 h) (latin1 scheme) connect = Inr n"
    by (auto simp: check_authorities_def bindR_eq_Inr request_authority_def get_field_def split: if_splits)
qed

lemma ascii_partition:
  "partition_at c s = (a, f, b) \<Longrightarrow> set s \<subseteq> set a \<union> {c} \<union> set b"
proof (cases f)
  case True
  assume "partition_at c s = (a, f, b)"
  with True partition_at_rebuild [of c s a b] show ?thesis by auto
next
  case False
  assume "partition_at c s = (a, f, b)"
  with False show ?thesis using partition_at_absent [of c s] by (auto simp: partition_at_def)
qed

lemma validate_request_pathD:
  assumes "validate_request_path path = Inr ()"
  shows "list_all printable (latin1 path)"
    and "\<exists>p f q. partition_at CHR ''?'' (latin1 path) = (p, f, q) \<and> validate_path_query p q = Inr ()"
proof -
  obtain s a f b where s: "ascii_decode path = Inr s" "partition_at CHR ''?'' s = (a, f, b)" "validate_path_query a b = Inr ()"
    using assms by (auto simp: validate_request_path_def bindR_def split: sum.splits prod.splits if_splits)
  have ab: "list_all printable a" "list_all printable b"
    using s(3) uri_path.match_printable uri_query.match_printable
    by (auto simp: validate_path_query_def PATH_RE_def QUERY_RE_def list_all_iff)
  have "c \<in> set s \<Longrightarrow> printable c" for c
    using ascii_partition [OF s(2)] ab by (auto simp: list_all_iff printable_def)
  with ascii_decode_latin1 [OF s(1)] show "list_all printable (latin1 path)" by (auto simp: list_all_iff)
  show "\<exists>p f q. partition_at CHR ''?'' (latin1 path) = (p, f, q) \<and> validate_path_query p q = Inr ()"
    using s ascii_decode_latin1 [OF s(1)] by auto
qed

lemma validate_request_targetD:
  assumes "validate_request_target values = Inr ()"
  shows "TOKEN (get_field values '':method'' [])"
    and "get_field values '':method'' [] \<noteq> asc ''CONNECT'' \<Longrightarrow> SCHEME (get_field values '':scheme'' []) \<and>
      (bytes_lower (get_field values '':scheme'' []) \<in> {asc ''http'', asc ''https''} \<longrightarrow>
         starts_with (asc ''/'') (get_field values '':path'' []) \<or>
         get_field values '':path'' [] = asc ''*'' \<and> get_field values '':method'' [] = asc ''OPTIONS'') \<and>
      validate_request_path (get_field values '':path'' []) = Inr ()"
    and "validate_request_authority values (get_field values '':method'' [] = asc ''CONNECT'') (get_field values '':scheme'' []) = Inr ()"
    and "map_of values (asc '':protocol'') = None"
    and "get_field values '':method'' [] = asc ''CONNECT'' \<Longrightarrow> get_field values '':authority'' [] \<noteq> []"
  using assms by (auto simp: validate_request_target_def Let_def bindR_eq_Inr split: if_splits)

lemma raises_http_list: "raises is_ValueError (parse_http_list vs)"
  unfolding parse_http_list_def Let_def by (intro raises_intros) simp_all

lemma raises_split_ValueError: "raises is_ValueError (split_authority a)"
  unfolding split_authority_def Let_def by (intro raises_intros) simp_all

lemma raises_validate_authority: "raises is_ValueError (validate_authority a connect)"
  unfolding validate_authority_def check_port_def Let_def
  by (intro raises_intros raises_split_ValueError) (simp_all add: raises_def guardR_def split: if_splits option.splits)

lemma raises_normalize: "raises is_ValueError (normalize_authority a s connect)"
  unfolding normalize_authority_def Let_def
  by (intro raises_intros raises_validate_authority)

definition is_ProtocolError :: "exn \<Rightarrow> bool" where
  "is_ProtocolError e \<longleftrightarrow> (\<exists>m c. e = ProtocolError m c)"

lemma is_ProtocolError_simps [simp]: "is_ProtocolError (protocol_error m)" "is_ProtocolError (ProtocolError m c)"
  by (auto simp: is_ProtocolError_def protocol_error_def)

text \<open>\<open>except ValueError\<close> turned into a protocol error.\<close>

lemma raises_convert:
  assumes "raises (\<lambda>e. is_ValueError e \<or> is_ProtocolError e) r" and "\<And>x. raises is_ProtocolError (f x)"
  shows "raises is_ProtocolError (case r of Inl e \<Rightarrow> if is_ValueError e then Inl (protocol_error (g e)) else Inl e | Inr x \<Rightarrow> f x)"
  using assms by (cases r) (auto simp: raises_def)

lemma raises_weaken: "raises P r \<Longrightarrow> (\<And>e. P e \<Longrightarrow> Q e) \<Longrightarrow> raises Q r"
  by (auto simp: raises_def)

lemma raises_field_lists: "raises is_ProtocolError (validate_field_lists hs)"
  unfolding validate_field_lists_def Let_def
  by (intro raises_if raises_Inl raises_convert raises_Inr raises_weaken [OF raises_http_list]) simp_all

lemma raises_request_authority: "raises is_ProtocolError (validate_request_authority values connect scheme)"
proof -
  have "raises (\<lambda>e. is_ValueError e \<or> is_ProtocolError e) (check_authorities values a connect s)" for a s
    unfolding check_authorities_def case_prod_conv
    by (intro raises_intros raises_weaken [OF raises_validate_authority] raises_weaken [OF raises_normalize]) simp_all
  then show ?thesis
    unfolding validate_request_authority_def Let_def
    by (intro raises_convert raises_if raises_Inl raises_Inr) simp_all
qed

lemma raises_request_path: "raises is_ProtocolError (validate_request_path path)"
proof -
  have "raises is_ValueError (ascii_decode path)" by (simp add: raises_def ascii_decode_def)
  moreover have "raises is_ValueError (validate_path_query p q)" for p q
    by (auto simp: raises_def validate_path_query_def guardR_def)
  ultimately have "raises is_ValueError (bindR (ascii_decode path) (\<lambda>s.
      case partition_at CHR ''?'' s of (path_text, _, query) \<Rightarrow> validate_path_query path_text query))"
    by (intro raises_intros)
  then have "raises (\<lambda>e. is_ValueError e \<or> is_ProtocolError e) (bindR (ascii_decode path) (\<lambda>s.
      case partition_at CHR ''?'' s of (path_text, _, query) \<Rightarrow> validate_path_query path_text query))"
    by (rule raises_weaken) simp
  then show ?thesis
    unfolding validate_request_path_def by (intro raises_convert raises_Inr)
qed

lemma raises_request_target: "raises is_ProtocolError (validate_request_target values)"
  unfolding validate_request_target_def Let_def
  by (intro raises_intros raises_request_path raises_request_authority) simp_all

lemma raises_raw_fields: "raises is_ProtocolError (validate_raw_fields trailers hs)"
proof (induction hs)
  case (Cons h hs)
  have "raises is_ProtocolError (validate_raw_field trailers h)"
    unfolding validate_raw_field_def by (intro raises_intros) simp_all
  with Cons show ?case by (auto intro!: raises_intros)
qed (simp add: raises_def)

lemma raises_validate_fields:
  assumes "\<And>ts hs. raises is_ProtocolError (h2_validate ts hs)"
  shows "raises is_ProtocolError (validate_fields h2_validate headers trailers)"
  unfolding validate_fields_def Let_def
  by (intro raises_intros raises_raw_fields raises_field_lists raises_request_target assms)

lemma headers_for_h2_eq:
  "headers_for_h2 headers values False =
     map (\<lambda>(name, value).
       (name, if name = asc ''te'' then asc ''trailers''
              else if name = asc ''host'' then (case map_of values (asc '':authority'') of Some a \<Rightarrow> a | None \<Rightarrow> value)
              else value)) headers"
  by (auto simp: headers_for_h2_def get_field_def split: option.split)

text \<open>C36. What an accepted HTTP/2 request is: no field value contains NUL, CR or LF or starts or ends
  with a blank, every regular field name is a token, all \<open>content-length\<close> fields are the same number,
  there is at most one \<open>host\<close>, and \<open>te\<close> lists nothing but \<open>trailers\<close>. The method is a token and there is no
  \<open>:protocol\<close>; the authority is valid, non-empty and printable, and \<open>host\<close> and \<open>:authority\<close> have the same normal
  form. CONNECT has an \<open>:authority\<close>; any other method has a scheme and a printable path whose path and query
  part are valid, and under \<open>http\<close> and \<open>https\<close> the path starts with a slash or is the \<open>*\<close> of OPTIONS. The h2
  package has accepted the same fields in the same order, with \<open>trailers\<close> for the value of \<open>te\<close> and the
  \<open>:authority\<close>, if there is one, for the value of \<open>host\<close>.\<close>

theorem validated_request:
  assumes "validate_fields h2_validate headers False = Inr ()"
  shows "(\<forall>h \<in> set headers. clean_field False h) \<and>
    (\<forall>u \<in> set (field_values ''content-length'' headers). \<forall>v \<in> set (field_values ''content-length'' headers).
       dec_val (latin1 u) = dec_val (latin1 v)) \<and>
    length (field_values ''host'' headers) \<le> 1 \<and>
    (\<exists>ts. parse_http_list (map Bytes (field_values ''te'' headers)) = Inr ts \<and> (\<forall>t \<in> set ts. lower t = ''trailers'')) \<and>
    TOKEN (get_field (dict_of headers) '':method'' []) \<and> map_of (dict_of headers) (asc '':protocol'') = None \<and>
    (\<exists>host. host \<noteq> [] \<and> validate_authority (request_authority (dict_of headers))
       (get_field (dict_of headers) '':method'' [] = asc ''CONNECT'') = Inr host) \<and>
    list_all printable (request_authority (dict_of headers)) \<and>
    (\<forall>a h. map_of (dict_of headers) (asc '':authority'') = Some a \<and> map_of (dict_of headers) (asc ''host'') = Some h \<longrightarrow>
       (\<exists>n. normalize_authority (latin1 a) (latin1 (get_field (dict_of headers) '':scheme'' [])) (get_field (dict_of headers) '':method'' [] = asc ''CONNECT'') = Inr n \<and>
          normalize_authority (latin1 h) (latin1 (get_field (dict_of headers) '':scheme'' [])) (get_field (dict_of headers) '':method'' [] = asc ''CONNECT'') = Inr n)) \<and>
    (get_field (dict_of headers) '':method'' [] = asc ''CONNECT'' \<longrightarrow> get_field (dict_of headers) '':authority'' [] \<noteq> []) \<and>
    (get_field (dict_of headers) '':method'' [] \<noteq> asc ''CONNECT'' \<longrightarrow>
       SCHEME (get_field (dict_of headers) '':scheme'' []) \<and>
       (bytes_lower (get_field (dict_of headers) '':scheme'' []) \<in> {asc ''http'', asc ''https''} \<longrightarrow>
          starts_with (asc ''/'') (get_field (dict_of headers) '':path'' []) \<or>
          get_field (dict_of headers) '':path'' [] = asc ''*'' \<and> get_field (dict_of headers) '':method'' [] = asc ''OPTIONS'') \<and>
       list_all printable (latin1 (get_field (dict_of headers) '':path'' [])) \<and>
       (\<exists>p f q. partition_at CHR ''?'' (latin1 (get_field (dict_of headers) '':path'' [])) = (p, f, q) \<and> validate_path_query p q = Inr ())) \<and>
    h2_validate False (map (\<lambda>(name, value).
       (name, if name = asc ''te'' then asc ''trailers''
              else if name = asc ''host'' then (case map_of (dict_of headers) (asc '':authority'') of Some a \<Rightarrow> a | None \<Rightarrow> value)
              else value)) headers) = Inr ()"
proof -
  let ?v = "dict_of headers"
  have v: "validate_raw_fields False headers = Inr ()" "validate_field_lists headers = Inr ()"
    "validate_request_target ?v = Inr ()" "h2_validate False (headers_for_h2 headers ?v False) = Inr ()"
    using assms by (auto simp: validate_fields_def Let_def bindR_eq_Inr)
  have c: "\<forall>h \<in> set headers. clean_field False h"
    using v(1) by (simp add: validate_raw_fields_iff validate_raw_field_iff)
  note l = validate_field_listsD [OF v(2)] and t = validate_request_targetD [OF v(3)]
  note a = validate_request_authorityD [OF t(3)]
  from a(1) authority_shape have p: "list_all printable (request_authority ?v)" by blast
  note k = v(4) [unfolded headers_for_h2_eq]
  show ?thesis
    by (intro conjI ballI allI impI; (rule c [THEN bspec] l a(1) t(1,4) p k; assumption?)?)
      (use a(2) t(2,5) validate_request_pathD in blast)+
qed

definition sample_fields :: field_list where
  "sample_fields = [(asc '':method'', asc ''GET''), (asc '':scheme'', asc ''https''), (asc '':authority'', asc ''A''),
     (asc '':path'', asc ''/''), (asc ''host'', asc ''a'')]"

definition sample_validator :: h2_validator where
  "sample_validator trailers headers = (if headers = [] then Inl (protocol_error ''no fields'') else Inr ())"

lemma sample_fields_valid: "validate_fields sample_validator sample_fields False = Inr ()"
  by code_simp

theorem validated_request_witness:
  "\<exists>host. host \<noteq> [] \<and> validate_authority (request_authority (dict_of sample_fields))
     (get_field (dict_of sample_fields) '':method'' [] = asc ''CONNECT'') = Inr host"
  using validated_request [OF sample_fields_valid] by blast

end
