(* ===== verification/Http2_Adapter.thy ===== *)
theory Http2_Adapter
  imports Http2_Validation Http2_Frames_Correct "HOL-Library.Sublist"
begin

text \<open>
  \<open>solvetls/http2/adapter.py\<close>: the subclasses of hpack's decoder and encoder and of h2's connection.
  The two packages are parameters: hpack's decoder is a function on its own state, and the h2
  connection is a record of operations on a state of any type, each of which may raise.
\<close>

section \<open>Parameters: the h2 connection\<close>

datatype h2_event =
    RequestReceived nat field_list bool
  | TrailersReceived nat field_list
  | DataReceived nat bytes nat
  | StreamEnded nat
  | StreamReset nat
  | OtherEvent

text \<open>
  The boolean of \<open>RequestReceived\<close> says whether the event's \<open>stream_ended\<close> is set; the last number of
  \<open>DataReceived\<close> is \<open>flow_controlled_length\<close>. \<open>h2_stream_closed\<close> is \<open>streams.get(id)\<close> with the stream's
  \<open>closed\<close> flag; \<open>h2_new\<close> is a new connection with the given local settings and inbound frame limit;
  \<open>h2_original_headers\<close> is the attribute of the decoder that the connection owns.
\<close>

record 'h h2_api =
  h2_new :: "(nat \<times> nat) list \<Rightarrow> nat \<Rightarrow> 'h"
  h2_initiate_connection :: "('h, unit) meth"
  h2_receive_data :: "bytes \<Rightarrow> ('h, h2_event list) meth"
  h2_data_to_send :: "'h \<Rightarrow> bytes \<times> 'h"
  h2_close_connection :: "nat \<Rightarrow> nat option \<Rightarrow> ('h, unit) meth"
  h2_send_headers :: "nat \<Rightarrow> (field_value \<times> field_value) list \<Rightarrow> bool \<Rightarrow> ('h, unit) meth"
  h2_send_data :: "nat \<Rightarrow> bytes \<Rightarrow> bool \<Rightarrow> ('h, unit) meth"
  h2_reset_stream :: "nat \<Rightarrow> nat \<Rightarrow> ('h, unit) meth"
  h2_acknowledge :: "nat \<Rightarrow> nat \<Rightarrow> ('h, unit) meth"
  h2_flow_window :: "nat \<Rightarrow> ('h, int) meth"
  h2_max_outbound_frame_size :: "'h \<Rightarrow> int"
  h2_max_inbound_frame_size :: "'h \<Rightarrow> nat"
  h2_highest_inbound :: "'h \<Rightarrow> nat"
  h2_highest_outbound :: "'h \<Rightarrow> nat"
  h2_open_inbound :: "'h \<Rightarrow> nat \<times> 'h"
  h2_stream_closed :: "'h \<Rightarrow> nat \<Rightarrow> bool option"
  h2_max_concurrent :: "'h \<Rightarrow> nat"
  h2_header_table_size :: "'h \<Rightarrow> nat"
  h2_setting_codes :: "nat list"
  h2_original_headers :: "'h \<Rightarrow> field_list"
  h2_validate :: h2_validator

section \<open>Model\<close>

definition MAX_REQUEST_BODY :: nat where "MAX_REQUEST_BODY = 1048576"
definition MAX_HEADER_LIST_SIZE :: nat where "MAX_HEADER_LIST_SIZE = 65536"
definition MAX_DECODED_HEADER_BYTES :: nat where "MAX_DECODED_HEADER_BYTES = 1048576"
definition MAX_HEADER_TABLE_SIZE_CHANGES :: nat where "MAX_HEADER_TABLE_SIZE_CHANGES = 128"

text \<open>Both callers pass a non-empty string of digits.\<close>

definition bounded_content_length :: "bytes \<Rightarrow> nat" where
  "bounded_content_length value =
     (let significant = (if lstrip_zeros value = [] then asc ''0'' else lstrip_zeros value) in
      if length significant > length (str_nat MAX_REQUEST_BODY) then MAX_REQUEST_BODY + 1
      else min (dec_val (latin1 significant)) (MAX_REQUEST_BODY + 1))"

datatype hpack_error = OversizedHeaderListError string | HPACKError string

datatype decode_error = Oversized string | Failed exn

record 'd request_decoder =
  dec_hpack :: 'd
  dec_original_headers :: "field_list option"
  dec_decoded_bytes :: nat

definition field_size :: "field_list \<Rightarrow> nat" where
  "field_size headers = sum_list (map (\<lambda>(name, value). length name + length value + 32) headers)"

definition working_header :: "bytes \<times> bytes \<Rightarrow> bytes \<times> bytes" where
  "working_header h =
     (case h of (name, value) \<Rightarrow>
        if name = asc ''content-length'' \<and> isdigit value
        then (name, asc (str_nat (bounded_content_length value))) else (name, value))"

definition decode :: "('d \<Rightarrow> bytes \<Rightarrow> (hpack_error + field_list) \<times> 'd) \<Rightarrow> bytes \<Rightarrow> bool \<Rightarrow>
    'd request_decoder \<Rightarrow> (decode_error + field_list) \<times> 'd request_decoder" where
  "decode hpack_decode data raw d0 =
     (case hpack_decode (dec_hpack d0) data of
        (Inl (OversizedHeaderListError m), h) \<Rightarrow> (Inl (Oversized m), d0\<lparr>dec_hpack := h\<rparr>)
      | (Inl (HPACKError m), h) \<Rightarrow>
          (Inl (Failed (ProtocolError (''Error decoding header block: '' @ m) COMPRESSION_ERROR)), d0\<lparr>dec_hpack := h\<rparr>)
      | (Inr headers, h) \<Rightarrow>
          let d = d0\<lparr>dec_hpack := h, dec_decoded_bytes := dec_decoded_bytes d0 + field_size headers\<rparr> in
          if dec_decoded_bytes d > MAX_DECODED_HEADER_BYTES
          then (Inl (Oversized ''HTTP/2 decoded header budget exceeded''), d)
          else (Inr (if \<not> raw then headers else map working_header headers),
                d\<lparr>dec_original_headers := Some headers\<rparr>))"

text \<open>\<open>_ResponseEncoder.encode\<close> shortens the list of pending table size changes before it calls hpack.\<close>

definition pending_size_changes :: "nat list \<Rightarrow> nat list" where
  "pending_size_changes changes =
     (if changes = [] then []
      else let smallest = fold min (tl changes) (hd changes); final = last changes
           in if smallest = final then [smallest] else [smallest, final])"

record 'h adapter =
  ad_h2 :: 'h
  ad_header_table_size_changes :: nat

text \<open>A method of h2 on the adapter.\<close>

definition on_h2 :: "('h, 'a) meth \<Rightarrow> ('h adapter, 'a) meth" where
  "on_h2 m a = (case m (ad_h2 a) of (r, h) \<Rightarrow> (r, a\<lparr>ad_h2 := h\<rparr>))"

fun with_original :: "field_list \<Rightarrow> h2_event \<Rightarrow> h2_event" where
  "with_original hs (RequestReceived i _ e) = RequestReceived i hs e"
| "with_original hs (TrailersReceived i _) = TrailersReceived i hs"
| "with_original hs ev = ev"

definition receive_data :: "'h h2_api \<Rightarrow> bytes \<Rightarrow> ('h adapter, h2_event list) meth" where
  "receive_data api data =
     bindM (on_h2 (h2_receive_data api data)) (\<lambda>events a.
       ret (map (with_original (h2_original_headers api (ad_h2 a))) events) a)"

definition data_to_send :: "'h h2_api \<Rightarrow> ('h adapter, bytes) meth" where
  "data_to_send api a = (case h2_data_to_send api (ad_h2 a) of (d, h) \<Rightarrow> (Inr d, a\<lparr>ad_h2 := h\<rparr>))"

fun working_settings :: "nat list \<Rightarrow> nat \<Rightarrow> (nat \<times> nat) list \<Rightarrow> (nat \<times> nat) list \<times> nat" where
  "working_settings known table_size [] = ([], 0)"
| "working_settings known table_size ((identifier, value) # entries) =
     (if identifier \<notin> set known then working_settings known table_size entries
      else if identifier = SI_HEADER_TABLE_SIZE then
        (if value = table_size then working_settings known table_size entries
         else case working_settings known value entries of (w, n) \<Rightarrow> ((identifier, value) # w, Suc n))
      else case working_settings known table_size entries of (w, n) \<Rightarrow> ((identifier, value) # w, n))"

definition receive_settings :: "'h h2_api \<Rightarrow> (nat \<times> nat) list \<Rightarrow> ('h adapter, unit) meth" where
  "receive_settings api settings =
     (case build_settings_frame (Some settings) False of
        Inl e \<Rightarrow> raise e
      | Inr frame \<Rightarrow> bindM (receive_data api frame) (\<lambda>_. ret ()))"

text \<open>The replay of a frame with repeated identifiers, one entry at a time; every acknowledgment but
  the last is discarded.\<close>

fun replay_settings :: "'h h2_api \<Rightarrow> (nat \<times> nat) list \<Rightarrow> ('h adapter, unit) meth" where
  "replay_settings api [] = ret ()"
| "replay_settings api [entry] = receive_settings api [entry]"
| "replay_settings api (entry # e2 # entries) =
     bindM (receive_settings api [entry]) (\<lambda>_.
     bindM (data_to_send api) (\<lambda>acknowledgment.
       if Inr acknowledgment \<noteq> build_settings_frame None True
       then raise (RuntimeError ''Unexpected response while applying SETTINGS'')
       else replay_settings api (e2 # entries)))"

definition apply_settings :: "'h h2_api \<Rightarrow> (nat \<times> nat) list \<Rightarrow> ('h adapter, unit) meth" where
  "apply_settings api entries a0 =
     (let (working, table_changes) = working_settings (h2_setting_codes api) (h2_header_table_size api (ad_h2 a0)) entries in
      if ad_header_table_size_changes a0 + table_changes > MAX_HEADER_TABLE_SIZE_CHANGES
      then bindM (on_h2 (h2_close_connection api ENHANCE_YOUR_CALM None))
             (\<lambda>_. raise (ProtocolError ''HTTP/2 header table update limit exceeded'' ENHANCE_YOUR_CALM)) a0
      else let a = a0\<lparr>ad_header_table_size_changes := ad_header_table_size_changes a0 + table_changes\<rparr> in
           if length working = length (dict_of working) then receive_settings api (dict_of working) a
           else replay_settings api working a)"

section \<open>Content-Length\<close>

lemma length_max_body: "length (str_nat MAX_REQUEST_BODY) = 7"
  by (simp add: MAX_REQUEST_BODY_def str_nat.simps)

lemma digits_lstrip: "isdigit v \<Longrightarrow> list_all is_digit (latin1 (lstrip_zeros v))"
  unfolding latin1_lstrip by (auto simp: isdigit_def list_all_iff lstrip_def dest: set_dropWhileD)

lemma bounded_content_length_value:
  assumes "isdigit v"
  shows "bounded_content_length v = min (dec_val (latin1 v)) (MAX_REQUEST_BODY + 1)"
proof (cases "lstrip_zeros v = []")
  case True
  then have "dec_val (latin1 v) = 0" using dec_val_lstrip [of "latin1 v"] latin1_lstrip [of v] by (simp add: latin1_def)
  with True show ?thesis
    by (simp add: bounded_content_length_def length_max_body asc_def latin1_def dec_val_def)
next
  case False
  let ?s = "latin1 (lstrip_zeros v)"
  have s: "?s \<noteq> []" "length ?s = length (lstrip_zeros v)" using False by (simp_all add: latin1_def)
  have d: "dec_val ?s = dec_val (latin1 v)" by (simp add: latin1_lstrip dec_val_lstrip)
  show ?thesis
  proof (cases "length (lstrip_zeros v) > 7")
    case True
    have "lstrip ''0'' (latin1 v) \<noteq> []" "list_all is_digit (latin1 v)"
      using s(1) assms by (simp_all add: latin1_lstrip isdigit_def)
    from dec_val_ge [OF this(1) lstrip_zero_hd [OF this(2,1)]]
    have "10 ^ (length ?s - 1) \<le> dec_val (latin1 v)" using d by (simp add: latin1_lstrip)
    moreover have "(10 :: nat) ^ 7 \<le> 10 ^ (length ?s - 1)" using True s(2) by (intro power_increasing) simp_all
    ultimately have "MAX_REQUEST_BODY + 1 \<le> dec_val (latin1 v)" by (simp add: MAX_REQUEST_BODY_def)
    with True False show ?thesis by (simp add: bounded_content_length_def length_max_body)
  qed (use False d in \<open>simp add: bounded_content_length_def length_max_body\<close>)
qed

section \<open>The request decoder\<close>

lemma working_header_name [simp]: "fst (working_header h) = fst h"
  by (simp add: working_header_def split: prod.split)

lemma working_header_value:
  "snd (working_header h) = (if fst h = asc ''content-length'' \<and> isdigit (snd h)
     then asc (str_nat (min (dec_val (latin1 (snd h))) (MAX_REQUEST_BODY + 1))) else snd h)"
  by (simp add: working_header_def bounded_content_length_value split: prod.split)

text \<open>C37. The decoder adapts without altering: when a header block is accepted, the captured fields are
  exactly what hpack decoded, the budget of decoded bytes grew by their size and is still within
  1 MiB, and the list that h2 gets has the same fields in the same order, where only a numeric
  \<open>content-length\<close> is replaced, by the same number capped at one byte over the body limit. However
  many digits a client sends, h2 converts at most seven.\<close>

theorem decoder_exact:
  assumes "decode hpack_decode data True d0 = (Inr working, d)"
  shows "\<exists>headers. fst (hpack_decode (dec_hpack d0) data) = Inr headers \<and> dec_original_headers d = Some headers \<and>
    dec_decoded_bytes d = dec_decoded_bytes d0 + field_size headers \<and> dec_decoded_bytes d \<le> MAX_DECODED_HEADER_BYTES \<and>
    map fst working = map fst headers \<and>
    (\<forall>i < length headers. snd (working ! i) =
       (if fst (headers ! i) = asc ''content-length'' \<and> isdigit (snd (headers ! i))
        then asc (str_nat (min (dec_val (latin1 (snd (headers ! i)))) (MAX_REQUEST_BODY + 1))) else snd (headers ! i)))"
proof -
  obtain r h where h: "hpack_decode (dec_hpack d0) data = (r, h)" by fastforce
  obtain headers where r: "r = Inr headers"
    using assms h by (cases r) (auto simp: decode_def split: hpack_error.splits)
  have w: "working = map working_header headers" "dec_original_headers d = Some headers"
    "dec_decoded_bytes d = dec_decoded_bytes d0 + field_size headers" "dec_decoded_bytes d \<le> MAX_DECODED_HEADER_BYTES"
    using assms h r by (auto simp: decode_def Let_def split: if_splits)
  have "map fst working = map fst headers" by (simp add: w(1))
  moreover have "\<forall>i < length headers. snd (working ! i) =
       (if fst (headers ! i) = asc ''content-length'' \<and> isdigit (snd (headers ! i))
        then asc (str_nat (min (dec_val (latin1 (snd (headers ! i)))) (MAX_REQUEST_BODY + 1))) else snd (headers ! i))"
    unfolding w(1) by (simp add: working_header_value)
  ultimately show ?thesis using h r w(2-4) by auto
qed

definition sample_decoder :: "unit request_decoder" where
  "sample_decoder = \<lparr>dec_hpack = (), dec_original_headers = None, dec_decoded_bytes = 0\<rparr>"

definition sample_hpack :: "unit \<Rightarrow> bytes \<Rightarrow> (hpack_error + field_list) \<times> unit" where
  "sample_hpack s data = (Inr [(asc ''content-length'', data)], s)"

theorem decoder_exact_witness:
  "\<exists>working d. decode sample_hpack (asc ''0000000007'') True sample_decoder = (Inr working, d) \<and>
     dec_original_headers d = Some [(asc ''content-length'', asc ''0000000007'')] \<and>
     dec_decoded_bytes d \<le> MAX_DECODED_HEADER_BYTES"
proof -
  have "field_size [(asc ''content-length'', asc ''0000000007'')] = 56" by (simp add: field_size_def asc_def)
  then obtain working d where w: "decode sample_hpack (asc ''0000000007'') True sample_decoder = (Inr working, d)"
    by (simp add: decode_def sample_hpack_def sample_decoder_def MAX_DECODED_HEADER_BYTES_def)
  from decoder_exact [OF w] show ?thesis using w by (auto simp: sample_hpack_def)
qed

section \<open>The encoder\<close>

lemma fold_min: "fold min xs (x :: nat) = Min (set (x # xs))"
  by (metis Min.set_eq_fold)

lemma pending_size_changes_bounds:
  assumes "changes \<noteq> []"
  shows "length (pending_size_changes changes) \<le> 2 \<and> last (pending_size_changes changes) = last changes \<and>
    hd (pending_size_changes changes) = Min (set changes)"
proof -
  have "fold min (tl changes) (hd changes) = Min (set changes)" using assms fold_min by (cases changes) auto
  then show ?thesis using assms by (simp add: pending_size_changes_def Let_def)
qed

section \<open>SETTINGS\<close>

text \<open>What the adapter passes on: the supported entries in order, without assignments of the header
  table size that change nothing.\<close>

lemma working_settings_changes:
  "working_settings known t es = (w, n) \<Longrightarrow> n = length (filter (\<lambda>e. fst e = SI_HEADER_TABLE_SIZE) w)"
  by (induction known t es arbitrary: w n rule: working_settings.induct) (auto split: if_splits prod.splits)

lemma working_settings_known:
  "working_settings known t es = (w, n) \<Longrightarrow> list_all (\<lambda>e. fst e \<in> set known) w \<and> subseq w es"
  by (induction known t es arbitrary: w n rule: working_settings.induct) (auto split: if_splits prod.splits)

lemma working_settings_others:
  "working_settings known t es = (w, n) \<Longrightarrow>
     filter (\<lambda>e. fst e \<noteq> SI_HEADER_TABLE_SIZE) w =
     filter (\<lambda>e. fst e \<in> set known \<and> fst e \<noteq> SI_HEADER_TABLE_SIZE) es"
  by (induction known t es arbitrary: w n rule: working_settings.induct) (auto split: if_splits prod.splits)

text \<open>The header table sizes in force after each entry, without repetitions.\<close>

fun table_sizes :: "nat \<Rightarrow> nat list \<Rightarrow> nat list" where
  "table_sizes t [] = []"
| "table_sizes t (v # vs) = (if v = t then table_sizes t vs else v # table_sizes v vs)"

lemma working_settings_tables:
  "SI_HEADER_TABLE_SIZE \<in> set known \<Longrightarrow> working_settings known t es = (w, n) \<Longrightarrow>
     map snd (filter (\<lambda>e. fst e = SI_HEADER_TABLE_SIZE) w) =
     table_sizes t (map snd (filter (\<lambda>e. fst e = SI_HEADER_TABLE_SIZE) es))"
  by (induction known t es arbitrary: w n rule: working_settings.induct) (auto split: if_splits prod.splits)

lemma dict_of_length:
  assumes "length (dict_of es) = length es"
  shows "dict_of es = es"
proof -
  have "fst ` set (dict_of es) = fst ` set es"
  proof (induction es rule: rev_induct)
    case (snoc e es)
    then show ?case by (cases e) (auto simp: dict_of_snoc keys_dict_set)
  qed (simp add: dict_of_def)
  then have "card (fst ` set es) = length (dict_of es)"
    using distinct_card [OF distinct_dict_of, of es] by simp
  then have "distinct (map fst es)" using assms card_distinct [of "map fst es"] by simp
  then show ?thesis by (rule dict_of_distinct)
qed

definition settings_range :: "(nat \<times> nat) list \<Rightarrow> bool" where
  "settings_range es \<longleftrightarrow> list_all (\<lambda>e. fst e < 65536 \<and> snd e < 4294967296) es \<and> 6 * length es \<le> MAX_ALLOWED_FRAME_SIZE"

lemma build_settings_total:
  assumes "settings_range es"
  shows "\<exists>frame. build_settings_frame (Some es) False = Inr frame"
proof -
  have "\<exists>bs. pack_settings es = Inr bs \<and> length bs = 6 * length es"
    if "list_all (\<lambda>e. fst e < 65536 \<and> snd e < 4294967296) es" for es
    using that by (induction es) (auto simp: pack_setting_def split: prod.splits)
  then obtain bs where "pack_settings es = Inr bs" "length bs = 6 * length es"
    using assms by (auto simp: settings_range_def)
  then show ?thesis using assms by (simp add: build_settings_frame_def build_frame_def settings_range_def)
qed

lemma settings_range_subseq:
  assumes "subseq w es" and "settings_range es"
  shows "settings_range w"
proof -
  have "set w \<subseteq> set es" using assms(1) by (metis subseq_conv_nths set_nths_subset)
  moreover have "length w \<le> length es" using assms(1) by (rule list_emb_length)
  ultimately show ?thesis using assms(2) by (auto simp: settings_range_def list_all_iff)
qed

definition settings_ack :: bytes where
  "settings_ack = [0, 0, 0, 4, 1, 0, 0, 0, 0]"

lemma build_settings_ack: "build_settings_frame None True = Inr settings_ack"
  by (simp add: build_settings_frame_def build_frame_def settings_ack_def be_bytes_literals)

definition quiet :: "'h h2_api \<Rightarrow> 'h \<Rightarrow> bool" where
  "quiet api h \<longleftrightarrow> fst (h2_data_to_send api h) = []"

text \<open>What the adapter relies on: h2, with no output pending, accepts a SETTINGS frame, applies its
  entries in order (\<open>logs\<close> is the list of the settings it has applied) and answers with exactly one
  acknowledgment.\<close>

definition accepts_settings :: "'h h2_api \<Rightarrow> ('h \<Rightarrow> (nat \<times> nat) list) \<Rightarrow> bool" where
  "accepts_settings api logs \<longleftrightarrow> (\<forall>h kvs frame. quiet api h \<and> build_settings_frame (Some kvs) False = Inr frame \<longrightarrow>
     (\<exists>evs h' h''. h2_receive_data api frame h = (Inr evs, h') \<and> logs h' = logs h @ kvs \<and>
        h2_data_to_send api h' = (settings_ack, h'') \<and> quiet api h'' \<and> logs h'' = logs h'))"

lemma receive_settings_logs:
  assumes "accepts_settings api logs" "quiet api (ad_h2 a)" "settings_range es"
  shows "\<exists>a'. receive_settings api es a = (Inr (), a') \<and> logs (ad_h2 a') = logs (ad_h2 a) @ es \<and>
    (\<exists>h''. h2_data_to_send api (ad_h2 a') = (settings_ack, h'') \<and> quiet api h'' \<and> logs h'' = logs (ad_h2 a'))"
proof -
  obtain frame where f: "build_settings_frame (Some es) False = Inr frame" using build_settings_total [OF assms(3)] by blast
  then obtain evs h' h'' where "h2_receive_data api frame (ad_h2 a) = (Inr evs, h')" "logs h' = logs (ad_h2 a) @ es"
    "h2_data_to_send api h' = (settings_ack, h'')" "quiet api h''" "logs h'' = logs h'"
    using assms(1,2) unfolding accepts_settings_def by blast
  then show ?thesis by (auto simp: receive_settings_def f receive_data_def on_h2_def bindM_def ret_def)
qed

lemma replay_settings_logs:
  assumes "accepts_settings api logs"
  shows "quiet api (ad_h2 a) \<Longrightarrow> settings_range es \<Longrightarrow>
    \<exists>a'. replay_settings api es a = (Inr (), a') \<and> logs (ad_h2 a') = logs (ad_h2 a) @ es"
proof (induction es arbitrary: a rule: induct_list012)
  case (2 e)
  then show ?case using receive_settings_logs [OF assms, of a "[e]"] by auto
next
  case (3 e e2 es)
  have "settings_range [e]" "settings_range (e2 # es)" using 3(4) by (auto simp: settings_range_def)
  then obtain a1 h where 1: "receive_settings api [e] a = (Inr (), a1)" "logs (ad_h2 a1) = logs (ad_h2 a) @ [e]"
    "h2_data_to_send api (ad_h2 a1) = (settings_ack, h)" "quiet api h" "logs h = logs (ad_h2 a1)"
    using receive_settings_logs [OF assms 3(3)] by metis
  let ?a2 = "a1\<lparr>ad_h2 := h\<rparr>"
  obtain a' where 2: "replay_settings api (e2 # es) ?a2 = (Inr (), a')" "logs (ad_h2 a') = logs (ad_h2 ?a2) @ e2 # es"
    using 3(2) [of ?a2] 1(4) \<open>settings_range (e2 # es)\<close> by auto
  have "replay_settings api (e # e2 # es) a = replay_settings api (e2 # es) ?a2"
    using 1 build_settings_ack by (simp add: bindM_def data_to_send_def)
  with 1 2 show ?case by simp
qed auto

text \<open>SETTINGS reach h2 completely and in order: if h2 accepts frames as documented and the limit
  of header table changes is not reached, then applying the entries of a frame succeeds, and h2 has
  applied, in wire order, all supported entries, repeated identifiers included; only assignments of
  the header table size that do not change it are left out, and an unknown identifier never arrives.\<close>

theorem settings_in_order:
  assumes "accepts_settings api logs" and "quiet api (ad_h2 a)" and "settings_range entries"
    and "SI_HEADER_TABLE_SIZE \<in> set (h2_setting_codes api)"
    and "ad_header_table_size_changes a + length (table_sizes (h2_header_table_size api (ad_h2 a))
      (map snd (filter (\<lambda>e. fst e = SI_HEADER_TABLE_SIZE) entries))) \<le> MAX_HEADER_TABLE_SIZE_CHANGES"
  shows "\<exists>a' w. apply_settings api entries a = (Inr (), a') \<and> logs (ad_h2 a') = logs (ad_h2 a) @ w \<and>
    subseq w entries \<and> list_all (\<lambda>e. fst e \<in> set (h2_setting_codes api)) w \<and>
    filter (\<lambda>e. fst e \<noteq> SI_HEADER_TABLE_SIZE) w =
      filter (\<lambda>e. fst e \<in> set (h2_setting_codes api) \<and> fst e \<noteq> SI_HEADER_TABLE_SIZE) entries \<and>
    map snd (filter (\<lambda>e. fst e = SI_HEADER_TABLE_SIZE) w) =
      table_sizes (h2_header_table_size api (ad_h2 a)) (map snd (filter (\<lambda>e. fst e = SI_HEADER_TABLE_SIZE) entries))"
proof -
  let ?t = "h2_header_table_size api (ad_h2 a)"
  obtain w n where w: "working_settings (h2_setting_codes api) ?t entries = (w, n)" by fastforce
  note k = working_settings_known [OF w] and o = working_settings_others [OF w]
    and t = working_settings_tables [OF assms(4) w]
  have n: "n = length (table_sizes ?t (map snd (filter (\<lambda>e. fst e = SI_HEADER_TABLE_SIZE) entries)))"
    using working_settings_changes [OF w] t by (metis length_map)
  let ?a = "a\<lparr>ad_header_table_size_changes := ad_header_table_size_changes a + n\<rparr>"
  have e: "apply_settings api entries a =
      (if length w = length (dict_of w) then receive_settings api (dict_of w) ?a else replay_settings api w ?a)"
    using assms(5) w n by (simp add: apply_settings_def)
  have r: "settings_range w" using settings_range_subseq k assms(3) by blast
  have "\<exists>a'. apply_settings api entries a = (Inr (), a') \<and> logs (ad_h2 a') = logs (ad_h2 a) @ w"
  proof (cases "length w = length (dict_of w)")
    case True
    then show ?thesis using e dict_of_length [of w] receive_settings_logs [OF assms(1), of ?a w] assms(2) r by auto
  next
    case False
    then show ?thesis using e replay_settings_logs [OF assms(1), of ?a w] assms(2) r by auto
  qed
  with k o t show ?thesis by blast
qed

text \<open>A connection that does just this, for concrete inputs: it logs the settings it gets and owes one
  acknowledgment for each frame.\<close>

fun unpack_settings :: "bytes \<Rightarrow> (nat \<times> nat) list" where
  "unpack_settings (a # b # c # d # e # f # bs) = (be_nat [a, b], be_nat [c, d, e, f]) # unpack_settings bs"
| "unpack_settings _ = []"

lemma unpack_pack_settings: "pack_settings kvs = Inr bs \<Longrightarrow> unpack_settings bs = kvs"
proof (induction kvs arbitrary: bs)
  case (Cons kv kvs)
  obtain i v where kv: "kv = (i, v)" by fastforce
  from Cons.prems kv obtain rest where r: "i \<le> 65535" "v \<le> 4294967295" "pack_settings kvs = Inr rest"
    "bs = (be_bytes 2 i @ be_bytes 4 v) @ rest"
    by (auto simp: bindR_eq_Inr pack_setting_def split: if_splits)
  have "be_nat (be_bytes 2 i) = i" "be_nat (be_bytes 4 v) = v" using r(1,2) by (simp_all add: be_nat_be_bytes)
  then show ?case using r(4) Cons.IH [OF r(3)] kv unfolding be_bytes_literals by simp
qed auto

definition sample_api :: "((nat \<times> nat) list \<times> bytes) h2_api" where
  "sample_api = \<lparr>h2_new = (\<lambda>_ _. ([], [])), h2_initiate_connection = ret (),
     h2_receive_data = (\<lambda>frame (l, p). (Inr [], (l @ unpack_settings (drop 9 frame), p @ settings_ack))),
     h2_data_to_send = (\<lambda>(l, p). (p, (l, []))),
     h2_close_connection = (\<lambda>_ _. ret ()), h2_send_headers = (\<lambda>_ _ _. ret ()), h2_send_data = (\<lambda>_ _ _. ret ()),
     h2_reset_stream = (\<lambda>_ _. ret ()), h2_acknowledge = (\<lambda>_ _. ret ()), h2_flow_window = (\<lambda>_. ret 65535),
     h2_max_outbound_frame_size = (\<lambda>_. 16384), h2_max_inbound_frame_size = (\<lambda>_. 65536),
     h2_highest_inbound = (\<lambda>_. 0), h2_highest_outbound = (\<lambda>_. 0), h2_open_inbound = (\<lambda>h. (0, h)),
     h2_stream_closed = (\<lambda>_ _. None), h2_max_concurrent = (\<lambda>_. 100), h2_header_table_size = (\<lambda>_. 4096),
     h2_setting_codes = [1, 2, 3, 4, 5, 6, 8], h2_original_headers = (\<lambda>_. []), h2_validate = sample_validator\<rparr>"

lemma sample_api_accepts: "accepts_settings sample_api fst"
  unfolding accepts_settings_def
proof (intro allI impI)
  fix h :: "(nat \<times> nat) list \<times> bytes" and kvs frame
  assume a: "quiet sample_api h \<and> build_settings_frame (Some kvs) False = Inr frame"
  then obtain l where h: "h = (l, [])" by (cases h) (simp add: quiet_def sample_api_def)
  obtain bs where bs: "pack_settings kvs = Inr bs" "build_frame FT_SETTINGS 0 0 bs = Inr frame"
    using a by (auto simp: build_settings_frame_def bindR_eq_Inr)
  have "drop 9 frame = bs" using bs(2) by (auto simp: build_frame_def be_bytes_literals split: if_splits)
  then show "\<exists>evs h' h''. h2_receive_data sample_api frame h = (Inr evs, h') \<and> fst h' = fst h @ kvs \<and>
        h2_data_to_send sample_api h' = (settings_ack, h'') \<and> quiet sample_api h'' \<and> fst h'' = fst h'"
    using unpack_pack_settings [OF bs(1)] h by (simp add: sample_api_def quiet_def)
qed

definition sample_adapter :: "((nat \<times> nat) list \<times> bytes) adapter" where
  "sample_adapter = \<lparr>ad_h2 = ([], []), ad_header_table_size_changes = 0\<rparr>"

theorem settings_in_order_witness:
  "\<exists>a' w. apply_settings sample_api [(4, 5), (1, 4096), (9, 1), (4, 6)] sample_adapter = (Inr (), a') \<and>
     fst (ad_h2 a') = fst (ad_h2 sample_adapter) @ w \<and>
     filter (\<lambda>e. fst e \<noteq> SI_HEADER_TABLE_SIZE) w = [(4, 5), (4, 6)]"
proof -
  let ?es = "[(4, 5), (1, 4096), (9, 1), (4, 6)] :: (nat \<times> nat) list"
  have "quiet sample_api (ad_h2 sample_adapter)" "settings_range ?es" "SI_HEADER_TABLE_SIZE \<in> set (h2_setting_codes sample_api)"
    "ad_header_table_size_changes sample_adapter + length (table_sizes (h2_header_table_size sample_api (ad_h2 sample_adapter))
      (map snd (filter (\<lambda>e. fst e = SI_HEADER_TABLE_SIZE) ?es))) \<le> MAX_HEADER_TABLE_SIZE_CHANGES"
    by (simp_all add: quiet_def sample_api_def sample_adapter_def settings_range_def MAX_HEADER_TABLE_SIZE_CHANGES_def)
  from settings_in_order [OF sample_api_accepts this] show ?thesis by (auto simp: sample_api_def)
qed

end
