(* ===== verification/Http2_Session.thy ===== *)
theory Http2_Session
  imports Methods Http2_Adapter Http2_Capture Http2_Typing
begin

text \<open>
  \<open>solvetls/http2/session.py\<close>: one bounded HTTP/2 connection. The state of \<open>HTTP2Session\<close> is a record;
  each coroutine is a method on it. The h2 connection is the parameter \<open>api\<close> of \<open>Http2_Adapter\<close>, and
  the transport (\<open>HTTP2Transport\<close>) is a pair of methods on a state of any type. The two loops that wait
  for the network are partial functions: a loop that never ended would have no value.
\<close>

section \<open>State\<close>

record 't transport =
  tr_read :: "('t, bytes) meth"
  tr_write :: "bytes \<Rightarrow> ('t, unit) meth"

record ('h, 't) session =
  se_transport :: 't
  se_capture :: http2_capture
  se_connection :: "'h adapter"
  se_buffer :: bytes
  se_capture_bytes :: nat
  se_capture_entries :: nat
  se_first_frame :: bool
  se_continuation_stream :: "nat option"
  se_header_block_bytes :: nat
  se_prioritized_idle_streams :: "nat set"
  se_request_ready :: bool
  se_request_bytes :: nat
  se_expected_length :: "nat option"
  se_cancelled :: bool
  se_initialized :: bool
  se_closed :: bool

definition HTTP2_PREFACE :: bytes where
  "HTTP2_PREFACE = asc ''PRI * HTTP/2.0'' @ [13, 10, 13, 10] @ asc ''SM'' @ [13, 10, 13, 10]"

definition SERVER_MAX_FRAME_SIZE :: nat where "SERVER_MAX_FRAME_SIZE = 65536"
definition SERVER_INITIAL_WINDOW_SIZE :: nat where "SERVER_INITIAL_WINDOW_SIZE = 1048576"
definition MAX_CAPTURE_BYTES :: nat where "MAX_CAPTURE_BYTES = 2097152"
definition MAX_CAPTURE_FRAMES :: nat where "MAX_CAPTURE_FRAMES = 4096"
definition MAX_CAPTURE_ENTRIES :: nat where "MAX_CAPTURE_ENTRIES = 1024"

text \<open>The settings of the server by their code points: 3 is \<open>MAX_CONCURRENT_STREAMS\<close>, 6 is
  \<open>MAX_HEADER_LIST_SIZE\<close>, 4 is \<open>INITIAL_WINDOW_SIZE\<close> and 5 is \<open>MAX_FRAME_SIZE\<close>.\<close>

definition HTTP2Session :: "'h h2_api \<Rightarrow> 't \<Rightarrow> ('h, 't) session" where
  "HTTP2Session api t =
     \<lparr>se_transport = t, se_capture = HTTP2Capture,
      se_connection = \<lparr>ad_h2 = h2_new api [(3, 100), (6, MAX_HEADER_LIST_SIZE), (4, SERVER_INITIAL_WINDOW_SIZE),
          (5, SERVER_MAX_FRAME_SIZE)] SERVER_MAX_FRAME_SIZE, ad_header_table_size_changes = 0\<rparr>,
      se_buffer = [], se_capture_bytes = 0, se_capture_entries = 0, se_first_frame = True,
      se_continuation_stream = None, se_header_block_bytes = 0, se_prioritized_idle_streams = {},
      se_request_ready = False, se_request_bytes = 0, se_expected_length = None, se_cancelled = False,
      se_initialized = False, se_closed = False\<rparr>"

section \<open>Access to the parts\<close>

definition on_connection :: "('h adapter, 'a) meth \<Rightarrow> (('h, 't) session, 'a) meth" where
  "on_connection m s = (case m (se_connection s) of (r, a) \<Rightarrow> (r, s\<lparr>se_connection := a\<rparr>))"

definition on_transport :: "('t, 'a) meth \<Rightarrow> (('h, 't) session, 'a) meth" where
  "on_transport m s = (case m (se_transport s) of (r, t) \<Rightarrow> (r, s\<lparr>se_transport := t\<rparr>))"

abbreviation set_capture :: "(http2_capture \<Rightarrow> http2_capture) \<Rightarrow> ('h, 't) session \<Rightarrow> ('h, 't) session" where
  "set_capture f s \<equiv> s\<lparr>se_capture := f (se_capture s)\<rparr>"

abbreviation h2_of :: "('h, 't) session \<Rightarrow> 'h" where
  "h2_of s \<equiv> ad_h2 (se_connection s)"

section \<open>Closing and failing\<close>

definition flush :: "'h h2_api \<Rightarrow> 't transport \<Rightarrow> (('h, 't) session, unit) meth" where
  "flush api tr =
     bindM (on_connection (data_to_send api)) (\<lambda>data.
       if data \<noteq> [] then on_transport (tr_write tr data) else ret ())"

definition close_session :: "'h h2_api \<Rightarrow> 't transport \<Rightarrow> nat \<Rightarrow> (('h, 't) session, unit) meth" where
  "close_session api tr error_code =
     bindM (getsM (\<lambda>s. (se_closed s, cap_stream_id (se_capture s)))) (\<lambda>(closed, stream_id).
     bindM (if \<not> closed
            then bindM (on_connection (on_h2 (h2_close_connection api error_code
                          (Some (case stream_id of None \<Rightarrow> 0 | Some i \<Rightarrow> i)))))
                   (\<lambda>_. modifyM (\<lambda>s. s\<lparr>se_closed := True\<rparr>))
            else ret ())
       (\<lambda>_. flush api tr))"

definition fail :: "'h h2_api \<Rightarrow> 't transport \<Rightarrow> string \<Rightarrow> nat \<Rightarrow> (('h, 't) session, 'a) meth" where
  "fail api tr message error_code =
     bindM (close_session api tr error_code) (\<lambda>_. raise (ProtocolError message error_code))"

abbreviation fail_if :: "'h h2_api \<Rightarrow> 't transport \<Rightarrow> bool \<Rightarrow> string \<Rightarrow> nat \<Rightarrow> (('h, 't) session, unit) meth" where
  "fail_if api tr c message error_code \<equiv> (if c then fail api tr message error_code else ret ())"

abbreviation fail_when :: "'h h2_api \<Rightarrow> 't transport \<Rightarrow> (('h, 't) session \<Rightarrow> bool) \<Rightarrow> string \<Rightarrow> nat \<Rightarrow> (('h, 't) session, unit) meth" where
  "fail_when api tr c message error_code \<equiv> bindM (getsM c) (\<lambda>b. fail_if api tr b message error_code)"

definition check_cancelled :: "(('h, 't) session, unit) meth" where
  "check_cancelled =
     bindM (getsM se_cancelled) (\<lambda>cancelled. bindM (getsM se_closed) (\<lambda>closed.
       if cancelled then raise (ConnectionResetError ''HTTP/2 request stream was reset'')
       else if closed then raise (ConnectionResetError ''HTTP/2 connection is closed'')
       else ret ()))"

definition check_priority_limit :: "'h h2_api \<Rightarrow> 't transport \<Rightarrow> (('h, 't) session, unit) meth" where
  "check_priority_limit api tr =
     bindM (getsM (\<lambda>s. card (se_prioritized_idle_streams s))) (\<lambda>idle.
     bindM (on_connection (on_h2 (\<lambda>h. case h2_open_inbound api h of (n, h') \<Rightarrow> (Inr n, h')))) (\<lambda>n.
     fail_when api tr (\<lambda>s. idle + n > h2_max_concurrent api (h2_of s)) ''PRIORITY_UPDATE stream limit exceeded'' PROTOCOL_ERROR))"

section \<open>Events\<close>

definition validate_event :: "'h h2_api \<Rightarrow> 't transport \<Rightarrow> field_list \<Rightarrow> bool \<Rightarrow> (('h, 't) session, unit) meth" where
  "validate_event api tr headers trailers =
     (case validate_fields (h2_validate api) headers trailers of
        Inr _ \<Rightarrow> ret ()
      | Inl e \<Rightarrow> if is_ProtocolError e then fail api tr (exn_str e) PROTOCOL_ERROR else raise e)"

definition expectations_of :: "field_list \<Rightarrow> exn + string list" where
  "expectations_of headers =
     (case parse_expectations (map Bytes (field_values ''expect'' headers)) of
        Inr es \<Rightarrow> Inr es
      | Inl e \<Rightarrow> if is_ValueError e then Inr [''invalid expectation''] else Inl e)"

definition declare_length :: "'h h2_api \<Rightarrow> 't transport \<Rightarrow> (bytes \<times> bytes) list \<Rightarrow> (('h, 't) session, unit) meth" where
  "declare_length api tr values =
     (case map_of values (asc ''content-length'') of
        None \<Rightarrow> ret ()
      | Some v \<Rightarrow>
          bindM (modifyM (\<lambda>s. s\<lparr>se_expected_length := Some (bounded_content_length v)\<rparr>)) (\<lambda>_.
          fail_if api tr (bounded_content_length v > MAX_REQUEST_BODY)
            ''HTTP/2 request body limit exceeded'' ENHANCE_YOUR_CALM))"

definition meet_expectations :: "'h h2_api \<Rightarrow> nat \<Rightarrow> field_list \<Rightarrow> bool \<Rightarrow> (('h, 't) session, unit) meth" where
  "meet_expectations api stream_id headers stream_ended =
     (case expectations_of headers of
        Inl e \<Rightarrow> raise e
      | Inr expectations \<Rightarrow>
          if \<exists>v \<in> set expectations. v \<noteq> ''100-continue''
          then bindM (modifyM (set_capture (\<lambda>c. c\<lparr>cap_expectation_failed := True\<rparr>)))
                 (\<lambda>_. modifyM (\<lambda>s. s\<lparr>se_request_ready := True\<rparr>))
          else (case map_of (dict_of headers) (asc '':method'') of
                  None \<Rightarrow> raise (RuntimeError ''KeyError'')
                | Some method \<Rightarrow>
                    if method = asc ''CONNECT'' then modifyM (\<lambda>s. s\<lparr>se_request_ready := True\<rparr>)
                    else if expectations \<noteq> [] \<and> \<not> stream_ended
                    then on_connection (on_h2 (h2_send_headers api stream_id [(Bytes (asc '':status''), Bytes (asc ''100''))] False))
                    else ret ()))"

definition accept_request :: "'h h2_api \<Rightarrow> 't transport \<Rightarrow> nat \<Rightarrow> field_list \<Rightarrow> bool \<Rightarrow> (('h, 't) session, unit) meth" where
  "accept_request api tr stream_id headers stream_ended =
     bindM (modifyM (set_capture (\<lambda>c. c\<lparr>cap_stream_id := Some stream_id, cap_headers := Some headers\<rparr>))) (\<lambda>_.
     bindM (declare_length api tr (dict_of headers)) (\<lambda>_.
     meet_expectations api stream_id headers stream_ended))"

fun process_event :: "'h h2_api \<Rightarrow> 't transport \<Rightarrow> h2_event \<Rightarrow> (('h, 't) session, unit) meth" where
  "process_event api tr (RequestReceived stream_id headers stream_ended) =
     bindM (modifyM (\<lambda>s. s\<lparr>se_prioritized_idle_streams := Set.filter (\<lambda>i. i > stream_id) (se_prioritized_idle_streams s)\<rparr>)) (\<lambda>_.
     bindM (getsM (\<lambda>s. cap_stream_id (se_capture s))) (\<lambda>current.
       if current \<noteq> None
       then on_connection (on_h2 (h2_reset_stream api stream_id REFUSED_STREAM))
       else bindM (check_priority_limit api tr) (\<lambda>_.
            bindM (validate_event api tr headers False) (\<lambda>_.
            accept_request api tr stream_id headers stream_ended))))"
| "process_event api tr (TrailersReceived stream_id headers) =
     bindM (validate_event api tr headers True) (\<lambda>_.
     bindM (getsM (\<lambda>s. cap_stream_id (se_capture s))) (\<lambda>current.
       if current = Some stream_id then modifyM (set_capture (\<lambda>c. c\<lparr>cap_trailers := headers\<rparr>)) else ret ()))"
| "process_event api tr (DataReceived stream_id data flow_controlled_length) =
     bindM (bindM (getsM (\<lambda>s. cap_stream_id (se_capture s))) (\<lambda>current.
              if current = Some stream_id
              then bindM (modifyM (\<lambda>s. s\<lparr>se_request_bytes := se_request_bytes s + length data\<rparr>)) (\<lambda>_.
                   fail_when api tr (\<lambda>s. se_request_bytes s > MAX_REQUEST_BODY)
                     ''HTTP/2 request body limit exceeded'' ENHANCE_YOUR_CALM)
              else ret ())) (\<lambda>_.
     on_connection (on_h2 (h2_acknowledge api flow_controlled_length stream_id)))"
| "process_event api tr (StreamEnded stream_id) =
     bindM (getsM (\<lambda>s. cap_stream_id (se_capture s))) (\<lambda>current.
       if current = Some stream_id
       then bindM (fail_when api tr (\<lambda>s. se_expected_length s \<noteq> None \<and> se_expected_length s \<noteq> Some (se_request_bytes s))
                     ''HTTP/2 Content-Length does not match request body'' PROTOCOL_ERROR)
              (\<lambda>_. modifyM (\<lambda>s. s\<lparr>se_request_ready := True\<rparr>))
       else ret ())"
| "process_event api tr (StreamReset stream_id) =
     bindM (getsM (\<lambda>s. cap_stream_id (se_capture s))) (\<lambda>current.
       if current = Some stream_id then modifyM (\<lambda>s. s\<lparr>se_cancelled := True\<rparr>) else ret ())"
| "process_event api tr OtherEvent = ret ()"

fun process_events :: "'h h2_api \<Rightarrow> 't transport \<Rightarrow> h2_event list \<Rightarrow> (('h, 't) session, unit) meth" where
  "process_events api tr [] = ret ()"
| "process_events api tr (ev # evs) = bindM (process_event api tr ev) (\<lambda>_. process_events api tr evs)"

section \<open>Frames\<close>

text \<open>The checks of \<open>_process_frame\<close> up to the parse error: connection preface, continuation, size of
  the header block. \<open>payload\<close> attributes are those of the class that the type calls for.\<close>

definition check_first_frame :: "'h h2_api \<Rightarrow> 't transport \<Rightarrow> parsed_frame \<Rightarrow> (('h, 't) session, unit) meth" where
  "check_first_frame api tr frame =
     bindM (getsM se_first_frame) (\<lambda>first. if first then
       bindM (fail_if api tr (fh_type (pf_header frame) \<noteq> FT_SETTINGS \<or> has_flag (fh_flags (pf_header frame)) FF_ACK)
                ''First HTTP/2 frame must be client SETTINGS'' PROTOCOL_ERROR) (\<lambda>_.
       modifyM (\<lambda>s. let s = s\<lparr>se_first_frame := False\<rparr> in
         case pf_payload frame of
           SettingsPayload ack settings entries \<Rightarrow> set_capture (\<lambda>c. c\<lparr>cap_initial_settings := Some entries\<rparr>) s
         | _ \<Rightarrow> s))
     else ret ())"

definition check_continuation :: "'h h2_api \<Rightarrow> 't transport \<Rightarrow> frame_header \<Rightarrow> (('h, 't) session, unit) meth" where
  "check_continuation api tr header =
     fail_when api tr (\<lambda>s. se_continuation_stream s \<noteq> None \<and>
         (fh_type header \<noteq> FT_CONTINUATION \<or> se_continuation_stream s \<noteq> Some (fh_stream_id header)))
       ''CONTINUATION on the same stream was expected'' PROTOCOL_ERROR"

definition count_header_block :: "'h h2_api \<Rightarrow> 't transport \<Rightarrow> frame_header \<Rightarrow> (('h, 't) session, unit) meth" where
  "count_header_block api tr header =
     (if fh_type header \<in> {FT_HEADERS, FT_CONTINUATION} then
        bindM (modifyM (\<lambda>s. s\<lparr>se_header_block_bytes := se_header_block_bytes s + fh_length header\<rparr>)) (\<lambda>_.
        bindM (fail_when api tr (\<lambda>s. se_header_block_bytes s > MAX_HEADER_LIST_SIZE)
                ''HTTP/2 header block limit exceeded'' ENHANCE_YOUR_CALM) (\<lambda>_.
        modifyM (\<lambda>s. if has_flag (fh_flags header) FF_END_HEADERS
                     then s\<lparr>se_continuation_stream := None, se_header_block_bytes := 0\<rparr>
                     else s\<lparr>se_continuation_stream := Some (fh_stream_id header)\<rparr>)))
      else ret ())"

text \<open>\<open>getattr(payload, "parse_error", None)\<close> with the code that goes with it.\<close>

fun parse_failure :: "payload \<Rightarrow> (string \<times> nat) option" where
  "parse_failure (UnknownPayload _ _ (Some m) (Some c)) = (if m = [] then None else Some (m, c))"
| "parse_failure _ = None"

definition process_priority_update :: "'h h2_api \<Rightarrow> 't transport \<Rightarrow> payload \<Rightarrow> (('h, 't) session, unit) meth" where
  "process_priority_update api tr p =
     (case p of
        PriorityUpdatePayload stream_id _ \<Rightarrow>
          bindM (fail_if api tr (stream_id mod 2 = 0) ''PRIORITY_UPDATE refers to an idle push stream'' PROTOCOL_ERROR) (\<lambda>_.
          bindM (getsM h2_of) (\<lambda>h.
            if stream_id > h2_highest_inbound api h
            then bindM (modifyM (\<lambda>s. s\<lparr>se_prioritized_idle_streams := insert stream_id (se_prioritized_idle_streams s)\<rparr>))
                   (\<lambda>_. check_priority_limit api tr)
            else if h2_stream_closed api h stream_id = Some False then check_priority_limit api tr
            else ret ()))
      | _ \<Rightarrow> raise attribute_error)"

text \<open>The wire bytes that h2 gets: a \<open>HEADERS\<close> frame without its priority and padding.\<close>

definition wire_for_h2 :: "parsed_frame \<Rightarrow> bytes \<Rightarrow> exn + bytes" where
  "wire_for_h2 frame wire =
     (if fh_type (pf_header frame) = FT_HEADERS \<and> has_flag (fh_flags (pf_header frame)) FF_PRIORITY then
        (case pf_payload frame of
           HeadersPayload header_block _ end_stream end_headers _ \<Rightarrow>
             build_headers_frame (int (fh_stream_id (pf_header frame))) header_block end_stream end_headers
         | _ \<Rightarrow> Inl attribute_error)
      else Inr wire)"

text \<open>\<open>not payload.ack\<close> for \<open>SETTINGS\<close>, and the entries.\<close>

definition settings_entries :: "parsed_frame \<Rightarrow> exn + (nat \<times> nat) list option" where
  "settings_entries frame =
     (if fh_type (pf_header frame) = FT_SETTINGS then
        (case pf_payload frame of
           SettingsPayload ack _ entries \<Rightarrow> Inr (if ack then None else Some entries)
         | _ \<Rightarrow> Inl attribute_error)
      else Inr None)"

text \<open>\<open>except ProtocolError\<close>: what h2 has queued is sent and the session counts as closed.\<close>

definition queue_goaway :: "'h h2_api \<Rightarrow> 't transport \<Rightarrow> exn \<Rightarrow> (('h, 't) session, unit) meth" where
  "queue_goaway api tr e =
     bindM (getsM se_closed) (\<lambda>closed.
     if \<not> closed
     then bindM (on_connection (data_to_send api)) (\<lambda>pending.
            if pending \<noteq> []
            then bindM (on_transport (tr_write tr pending)) (\<lambda>_.
                 bindM (modifyM (\<lambda>s. s\<lparr>se_closed := True\<rparr>)) (\<lambda>_. raise e))
            else raise e)
     else raise e)"

definition deliver :: "'h h2_api \<Rightarrow> 't transport \<Rightarrow> (nat \<times> nat) list option \<Rightarrow> bytes \<Rightarrow> (('h, 't) session, unit) meth" where
  "deliver api tr entries wire =
     handleM (case entries of
                Some es \<Rightarrow> on_connection (apply_settings api es)
              | None \<Rightarrow> bindM (on_connection (receive_data api wire)) (process_events api tr))
       (\<lambda>e. if is_ProtocolError e then queue_goaway api tr e else raise e)"

definition forward_frame :: "'h h2_api \<Rightarrow> 't transport \<Rightarrow> parsed_frame \<Rightarrow> bytes \<Rightarrow> (('h, 't) session, unit) meth" where
  "forward_frame api tr frame wire =
     (case wire_for_h2 frame wire of
        Inl e \<Rightarrow> raise e
      | Inr wire' \<Rightarrow>
          (case settings_entries frame of
             Inl e \<Rightarrow> raise e
           | Inr entries \<Rightarrow> bindM (deliver api tr entries wire') (\<lambda>_. flush api tr)))"

definition check_reset :: "'h h2_api \<Rightarrow> 't transport \<Rightarrow> frame_header \<Rightarrow> (('h, 't) session, unit) meth" where
  "check_reset api tr header =
     fail_when api tr (\<lambda>s. fh_type header = FT_RST_STREAM \<and>
         fh_stream_id header > (if fh_stream_id header mod 2 = 1 then h2_highest_inbound api (h2_of s)
                                else h2_highest_outbound api (h2_of s)))
       ''RST_STREAM refers to an idle stream'' PROTOCOL_ERROR"

definition dispatch_frame :: "'h h2_api \<Rightarrow> 't transport \<Rightarrow> parsed_frame \<Rightarrow> bytes \<Rightarrow> (('h, 't) session, unit) meth" where
  "dispatch_frame api tr frame wire =
     (let t = fh_type (pf_header frame) in
      bindM (case parse_failure (pf_payload frame) of None \<Rightarrow> ret () | Some (m, c) \<Rightarrow> fail api tr m c) (\<lambda>_.
      bindM (fail_if api tr (t = FT_PUSH_PROMISE) ''Clients must not send PUSH_PROMISE'' PROTOCOL_ERROR) (\<lambda>_.
      bindM (check_reset api tr (pf_header frame)) (\<lambda>_.
      if t = FT_PRIORITY then ret ()
      else if t = FT_PRIORITY_UPDATE then process_priority_update api tr (pf_payload frame)
      else if t = FT_GOAWAY then
        (case pf_payload frame of
           GoawayPayload _ error_code _ \<Rightarrow>
             if error_code \<noteq> NO_ERROR then modifyM (\<lambda>s. s\<lparr>se_cancelled := True\<rparr>) else ret ()
         | _ \<Rightarrow> raise attribute_error)
      else forward_frame api tr frame wire))))"

definition process_frame :: "'h h2_api \<Rightarrow> 't transport \<Rightarrow> parsed_frame \<Rightarrow> bytes \<Rightarrow> (('h, 't) session, unit) meth" where
  "process_frame api tr frame wire =
     bindM (check_first_frame api tr frame) (\<lambda>_.
     bindM (check_continuation api tr (pf_header frame)) (\<lambda>_.
     bindM (count_header_block api tr (pf_header frame)) (\<lambda>_.
     if fh_type (pf_header frame) \<in> {FT_ALTSVC, FT_ORIGIN} then ret ()
     else dispatch_frame api tr frame wire)))"

section \<open>Receiving\<close>

text \<open>What is done with the outcome of the reader for the frame \<open>wire\<close>.\<close>

fun capture_frame :: "'h h2_api \<Rightarrow> 't transport \<Rightarrow> bytes \<Rightarrow> (exn + parsed_frame) \<times> frame_reader \<Rightarrow> (('h, 't) session, bool) meth" where
  "capture_frame api tr wire (Inl e, reader) =
     (case e of FrameParsingError m c \<Rightarrow> fail api tr m c | _ \<Rightarrow> raise e)"
| "capture_frame api tr wire (Inr frame, reader) =
     bindM (modifyM (\<lambda>s. s\<lparr>se_capture_entries := se_capture_entries s + fr_entries_read reader\<rparr>)) (\<lambda>_.
     bindM (fail_when api tr (\<lambda>s. length (cap_frames (se_capture s)) \<ge> MAX_CAPTURE_FRAMES)
             ''HTTP/2 frame count limit exceeded'' ENHANCE_YOUR_CALM) (\<lambda>_.
     bindM (modifyM (set_capture (\<lambda>c. c\<lparr>cap_frames := cap_frames c @ [frame]\<rparr>))) (\<lambda>_.
     bindM (process_frame api tr frame wire) (\<lambda>_. ret True))))"

text \<open>One turn of the frame loop of \<open>_receive\<close>: \<open>False\<close> when the buffer holds no complete frame.\<close>

definition receive_frame :: "'h h2_api \<Rightarrow> 't transport \<Rightarrow> (('h, 't) session, bool) meth" where
  "receive_frame api tr =
     bindM (getsM se_buffer) (\<lambda>buffer.
     bindM (getsM h2_of) (\<lambda>h.
     if length buffer < FRAME_HEADER_SIZE then ret False
     else let len = be_nat (take 3 buffer); maximum = h2_max_inbound_frame_size api h; frame_end = FRAME_HEADER_SIZE + len in
       bindM (fail_if api tr (len > maximum) ''HTTP/2 frame size limit exceeded'' FRAME_SIZE_ERROR) (\<lambda>_.
       if length buffer < frame_end then ret False
       else bindM (modifyM (\<lambda>s. s\<lparr>se_buffer := drop frame_end buffer\<rparr>)) (\<lambda>_.
            bindM (getsM se_capture_entries) (\<lambda>entries.
            capture_frame api tr (take frame_end buffer)
              (parse_frame (HTTP2FrameReader (take frame_end buffer) maximum False True
                 (Some (int MAX_CAPTURE_ENTRIES - int entries)))))))))"

text \<open>The loop. Every turn removes a frame from the buffer; a turn that did not would repeat forever.\<close>

function receive_frames :: "'h h2_api \<Rightarrow> 't transport \<Rightarrow> (('h, 't) session, unit) meth" where
  "receive_frames api tr s =
     (case receive_frame api tr s of
        (Inl e, s1) \<Rightarrow> (Inl e, s1)
      | (Inr False, s1) \<Rightarrow> (Inr (), s1)
      | (Inr True, s1) \<Rightarrow>
          if length (se_buffer s1) < length (se_buffer s) then receive_frames api tr s1 else (Inl Diverges, s1))"
  by pat_completeness auto
termination
  by (relation "measure (\<lambda>(api, tr, s). length (se_buffer s))") auto

declare receive_frames.simps [simp del]

definition receive :: "'h h2_api \<Rightarrow> 't transport \<Rightarrow> bytes \<Rightarrow> (('h, 't) session, unit) meth" where
  "receive api tr data =
     (if data = [] then raise (ConnectionResetError ''HTTP/2 connection closed before completion'')
      else bindM (modifyM (\<lambda>s. s\<lparr>se_capture_bytes := se_capture_bytes s + length data\<rparr>)) (\<lambda>_.
           bindM (fail_when api tr (\<lambda>s. se_capture_bytes s > MAX_CAPTURE_BYTES)
                   ''HTTP/2 capture limit exceeded'' ENHANCE_YOUR_CALM) (\<lambda>_.
           bindM (modifyM (\<lambda>s. s\<lparr>se_buffer := se_buffer s @ data\<rparr>)) (\<lambda>_.
           bindM (receive_frames api tr) (\<lambda>_.
           bindM (flush api tr) (\<lambda>_.
           check_cancelled))))))"

definition read_and_receive :: "'h h2_api \<Rightarrow> 't transport \<Rightarrow> (('h, 't) session, unit) meth" where
  "read_and_receive api tr = bindM (on_transport (tr_read tr)) (receive api tr)"

definition initialize :: "'h h2_api \<Rightarrow> 't transport \<Rightarrow> bytes \<Rightarrow> (('h, 't) session, unit) meth" where
  "initialize api tr incoming_data =
     bindM (getsM se_initialized) (\<lambda>initialized.
     bindM (guardM (\<not> initialized) (RuntimeError ''HTTP/2 session already initialized'')) (\<lambda>_.
     bindM (modifyM (\<lambda>s. s\<lparr>se_initialized := True\<rparr>)) (\<lambda>_.
     bindM (on_connection (on_h2 (h2_initiate_connection api))) (\<lambda>_.
     bindM (flush api tr) (\<lambda>_.
     bindM (fail_if api tr (\<not> starts_with HTTP2_PREFACE incoming_data) ''Invalid HTTP/2 connection preface'' PROTOCOL_ERROR) (\<lambda>_.
     bindM (on_connection (receive_data api HTTP2_PREFACE)) (\<lambda>_.
     let remaining = drop (length HTTP2_PREFACE) incoming_data in
     if remaining \<noteq> [] then receive api tr remaining else ret ())))))))"

partial_function (option) await_request :: "'h h2_api \<Rightarrow> 't transport \<Rightarrow> ('h, 't) session \<Rightarrow> ((exn + unit) \<times> ('h, 't) session) option" where
  "await_request api tr s =
     (if se_request_ready s then Some (Inr (), s)
      else case read_and_receive api tr s of
          (Inl e, s1) \<Rightarrow> Some (Inl e, s1)
        | (Inr _, s1) \<Rightarrow> await_request api tr s1)"

definition receive_request :: "'h h2_api \<Rightarrow> 't transport \<Rightarrow> ('h, 't) session \<Rightarrow> ((exn + unit) \<times> ('h, 't) session) option" where
  "receive_request api tr s = map_option (\<lambda>(r, s1). case r of Inl e \<Rightarrow> (Inl e, s1) | Inr _ \<Rightarrow> check_cancelled s1) (await_request api tr s)"

section \<open>Sending\<close>

definition send_chunk :: "'h h2_api \<Rightarrow> 't transport \<Rightarrow> nat \<Rightarrow> bytes \<Rightarrow> nat \<Rightarrow> (('h, 't) session, nat) meth" where
  "send_chunk api tr stream_id content offset =
     bindM check_cancelled (\<lambda>_.
     bindM (on_connection (on_h2 (h2_flow_window api stream_id))) (\<lambda>window.
     bindM (getsM h2_of) (\<lambda>h.
       let available = min window (h2_max_outbound_frame_size api h) in
       if available \<le> 0 then bindM (read_and_receive api tr) (\<lambda>_. ret offset)
       else let end = min (offset + nat available) (length content) in
            bindM (on_connection (on_h2 (h2_send_data api stream_id (slice content offset end) (end = length content)))) (\<lambda>_.
            bindM (flush api tr) (\<lambda>_. ret end)))))"

partial_function (option) send_content ::
  "'h h2_api \<Rightarrow> 't transport \<Rightarrow> nat \<Rightarrow> bytes \<Rightarrow> nat \<Rightarrow> ('h, 't) session \<Rightarrow> ((exn + unit) \<times> ('h, 't) session) option" where
  "send_content api tr stream_id content offset s =
     (if offset < length content then
        (case send_chunk api tr stream_id content offset s of
           (Inl e, s1) \<Rightarrow> Some (Inl e, s1)
         | (Inr offset', s1) \<Rightarrow> send_content api tr stream_id content offset' s1)
      else Some (Inr (), s))"

definition response_fields :: "nat \<Rightarrow> (string \<times> string) list \<Rightarrow> (string \<times> string) list" where
  "response_fields status_code headers = dict_of (('':status'', str_nat status_code) # headers)"

definition start_response :: "'h h2_api \<Rightarrow> 't transport \<Rightarrow> bytes \<Rightarrow> (string \<times> string) list \<Rightarrow> nat \<Rightarrow> (('h, 't) session, nat) meth" where
  "start_response api tr content headers status_code =
     bindM check_cancelled (\<lambda>_.
     bindM (getsM (\<lambda>s. cap_stream_id (se_capture s))) (\<lambda>current.
     bindM (getsM se_request_ready) (\<lambda>ready.
       case current of
         None \<Rightarrow> raise (RuntimeError ''No complete HTTP/2 request'')
       | Some stream_id \<Rightarrow>
           if \<not> ready then raise (RuntimeError ''No complete HTTP/2 request'')
           else bindM (on_connection (on_h2 (h2_send_headers api stream_id
                  (map (\<lambda>(k, v). (Str k, Str v)) (response_fields status_code headers)) (content = [])))) (\<lambda>_.
                bindM (flush api tr) (\<lambda>_. ret stream_id)))))"

definition send_response :: "'h h2_api \<Rightarrow> 't transport \<Rightarrow> bytes \<Rightarrow> (string \<times> string) list option \<Rightarrow> nat \<Rightarrow>
    ('h, 't) session \<Rightarrow> ((exn + unit) \<times> ('h, 't) session) option" where
  "send_response api tr content headers status_code s =
     (case prepare_response content headers status_code of (content', headers') \<Rightarrow>
        case start_response api tr content' headers' status_code s of
          (Inl e, s1) \<Rightarrow> Some (Inl e, s1)
        | (Inr stream_id, s1) \<Rightarrow> send_content api tr stream_id content' 0 s1)"

end
