(* ===== verification/Connection.thy ===== *)
theory Connection
  imports Tls_Stream Http1 Http2_Session
begin

text \<open>
  The upper half of \<open>solvetls/connection.py\<close>: one client connection from the TLS handshake to the close.
  The object and the HTTP/2 session refer to each other: the session reads and writes through the
  connection, and the connection shows the session's capture as \<open>http2\<close>. Here the TLS state belongs to
  the connection and is lent to the session for the time of a call.
\<close>

section \<open>State\<close>

record ('h, 'e) client =
  cl_peername :: "(string \<times> nat) option"
  cl_sockname :: "(string \<times> nat) option"
  cl_syn_packet :: "bytes option"
  cl_http_version :: "string option"
  cl_client_hello :: "client_hello option"
  cl_http1 :: "http1_request option"
  cl_http1_raw_head :: "bytes option"
  cl_session :: "('h, 'e tls) session option"
  cl_tls :: "'e tls"

definition cl_http2 :: "('h, 'e) client \<Rightarrow> http2_capture option" where
  "cl_http2 c = map_option se_capture (cl_session c)"

definition ClientConnection :: "(string \<times> nat) option \<Rightarrow> (string \<times> nat) option \<Rightarrow> bytes option \<Rightarrow> 'e \<Rightarrow> ('h, 'e) client" where
  "ClientConnection peername sockname syn_packet env =
     \<lparr>cl_peername = peername, cl_sockname = sockname, cl_syn_packet = syn_packet, cl_http_version = None,
      cl_client_hello = None, cl_http1 = None, cl_http1_raw_head = None, cl_session = None,
      cl_tls = \<lparr>tl_env = env, tl_eof = False, tl_shutdown_sent = False, tl_fatal_alert_sent = False\<rparr>\<rparr>"

definition on_tls :: "('e tls, 'a) meth \<Rightarrow> (('h, 'e) client, 'a) meth" where
  "on_tls m c = (case m (cl_tls c) of (r, t) \<Rightarrow> (r, c\<lparr>cl_tls := t\<rparr>))"

definition lend :: "('h, 'e) client \<Rightarrow> ('h, 'e tls) session \<Rightarrow> ('h, 'e tls) session" where
  "lend c s = s\<lparr>se_transport := cl_tls c\<rparr>"

definition on_session :: "exn \<Rightarrow> (('h, 'e tls) session, 'a) meth \<Rightarrow> (('h, 'e) client, 'a) meth" where
  "on_session missing m c =
     (case cl_session c of
        None \<Rightarrow> (Inl missing, c)
      | Some s \<Rightarrow> (case m (lend c s) of (r, s1) \<Rightarrow> (r, c\<lparr>cl_session := Some s1, cl_tls := se_transport s1\<rparr>)))"

definition http2_transport :: "'e net_api \<Rightarrow> 'e tls transport" where
  "http2_transport net = \<lparr>tr_read = tls_read net 4096, tr_write = tls_write net\<rparr>"

text \<open>The two operations of the session that wait for the peer, as methods.\<close>

definition totalM :: "('s \<Rightarrow> ((exn + 'a) \<times> 's) option) \<Rightarrow> ('s, 'a) meth" where
  "totalM f s = (case f s of Some r \<Rightarrow> r | None \<Rightarrow> (Inl Diverges, s))"

definition with_timeout :: "('s, 'a) meth \<Rightarrow> ('s, 'a) meth" where
  "with_timeout m = handleM m (\<lambda>e. raise (if e = CancelledError True then TimeoutError else e))"

definition liftR :: "exn + 'a \<Rightarrow> ('s, 'a) meth" where
  "liftR r s = (r, s)"

section \<open>Handshake and request\<close>

definition do_tls_handshake :: "'e net_api \<Rightarrow> (('h, 'e) client, unit) meth" where
  "do_tls_handshake net =
     with_timeout (
       bindM (on_tls (read_client_hello net)) (\<lambda>(incoming_data, hello).
       bindM (modifyM (\<lambda>c. c\<lparr>cl_client_hello := Some hello\<rparr>)) (\<lambda>_.
       bindM (liftR (has_shared_alpn hello)) (\<lambda>shared.
       if \<not> shared
       then bindM (on_tls (send_plaintext_alert net 120)) (\<lambda>_. raise (SSLError ''No shared ALPN protocol''))
       else bindM (on_tls (on_env (bio_write net incoming_data))) (\<lambda>_.
            bindM (on_tls (handshake_loop net (length incoming_data))) (\<lambda>_.
            on_tls (handle_outgoing_data net)))))))"

definition read_protocol_preface :: "'e net_api \<Rightarrow> ('e tls, bytes) meth" where
  "read_protocol_preface net =
     loopM (\<lambda>buffered.
       if length buffered < length HTTP2_PREFACE then
         bindM (tls_read net 4096) (\<lambda>data.
         let buffered = buffered @ data in
         if \<not> starts_with (take (length HTTP2_PREFACE) buffered) HTTP2_PREFACE then ret (Inr buffered)
         else ret (Inl buffered))
       else ret (Inr buffered)) []"

definition read_http1_head :: "'e net_api \<Rightarrow> bytes \<Rightarrow> ('e tls, bytes) meth" where
  "read_http1_head net buffered =
     loopM (\<lambda>data.
       bindM (liftR (check_head_size data True)) (\<lambda>_.
       case find_sub HEAD_END data of
         Some end \<Rightarrow> ret (Inr (take (end + length HEAD_END) data))
       | None \<Rightarrow> bindM (tls_read net 4096) (\<lambda>more. ret (Inl (data @ more))))) buffered"

definition handle_http :: "'h h2_api \<Rightarrow> 'e net_api \<Rightarrow> (('h, 'e) client, unit) meth" where
  "handle_http api net =
     with_timeout (
       bindM (getsM (\<lambda>c. ssl_alpn net (tl_env (cl_tls c)))) (\<lambda>alpn.
       if alpn = Some ''h2'' then
         bindM (modifyM (\<lambda>c. c\<lparr>cl_http_version := Some ''HTTP/2.0''\<rparr>)) (\<lambda>_.
         bindM (on_tls (read_protocol_preface net)) (\<lambda>incoming_data.
         bindM (modifyM (\<lambda>c. c\<lparr>cl_session := Some (HTTP2Session api (cl_tls c))\<rparr>)) (\<lambda>_.
         bindM (on_session attribute_error (initialize api (http2_transport net) incoming_data)) (\<lambda>_.
         on_session attribute_error (totalM (receive_request api (http2_transport net)))))))
       else
         bindM (modifyM (\<lambda>c. c\<lparr>cl_http_version := Some ''HTTP/1.1''\<rparr>)) (\<lambda>_.
         bindM (on_tls (tls_read net 4096)) (\<lambda>first.
         bindM (on_tls (read_http1_head net first)) (\<lambda>head.
         bindM (modifyM (\<lambda>c. c\<lparr>cl_http1_raw_head := Some head\<rparr>)) (\<lambda>_.
         bindM (liftR (parse_request head)) (\<lambda>request.
         modifyM (\<lambda>c. c\<lparr>cl_http1 := Some request\<rparr>))))))))"

section \<open>Response\<close>

text \<open>\<open>HTTPStatus(code).phrase\<close> of the Python library.\<close>

definition HTTP_STATUS :: "(nat \<times> string) list" where
  "HTTP_STATUS =
     [(100, ''Continue''), (101, ''Switching Protocols''), (102, ''Processing''), (103, ''Early Hints''),
      (200, ''OK''), (201, ''Created''), (202, ''Accepted''), (203, ''Non-Authoritative Information''),
      (204, ''No Content''), (205, ''Reset Content''), (206, ''Partial Content''), (207, ''Multi-Status''),
      (208, ''Already Reported''), (226, ''IM Used''), (300, ''Multiple Choices''),
      (301, ''Moved Permanently''), (302, ''Found''), (303, ''See Other''), (304, ''Not Modified''),
      (305, ''Use Proxy''), (307, ''Temporary Redirect''), (308, ''Permanent Redirect''),
      (400, ''Bad Request''), (401, ''Unauthorized''), (402, ''Payment Required''), (403, ''Forbidden''),
      (404, ''Not Found''), (405, ''Method Not Allowed''), (406, ''Not Acceptable''),
      (407, ''Proxy Authentication Required''), (408, ''Request Timeout''), (409, ''Conflict''),
      (410, ''Gone''), (411, ''Length Required''), (412, ''Precondition Failed''),
      (413, ''Request Entity Too Large''), (414, ''Request-URI Too Long''), (415, ''Unsupported Media Type''),
      (416, ''Requested Range Not Satisfiable''), (417, ''Expectation Failed''),
      (418, ''I'' @ [CHR 0x27] @ ''m a Teapot''), (421, ''Misdirected Request''),
      (422, ''Unprocessable Entity''), (423, ''Locked''), (424, ''Failed Dependency''), (425, ''Too Early''),
      (426, ''Upgrade Required''), (428, ''Precondition Required''), (429, ''Too Many Requests''),
      (431, ''Request Header Fields Too Large''), (451, ''Unavailable For Legal Reasons''),
      (500, ''Internal Server Error''), (501, ''Not Implemented''), (502, ''Bad Gateway''),
      (503, ''Service Unavailable''), (504, ''Gateway Timeout''), (505, ''HTTP Version Not Supported''),
      (506, ''Variant Also Negotiates''), (507, ''Insufficient Storage''), (508, ''Loop Detected''),
      (510, ''Not Extended''), (511, ''Network Authentication Required'')]"

definition encode_utf8 :: "string \<Rightarrow> bytes" where
  "encode_utf8 s = concat (map utf8_encode (codes s))"

definition http1_response_head :: "nat \<Rightarrow> (string \<times> string) list \<Rightarrow> string" where
  "http1_response_head status_code headers =
     (let reason = (case map_of HTTP_STATUS status_code of Some p \<Rightarrow> p | None \<Rightarrow> ''Unknown'') in
      ''HTTP/1.1 '' @ str_nat status_code @ '' '' @ reason @ [CHR 0x0D, CHR 0x0A] @
      concat (map (\<lambda>(key, value). key @ '': '' @ value @ [CHR 0x0D, CHR 0x0A]) headers) @ [CHR 0x0D, CHR 0x0A])"

definition send_http1_response :: "'e net_api \<Rightarrow> bytes \<Rightarrow> (string \<times> string) list \<Rightarrow> nat \<Rightarrow> ('e tls, unit) meth" where
  "send_http1_response net content headers status_code =
     (case prepare_response content (Some headers) status_code of (content', headers') \<Rightarrow>
        tls_write net (encode_utf8 (http1_response_head status_code (dict_of ((''connection'', ''close'') # headers'))) @ content'))"

text \<open>\<open>date\<close> is \<open>formatdate(usegmt=True)\<close>.\<close>

definition send_client_response :: "'h h2_api \<Rightarrow> 'e net_api \<Rightarrow> string \<Rightarrow> bytes \<Rightarrow> (string \<times> string) list option \<Rightarrow> nat \<Rightarrow>
    (('h, 'e) client, unit) meth" where
  "send_client_response api net date content headers status_code =
     (let response_headers = dict_of ((''date'', date) #
            dict_of (map (\<lambda>(name, value). (lower name, value)) (case headers of None \<Rightarrow> [] | Some h \<Rightarrow> h))) in
      with_timeout (
        bindM (getsM cl_http_version) (\<lambda>version.
        if version = Some ''HTTP/2.0'' then
          on_session (RuntimeError ''HTTP/2 handshake must run first'')
            (totalM (send_response api (http2_transport net) content (Some response_headers) status_code))
        else if version = Some ''HTTP/1.1'' then on_tls (send_http1_response net content response_headers status_code)
        else raise (ValueError ''Protocol is not supported''))))"

section \<open>Close\<close>

text \<open>\<open>except Exception\<close>: cancellation is not an \<open>Exception\<close>, and a loop that never ends raises nothing.\<close>

fun is_Exception :: "exn \<Rightarrow> bool" where
  "is_Exception (CancelledError _) = False"
| "is_Exception Diverges = False"
| "is_Exception _ = True"

definition suppress_errors :: "('s, unit) meth \<Rightarrow> ('s, unit) meth" where
  "suppress_errors m = handleM m (\<lambda>e. if is_Exception e then ret () else raise e)"

definition finallyM :: "('s, 'a) meth \<Rightarrow> ('s, unit) meth \<Rightarrow> ('s, 'a) meth" where
  "finallyM m f = bindM (tryM m) (\<lambda>r. if r = Inl Diverges then raise Diverges else bindM f (\<lambda>_. liftR r))"

definition shut_down_tls :: "'e net_api \<Rightarrow> ('e tls, unit) meth" where
  "shut_down_tls net =
     bindM (getsM (\<lambda>s. \<not> tl_shutdown_sent s \<and> \<not> tl_fatal_alert_sent s)) (\<lambda>needed.
       if needed then bindM (modifyM (\<lambda>s. s\<lparr>tl_shutdown_sent := True\<rparr>)) (\<lambda>_. on_env (ssl_unwrap net)) else ret ())"

definition finish_sending :: "'e net_api \<Rightarrow> ('e tls, unit) meth" where
  "finish_sending net =
     bindM (handle_outgoing_data net) (\<lambda>_.
     bindM (getsM (\<lambda>s. net_can_write_eof net (tl_env s))) (\<lambda>can.
     bindM (if can then on_env (net_write_eof net) else ret ()) (\<lambda>_.
     drain_peer net)))"

definition close_transport :: "'e net_api \<Rightarrow> ('e tls, unit) meth" where
  "close_transport net =
     handleM
       (bindM (getsM (\<lambda>s. net_is_closing net (tl_env s))) (\<lambda>closing.
        bindM (if \<not> closing then on_env (net_close net) else ret ()) (\<lambda>_.
        on_env (net_wait_closed net))))
       (\<lambda>e. case e of
              CancelledError _ \<Rightarrow> bindM (on_env (net_abort net)) (\<lambda>_. raise e)
            | Diverges \<Rightarrow> raise e
            | _ \<Rightarrow> on_env (net_abort net))"

definition close_client :: "'h h2_api \<Rightarrow> 'e net_api \<Rightarrow> nat \<Rightarrow> (('h, 'e) client, unit) meth" where
  "close_client api net http2_error_code =
     finallyM
       (bindM (suppress_errors (bindM (getsM cl_session) (\<lambda>s.
                 if s \<noteq> None then on_session attribute_error (close_session api (http2_transport net) http2_error_code)
                 else ret ()))) (\<lambda>_.
        bindM (on_tls (suppress_errors (shut_down_tls net))) (\<lambda>_.
        on_tls (suppress_errors (finish_sending net)))))
       (on_tls (close_transport net))"

end
