(* ===== verification/Tls_Stream_Correct.thy ===== *)
theory Tls_Stream_Correct
  imports Tls_Stream
begin

text \<open>
  The ClientHello on the wire: what is read is a sequence of handshake records that carry exactly one
  well-formed message, whatever the fragmentation; the records are kept byte for byte, and an input that
  is refused is answered by at most one alert.
\<close>

section \<open>Records\<close>

definition enc_record :: "(byte \<times> byte) \<times> bytes \<Rightarrow> bytes" where
  "enc_record r = (case r of ((v1, v2), payload) \<Rightarrow> [TLS_HANDSHAKE_CONTENT_TYPE, v1, v2] @ be_bytes 2 (length payload) @ payload)"

abbreviation enc_records :: "((byte \<times> byte) \<times> bytes) list \<Rightarrow> bytes" where
  "enc_records rs \<equiv> concat (map enc_record rs)"

abbreviation payloads :: "((byte \<times> byte) \<times> bytes) list \<Rightarrow> bytes" where
  "payloads rs \<equiv> concat (map snd rs)"

definition wf_records :: "((byte \<times> byte) \<times> bytes) list \<Rightarrow> bool" where
  "wf_records rs \<longleftrightarrow> (\<forall>r \<in> set rs. 0 < length (snd r) \<and> length (snd r) \<le> MAX_TLS_RECORD_SIZE)"

definition enc_message :: "bytes \<Rightarrow> bytes" where
  "enc_message body = TLS_CLIENT_HELLO_TYPE # be_bytes 3 (length body) @ body"

text \<open>\<open>readexactly\<close> returns the next bytes of the stream, if there are as many.\<close>

definition exact_stream :: "'e net_api \<Rightarrow> ('e \<Rightarrow> bytes) \<Rightarrow> bool" where
  "exact_stream net rest \<longleftrightarrow> (\<forall>n e.
     (n \<le> length (rest e) \<longrightarrow> (\<exists>e'. net_readexactly net n e = (Inr (take n (rest e)), e') \<and> rest e' = drop n (rest e))) \<and>
     (n > length (rest e) \<longrightarrow> (\<exists>x e'. net_readexactly net n e = (Inl x, e'))))"

lemma exact_streamD:
  assumes "exact_stream net rest" and "net_readexactly net n e = (Inr d, e')"
  shows "length d = n \<and> rest e = d @ rest e'"
proof -
  have "n \<le> length (rest e)" using assms by (force simp: exact_stream_def not_less)
  with assms show ?thesis by (force simp: exact_stream_def)
qed

lemma wp_env [wp_simps]:
  "wp (on_env m) Q E s = wp m (\<lambda>x e. Q x (s\<lparr>tl_env := e\<rparr>)) (\<lambda>x e. E x (s\<lparr>tl_env := e\<rparr>)) (tl_env s)"
  by (auto simp: wp_def on_env_def split: prod.splits sum.splits)

lemma read_exactly_wp:
  assumes "exact_stream net rest"
    and "\<And>d e. length d = n \<Longrightarrow> rest (tl_env s) = d @ rest e \<Longrightarrow> Q d (s\<lparr>tl_env := e\<rparr>)"
    and "\<And>x e. E x (s\<lparr>tl_env := e\<rparr>)"
  shows "wp (read_exactly net n) Q E s"
  unfolding read_exactly_def wp_simps
  using exact_streamD [OF assms(1)] assms(2,3) by (auto simp: wp_def split: sum.splits prod.splits)

lemma read_exactly_complete:
  "exact_stream net rest \<Longrightarrow> rest (tl_env s) = d @ ds \<Longrightarrow> n = length d \<Longrightarrow>
     \<exists>e. read_exactly net n s = (Inr d, s\<lparr>tl_env := e\<rparr>) \<and> rest e = ds"
  unfolding exact_stream_def read_exactly_def handleM_def on_env_def
  by (auto dest!: spec [of _ n] spec [of _ "tl_env s"])

section \<open>What is accepted\<close>

definition hello_inv :: "bytes \<Rightarrow> ('e \<Rightarrow> bytes) \<Rightarrow> bytes \<times> bytes \<times> nat option \<Rightarrow> 'e tls \<Rightarrow> bool" where
  "hello_inv start rest v s = (case v of (raw, message, message_length) \<Rightarrow>
     start = raw @ rest (tl_env s) \<and> (\<exists>rs. wf_records rs \<and> raw = enc_records rs \<and> message = payloads rs) \<and>
     (\<forall>len. message_length = Some len \<longrightarrow> 4 \<le> length message \<and> hd message = TLS_CLIENT_HELLO_TYPE \<and>
        len = be_nat (slice message 1 4) \<and> len \<le> MAX_CLIENT_HELLO_SIZE))"


text \<open>What the two checks let pass.\<close>

lemma wp_alert: "(\<And>s'. E' s') \<Longrightarrow> wp (bindM m (\<lambda>_. raise e)) Q (\<lambda>_. E') s"
  by (simp add: wp_def bindM_def raise_def split: prod.splits sum.splits)

lemma check_record_header_wp:
  assumes "length header = 5"
    and "\<And>v1 v2. header = [TLS_HANDSHAKE_CONTENT_TYPE, v1, v2] @ drop 3 header \<Longrightarrow>
           0 < be_nat (drop 3 header) \<Longrightarrow> be_nat (drop 3 header) \<le> MAX_TLS_RECORD_SIZE \<Longrightarrow> Q (be_nat (drop 3 header)) s"
  shows "wp (check_record_header net header) Q (\<lambda>_ _. True) s"
proof -
  obtain a b c d e where h: "header = [a, b, c, d, e]"
    using assms(1) by (auto simp: numeral_eq_Suc length_Suc_conv)
  show ?thesis using assms(2) unfolding h check_record_header_def
    by (auto simp: wp_alert Let_def wp_return)
qed

lemma check_message_wp:
  assumes "\<And>len. ml = None \<Longrightarrow> length message \<ge> 4 \<Longrightarrow> hd message = TLS_CLIENT_HELLO_TYPE \<Longrightarrow>
             len = be_nat (slice message 1 4) \<Longrightarrow> len \<le> MAX_CLIENT_HELLO_SIZE \<Longrightarrow> Q (Some len) s"
    and "ml \<noteq> None \<or> length message < 4 \<Longrightarrow> Q ml s"
  shows "wp (check_message net ml message) Q (\<lambda>_ _. True) s"
  using assms unfolding check_message_def by (auto simp: wp_alert Let_def wp_return)

lemma record_bytes:
  assumes "header = [TLS_HANDSHAKE_CONTENT_TYPE, v1, v2] @ drop 3 header" "length header = 5" "length payload = be_nat (drop 3 header)"
  shows "header @ payload = enc_record ((v1, v2), payload)"
proof -
  have "drop 3 header = be_bytes 2 (length payload)"
    using be_bytes_be_nat [of "drop 3 header"] assms(2,3) by simp
  with assms(1) show ?thesis by (simp add: enc_record_def)
qed

lemma read_records_sound:
  assumes stream: "exact_stream net rest"
  shows "wp (read_records net) (\<lambda>v s'. hello_inv (rest (tl_env s)) rest v s' \<and> hello_complete v) (\<lambda>_ _. True) s"
  unfolding read_records_def
proof (rule wp_loop_partial [where I = "hello_inv (rest (tl_env s)) rest"])
  show "hello_inv (rest (tl_env s)) rest ([], [], None) s"
    by (auto simp: hello_inv_def wf_records_def intro!: exI [of _ "[]"])
next
  fix v s1 assume inv: "hello_inv (rest (tl_env s)) rest v s1"
  obtain raw message ml where v: "v = (raw, message, ml)" by (cases v) auto
  obtain rs where start: "rest (tl_env s) = raw @ rest (tl_env s1)"
    and rs: "wf_records rs" "raw = enc_records rs" "message = payloads rs"
    and len: "\<And>len. ml = Some len \<Longrightarrow> 4 \<le> length message \<and> hd message = TLS_CLIENT_HELLO_TYPE \<and>
        len = be_nat (slice message 1 4) \<and> len \<le> MAX_CLIENT_HELLO_SIZE"
    using inv unfolding v hello_inv_def by auto
  let ?Q = "\<lambda>r s'. case r of Inr a \<Rightarrow> hello_inv (rest (tl_env s)) rest a s' \<and> hello_complete a
     | Inl x1 \<Rightarrow> hello_inv (rest (tl_env s)) rest x1 s'"
  have next_inv: "hello_inv (rest (tl_env s)) rest (raw @ header @ payload, message @ payload, ml') s2"
    if h: "header = [TLS_HANDSHAKE_CONTENT_TYPE, v1, v2] @ drop 3 header" "length header = 5" "length payload = be_nat (drop 3 header)"
      and b: "0 < be_nat (drop 3 header)" "be_nat (drop 3 header) \<le> MAX_TLS_RECORD_SIZE"
      and r: "rest (tl_env s1) = header @ payload @ rest (tl_env s2)"
      and l: "\<And>len. ml' = Some len \<Longrightarrow> 4 \<le> length (message @ payload) \<and> hd (message @ payload) = TLS_CLIENT_HELLO_TYPE \<and>
        len = be_nat (slice (message @ payload) 1 4) \<and> len \<le> MAX_CLIENT_HELLO_SIZE"
    for header payload v1 v2 ml' s2
    unfolding hello_inv_def prod.case
    using record_bytes [OF h] rs start r l b h(3)
    by (auto simp: wf_records_def intro!: exI [of _ "rs @ [((v1, v2), payload)]"])
  have keep: "4 \<le> length (message @ payload) \<and> hd (message @ payload) = TLS_CLIENT_HELLO_TYPE \<and>
        len = be_nat (slice (message @ payload) 1 4) \<and> len \<le> MAX_CLIENT_HELLO_SIZE" if "ml = Some len" for len payload
    using len [OF that] by (auto simp: slice_append_left) (metis hd_append2 le_zero_eq list.size(3) zero_neq_numeral)
  show "wp (case v of (raw, message, message_length) \<Rightarrow>
       if hello_complete (raw, message, message_length) then ret (Inr (raw, message, message_length))
       else bindM (read_exactly net TLS_RECORD_HEADER_SIZE) (\<lambda>header.
            bindM (check_record_header net header) (\<lambda>record_length.
            bindM (read_exactly net record_length) (\<lambda>payload.
            bindM (check_message net message_length (message @ payload)) (\<lambda>message_length'.
            ret (Inl (raw @ header @ payload, message @ payload, message_length'))))))) ?Q (\<lambda>_ _. True) s1"
  proof (cases "hello_complete v")
    case True
    with inv show ?thesis by (simp add: v wp_return)
  next
    case False
    show ?thesis unfolding v prod.case if_not_P [OF False [unfolded v]] wp_simps sum.case TLS_RECORD_HEADER_SIZE_def
      by (intro read_exactly_wp [OF stream] check_record_header_wp check_message_wp TrueI)
        (auto simp del: append_assoc dest: keep intro!: next_inv)
  qed
qed simp


lemma enc_messageD:
  assumes "4 \<le> length m" "hd m = TLS_CLIENT_HELLO_TYPE" "be_nat (slice m 1 4) + 4 \<le> length m"
  shows "m = enc_message (slice m 4 (4 + be_nat (slice m 1 4))) @ drop (4 + be_nat (slice m 1 4)) m"
proof -
  let ?n = "be_nat (slice m 1 4)"
  obtain a b c d r where m: "m = a # b # c # d # r"
    using assms(1) by (auto simp: numeral_eq_Suc dest!: Suc_le_length_iff [THEN iffD1])
  have "length (slice m 1 4) = 3" by (simp add: slice_def m)
  then have "slice m 1 4 = be_bytes 3 ?n" by (metis be_bytes_be_nat)
  moreover have "length (slice m 4 (4 + ?n)) = ?n" using assms(3) by (simp add: slice_def)
  ultimately have "enc_message (slice m 4 (4 + ?n)) = hd m # slice m 1 4 @ slice m 4 (4 + ?n)"
    using assms(2) by (simp add: enc_message_def)
  moreover have "m = hd m # slice m 1 4 @ drop 4 m" by (simp add: slice_def m)
  moreover have "drop 4 m = slice m 4 (4 + ?n) @ drop (4 + ?n) m"
    using append_take_drop_id [of ?n "drop 4 m"] by (simp add: slice_def add.commute)
  ultimately show ?thesis by (metis append_Cons append_assoc)
qed

section \<open>Whatever the fragmentation\<close>

definition hello_length :: "nat \<Rightarrow> bytes \<Rightarrow> nat option" where
  "hello_length len message = (if length message < 4 then None else Some len)"

lemma pair_list: "length xs = 2 \<Longrightarrow> \<exists>a b. xs = [a, b]"
  by (auto simp: numeral_eq_Suc length_Suc_conv)

lemma check_record_header_complete:
  assumes "0 < length p" "length p \<le> MAX_TLS_RECORD_SIZE"
  shows "check_record_header net ([TLS_HANDSHAKE_CONTENT_TYPE, v1, v2] @ be_bytes 2 (length p)) s = (Inr (length p), s)"
proof -
  obtain h l where hl: "be_bytes 2 (length p) = [h, l]"
    using pair_list [OF length_be_bytes] by blast
  have "be_nat [h, l] = length p" using be_nat_be_bytes [of "length p" 2] assms(2) hl by (simp add: MAX_TLS_RECORD_SIZE_def)
  with assms show ?thesis by (simp add: check_record_header_def hl ret_def)
qed

lemma check_message_complete:
  assumes "m @ rem = enc_message body @ extra" "length body \<le> MAX_CLIENT_HELLO_SIZE"
    and "ml = hello_length (length body) m0" "length m0 \<le> length m"
  shows "check_message net ml m s = (Inr (hello_length (length body) m), s)"
proof (cases "4 \<le> length m")
  case True
  have "take 4 m = take 4 (m @ rem)" using True by simp
  also have "\<dots> = TLS_CLIENT_HELLO_TYPE # be_bytes 3 (length body)" unfolding assms(1) by (simp add: enc_message_def)
  finally have t: "take 4 m = TLS_CLIENT_HELLO_TYPE # be_bytes 3 (length body)" .
  have "hd m = hd (take 4 m)" "slice m 1 4 = tl (take 4 m)" by (simp_all add: slice_def drop_Suc tl_take)
  with t have "hd m = TLS_CLIENT_HELLO_TYPE" "slice m 1 4 = be_bytes 3 (length body)" by simp_all
  then show ?thesis using True assms(2-4)
    by (auto simp: check_message_def hello_length_def ret_def be_nat_be_bytes MAX_CLIENT_HELLO_SIZE_def)
qed (use assms in \<open>auto simp: check_message_def hello_length_def ret_def\<close>)


abbreviation record_turn :: "'e net_api \<Rightarrow> bytes \<times> bytes \<times> nat option \<Rightarrow> ('e tls, (bytes \<times> bytes \<times> nat option) + (bytes \<times> bytes \<times> nat option)) meth" where
  "record_turn net \<equiv> \<lambda>(raw, message, message_length).
       if hello_complete (raw, message, message_length) then ret (Inr (raw, message, message_length))
       else bindM (read_exactly net TLS_RECORD_HEADER_SIZE) (\<lambda>header.
            bindM (check_record_header net header) (\<lambda>record_length.
            bindM (read_exactly net record_length) (\<lambda>payload.
            bindM (check_message net message_length (message @ payload)) (\<lambda>message_length'.
            ret (Inl (raw @ header @ payload, message @ payload, message_length'))))))"

lemma record_turn_complete:
  assumes stream: "exact_stream net rest" and rest: "rest (tl_env s) = enc_record ((v1, v2), p) @ after"
    and p: "0 < length p" "length p \<le> MAX_TLS_RECORD_SIZE"
    and m: "(m @ p) @ rem = enc_message body @ extra" "length body \<le> MAX_CLIENT_HELLO_SIZE" "length m < length body + 4"
  shows "\<exists>e. record_turn net (raw, m, hello_length (length body) m) s =
           (Inr (Inl (raw @ enc_record ((v1, v2), p), m @ p, hello_length (length body) (m @ p))), s\<lparr>tl_env := e\<rparr>) \<and> rest e = after"
proof -
  let ?h = "[TLS_HANDSHAKE_CONTENT_TYPE, v1, v2] @ be_bytes 2 (length p)"
  have "rest (tl_env s) = ?h @ (p @ after)" using rest by (simp add: enc_record_def)
  from read_exactly_complete [OF stream this, of 5]
  obtain e1 where 1: "read_exactly net 5 s = (Inr ?h, s\<lparr>tl_env := e1\<rparr>)" "rest e1 = p @ after" by auto
  from read_exactly_complete [OF stream, of "s\<lparr>tl_env := e1\<rparr>" p after "length p"] 1(2)
  obtain e2 where 2: "read_exactly net (length p) (s\<lparr>tl_env := e1\<rparr>) = (Inr p, s\<lparr>tl_env := e2\<rparr>)" "rest e2 = after" by auto
  have n: "\<not> hello_complete (raw, m, hello_length (length body) m)" using m(3) by (simp add: hello_complete_def hello_length_def)
  have 3: "check_message net (hello_length (length body) m) (m @ p) s' = (Inr (hello_length (length body) (m @ p)), s')" for s' :: "'a tls"
    by (rule check_message_complete [OF m(1,2) refl]) simp
  have "record_turn net (raw, m, hello_length (length body) m) s =
      (Inr (Inl (raw @ ?h @ p, m @ p, hello_length (length body) (m @ p))), s\<lparr>tl_env := e2\<rparr>)"
    by (simp only: prod.case if_not_P [OF n] bindM_def TLS_RECORD_HEADER_SIZE_def 1(1) sum.case
        check_record_header_complete [OF p] 2(1) 3 ret_def)
  moreover have "enc_record ((v1, v2), p) = ?h @ p" by (simp add: enc_record_def)
  ultimately show ?thesis using 2(2) by metis
qed

lemma read_records_complete:
  assumes stream: "exact_stream net rest" and len: "length body \<le> MAX_CLIENT_HELLO_SIZE"
  shows "rest (tl_env s) = enc_records rs @ after \<Longrightarrow> wf_records rs \<Longrightarrow> m @ payloads rs = enc_message body @ extra \<Longrightarrow>
     (rs \<noteq> [] \<Longrightarrow> length (m @ payloads (butlast rs)) < length body + 4) \<Longrightarrow>
     \<exists>e. loopM (record_turn net) (raw, m, hello_length (length body) m) s =
         (Inr (raw @ enc_records rs, m @ payloads rs, Some (length body)), s\<lparr>tl_env := e\<rparr>) \<and> rest e = after"
proof (induction rs arbitrary: raw m s)
  case Nil
  have "length m = length (enc_message body @ extra)" using Nil(3) by simp
  then have "4 + length body \<le> length m" by (simp add: enc_message_def)
  then have "record_turn net (raw, m, hello_length (length body) m) s = (Inr (Inr (raw, m, Some (length body))), s)"
    by (simp add: hello_complete_def hello_length_def ret_def)
  from loopM_unfold(2) [of "record_turn net", OF this] Nil(1) show ?case by (auto intro!: exI [of _ "tl_env s"])
next
  case (Cons r rs)
  obtain v1 v2 p where r: "r = ((v1, v2), p)" by (cases r) auto
  have wf: "wf_records rs" "0 < length p" "length p \<le> MAX_TLS_RECORD_SIZE" using Cons.prems(2) by (auto simp: wf_records_def r)
  have all: "(m @ p) @ payloads rs = enc_message body @ extra" using Cons.prems(3) by (simp add: r)
  have short: "length m < length body + 4" using Cons.prems(4) by simp
  have "rest (tl_env s) = enc_record ((v1, v2), p) @ (enc_records rs @ after)" using Cons.prems(1) by (simp add: r)
  from record_turn_complete [OF stream this wf(2,3) all len short]
  obtain e where e: "record_turn net (raw, m, hello_length (length body) m) s =
           (Inr (Inl (raw @ enc_record r, m @ p, hello_length (length body) (m @ p))), s\<lparr>tl_env := e\<rparr>)" "rest e = enc_records rs @ after"
    unfolding r by blast
  have later: "length ((m @ p) @ payloads (butlast rs)) < length body + 4" if "rs \<noteq> []"
    using Cons.prems(4) that by (simp add: r)
  obtain e' where "loopM (record_turn net) (raw @ enc_record r, m @ p, hello_length (length body) (m @ p)) (s\<lparr>tl_env := e\<rparr>) =
         (Inr ((raw @ enc_record r) @ enc_records rs, (m @ p) @ payloads rs, Some (length body)), s\<lparr>tl_env := e'\<rparr>)" "rest e' = after"
    using Cons.IH [of "s\<lparr>tl_env := e\<rparr>" "m @ p" "raw @ enc_record r"] e(2) wf(1) all later by auto
  with loopM_turn [of "record_turn net", OF e(1)] show ?case by (auto simp: r)
qed


section \<open>Alerts\<close>

text \<open>What is written to the stream is kept in \<open>sent\<close>; a write that raises has written nothing.\<close>

definition logs_writes :: "'e net_api \<Rightarrow> ('e \<Rightarrow> bytes) \<Rightarrow> bool" where
  "logs_writes net sent \<longleftrightarrow> (\<forall>n e r e'. net_readexactly net n e = (r, e') \<longrightarrow> sent e' = sent e) \<and>
     (\<forall>e r e'. net_drain net e = (r, e') \<longrightarrow> sent e' = sent e) \<and>
     (\<forall>d e r e'. net_write net d e = (r, e') \<longrightarrow> sent e' = (if isl r then sent e else sent e @ d))"

text \<open>The operations of the stream that the reader uses return or raise.\<close>

definition answers :: "'e net_api \<Rightarrow> bool" where
  "answers net \<longleftrightarrow> (\<forall>n. ends (net_readexactly net n)) \<and> (\<forall>d. ends (net_write net d)) \<and> ends (net_drain net)"

definition fatal_alert :: "byte \<Rightarrow> bytes" where
  "fatal_alert description = [0x15, 3, 3, 0, 2, 2, description]"

definition quiet :: "('e \<Rightarrow> bytes) \<Rightarrow> 'e tls \<Rightarrow> 'e tls \<Rightarrow> bool" where
  "quiet sent s s' \<longleftrightarrow> sent (tl_env s') = sent (tl_env s) \<and> tl_fatal_alert_sent s' = tl_fatal_alert_sent s"

definition alerted :: "('e \<Rightarrow> bytes) \<Rightarrow> byte set \<Rightarrow> 'e tls \<Rightarrow> exn \<Rightarrow> 'e tls \<Rightarrow> bool" where
  "alerted sent ds s x s' \<longleftrightarrow> x \<noteq> Diverges \<and> (\<exists>w. sent (tl_env s') = sent (tl_env s) @ w \<and>
     (w = [] \<or> \<not> tl_fatal_alert_sent s \<and> (\<exists>d \<in> ds. w = fatal_alert d)))"

lemma answersD: "answers net \<Longrightarrow> net_readexactly net n e \<noteq> (Inl Diverges, e')" "answers net \<Longrightarrow> net_write net d e \<noteq> (Inl Diverges, e')"
  "answers net \<Longrightarrow> net_drain net e \<noteq> (Inl Diverges, e')"
  by (auto simp: answers_def ends_def wp_def split: prod.splits sum.splits)

lemma alert_wp:
  assumes "logs_writes net sent" "answers net" "quiet sent s0 s" "d \<in> ds" "x \<noteq> Diverges"
  shows "wp (bindM (send_plaintext_alert net d) (\<lambda>_. raise x)) Q (alerted sent ds s0) s"
  unfolding send_plaintext_alert_def wp_simps
  using assms(1,3-5) answersD(2,3) [OF assms(2)] unfolding logs_writes_def quiet_def alerted_def
  by (auto simp: wp_def fatal_alert_def split: prod.splits sum.splits)

lemma quiet_alerted: "quiet sent s0 s \<Longrightarrow> x \<noteq> Diverges \<Longrightarrow> alerted sent ds s0 x s"
  by (simp add: quiet_def alerted_def)

lemma read_exactly_quiet:
  assumes "exact_stream net rest" "logs_writes net sent" "answers net" "quiet sent s0 s"
    and "\<And>d s'. length d = n \<Longrightarrow> rest (tl_env s) = d @ rest (tl_env s') \<Longrightarrow> quiet sent s0 s' \<Longrightarrow> Q d s'"
  shows "wp (read_exactly net n) Q (alerted sent ds s0) s"
  unfolding read_exactly_def wp_simps
  using exact_streamD [OF assms(1)] assms(2,4,5) answersD(1) [OF assms(3)] unfolding logs_writes_def quiet_def alerted_def
  by (auto simp: wp_def split: sum.splits prod.splits)

lemma check_record_header_quiet:
  assumes "logs_writes net sent" "answers net" "quiet sent s0 s" "length header = 5"
    and "\<And>n. 0 < n \<Longrightarrow> Q n s"
  shows "wp (check_record_header net header) Q (alerted sent {10, 22, 50} s0) s"
proof -
  obtain a b c d e where h: "header = [a, b, c, d, e]"
    using assms(4) by (auto simp: numeral_eq_Suc length_Suc_conv)
  show ?thesis using assms(1-3,5) unfolding h check_record_header_def
    by (auto simp: Let_def wp_return wp_bind quiet_alerted intro!: alert_wp [unfolded wp_bind])
qed

lemma check_message_quiet:
  assumes "logs_writes net sent" "answers net" "quiet sent s0 s" "\<And>ml'. Q ml' s"
  shows "wp (check_message net ml message) Q (alerted sent {10, 22, 50} s0) s"
  using assms unfolding check_message_def by (auto simp: Let_def wp_return quiet_alerted intro!: alert_wp)

lemma read_records_quiet:
  assumes "exact_stream net rest" "logs_writes net sent" "answers net"
  shows "wp (read_records net) (\<lambda>_. quiet sent s) (alerted sent {10, 22, 50} s) s"
  unfolding read_records_def
proof (rule wp_loop [where I = "\<lambda>_. quiet sent s" and m = "\<lambda>_ s. length (rest (tl_env s))"])
  fix v :: "bytes \<times> bytes \<times> nat option" and s1 assume q: "quiet sent s s1"
  obtain raw message ml where v: "v = (raw, message, ml)" by (cases v) auto
  show "wp (record_turn net v) (\<lambda>r s'. case r of Inl x1 \<Rightarrow> quiet sent s s' \<and> length (rest (tl_env s')) < length (rest (tl_env s1))
      | Inr _ \<Rightarrow> quiet sent s s') (alerted sent {10, 22, 50} s) s1"
  proof (cases "hello_complete v")
    case True
    with q show ?thesis by (simp add: v wp_return)
  next
    case False
    show ?thesis unfolding v prod.case if_not_P [OF False [unfolded v]] wp_simps sum.case TLS_RECORD_HEADER_SIZE_def
      using q by (auto intro!: read_exactly_quiet [OF assms] check_record_header_quiet [OF assms(2,3)] check_message_quiet [OF assms(2,3)])
  qed
qed (simp add: quiet_def)

section \<open>Properties\<close>

text \<open>A stream with a list of bytes to come and a list of bytes written.\<close>

definition byte_net :: "(bytes \<times> bytes) net_api" where
  "byte_net =
     \<lparr>net_read = (\<lambda>n (r, w). (Inr (take n r), (drop n r, w))),
      net_readexactly = (\<lambda>n (r, w). if n \<le> length r then (Inr (take n r), (drop n r, w)) else (Inl IncompleteReadError, ([], w))),
      net_write = (\<lambda>d (r, w). (Inr (), (r, w @ d))), net_drain = (\<lambda>e. (Inr (), e)), net_can_write_eof = (\<lambda>_. True),
      net_write_eof = (\<lambda>e. (Inr (), e)), net_is_closing = (\<lambda>_. False), net_close = (\<lambda>e. (Inr (), e)),
      net_wait_closed = (\<lambda>e. (Inr (), e)), net_abort = (\<lambda>e. (Inr (), e)), bio_write = (\<lambda>_ e. (Inr (), e)),
      bio_pending = (\<lambda>_. False), bio_read = (\<lambda>e. (Inr [], e)), ssl_do_handshake = (\<lambda>e. (Inr (), e)),
      ssl_read = (\<lambda>n (r, w). (if r = [] then Inl SSLWantReadError else Inr (take n r), (drop n r, w))),
      ssl_write = (\<lambda>d (r, w). (Inr (), (r, w @ d))), ssl_unwrap = (\<lambda>e. (Inr (), e)),
      ssl_version = (\<lambda>_. Some ''TLSv1.3''), ssl_alpn = (\<lambda>_. Some ''h2'')\<rparr>"

definition tls_of :: "'e \<Rightarrow> 'e tls" where
  "tls_of e = \<lparr>tl_env = e, tl_eof = False, tl_shutdown_sent = False, tl_fatal_alert_sent = False\<rparr>"

lemma byte_net_laws: "exact_stream byte_net fst" "logs_writes byte_net snd" "answers byte_net"
  by (auto simp: exact_stream_def logs_writes_def answers_def ends_def wp_def byte_net_def)

text \<open>The ClientHello of the examples, in two records that split its header.\<close>

definition sample_records :: "((byte \<times> byte) \<times> bytes) list" where
  "sample_records = [((3, 1), take 2 (enc_message (enc_hello sample_hello))), ((3, 3), drop 2 (enc_message (enc_hello sample_hello)))]"

lemma sample_records_ok:
  "wf_records sample_records" "payloads sample_records = enc_message (enc_hello sample_hello) @ []"
  "length (enc_hello sample_hello) \<le> MAX_CLIENT_HELLO_SIZE"
  "length (payloads (butlast sample_records)) < length (enc_hello sample_hello) + 4"
  "parses parse_client_hello (enc_hello sample_hello) = Inr sample_hello"
proof -
  have n: "length (enc_hello sample_hello) = 56"
    by (simp add: enc_hello_def enc_hello_fields_def sample_hello_def enc_ciphers_def enc_extensions_def enc_extension_def vec_def)
  have m: "length (enc_message (enc_hello sample_hello)) = 60" by (simp add: enc_message_def n)
  show "wf_records sample_records" using m by (auto simp: wf_records_def sample_records_def MAX_TLS_RECORD_SIZE_def)
  show "payloads sample_records = enc_message (enc_hello sample_hello) @ []" by (simp add: sample_records_def)
  show "length (enc_hello sample_hello) \<le> MAX_CLIENT_HELLO_SIZE" by (simp add: n MAX_CLIENT_HELLO_SIZE_def)
  show "length (payloads (butlast sample_records)) < length (enc_hello sample_hello) + 4" by (simp add: sample_records_def m)
  have "wf_hello sample_hello"
    by (simp add: wf_hello_def sample_hello_def wf_extension_def enc_extensions_def enc_extension_def)
  then show "parses parse_client_hello (enc_hello sample_hello) = Inr sample_hello"
    using parses_decodes [OF parse_client_hello_decodes, of sample_hello "[]"] by simp
qed

lemma read_client_hello_complete:
  assumes "exact_stream net rest" and "rest (tl_env s) = enc_records rs @ after" and "wf_records rs"
    and "payloads rs = enc_message body @ extra" and "length body \<le> MAX_CLIENT_HELLO_SIZE"
    and "length (payloads (butlast rs)) < length body + 4" and "parses parse_client_hello body = Inr hello"
  shows "\<exists>e. read_client_hello net s = (Inr (enc_records rs, hello), s\<lparr>tl_env := e\<rparr>) \<and> rest e = after"
proof -
  obtain e where r: "read_records net s = (Inr (enc_records rs, payloads rs, Some (length body)), s\<lparr>tl_env := e\<rparr>)" "rest e = after"
    using read_records_complete [OF assms(1,5,2,3), of "[]" extra "[]"] assms(4,6)
    by (auto simp: read_records_def hello_length_def)
  have "slice (payloads rs) 4 (4 + length body) = body" unfolding assms(4) by (simp add: slice_def enc_message_def)
  with r assms(7) show ?thesis by (intro exI [of _ e]) (simp add: read_client_hello_def bindM_def Let_def ret_def)
qed

lemma read_client_hello_sound:
  assumes "exact_stream net rest" and "read_client_hello net s = (Inr (raw, hello), s')"
  shows "rest (tl_env s) = raw @ rest (tl_env s') \<and>
    (\<exists>rs body extra. wf_records rs \<and> raw = enc_records rs \<and> payloads rs = enc_message body @ extra \<and>
       length body \<le> MAX_CLIENT_HELLO_SIZE \<and> parses parse_client_hello body = Inr hello)"
proof -
  obtain message ml where r: "read_records net s = (Inr (raw, message, ml), s')"
    and h: "parses parse_client_hello (slice message 4 (4 + the ml)) = Inr hello"
    using assms(2) unfolding read_client_hello_def bindM_def
    by (auto simp: Let_def ret_def raise_def split: prod.splits sum.splits if_splits)
  have "hello_inv (rest (tl_env s)) rest (raw, message, ml) s' \<and> hello_complete (raw, message, ml)"
    using wpD(1) [OF read_records_sound [OF assms(1)] r] .
  then obtain rs len where start: "rest (tl_env s) = raw @ rest (tl_env s')"
    and rs: "wf_records rs" "raw = enc_records rs" "message = payloads rs" and ml: "ml = Some len"
    and m: "4 \<le> length message" "hd message = TLS_CLIENT_HELLO_TYPE" "len = be_nat (slice message 1 4)"
      "len \<le> MAX_CLIENT_HELLO_SIZE" "len + 4 \<le> length message"
    unfolding hello_inv_def hello_complete_def by (auto split: option.splits)
  have "length (slice message 4 (4 + len)) = len" using m(5) by (simp add: slice_def)
  with start rs h ml m(4) enc_messageD [OF m(1,2)] m(3,5) show ?thesis by (metis option.sel)
qed

text \<open>C7. Whatever \<open>_read_client_hello\<close> accepts: the bytes it keeps for OpenSSL are exactly those it took
  from the stream, they are non-empty handshake records of legal size, and what the records carry starts
  with a ClientHello message of legal size whose body is the one that was parsed.\<close>

theorem client_hello_sound:
  assumes "exact_stream net rest" and "read_client_hello net s = (Inr (raw, hello), s')"
  shows "rest (tl_env s) = raw @ rest (tl_env s') \<and>
    (\<exists>rs body extra. wf_records rs \<and> raw = enc_records rs \<and> payloads rs = enc_message body @ extra \<and>
       length body \<le> MAX_CLIENT_HELLO_SIZE \<and> parses parse_client_hello body = Inr hello)"
  by (rule read_client_hello_sound [OF assms])

theorem client_hello_sound_witness:
  "\<exists>rs body extra s'. read_client_hello byte_net (tls_of (enc_records sample_records @ [1, 2], [])) = (Inr (enc_records sample_records, sample_hello), s') \<and>
     fst (tl_env s') = [1, 2] \<and> enc_records sample_records = enc_records rs \<and> payloads rs = enc_message body @ extra \<and>
     parses parse_client_hello body = Inr sample_hello"
proof -
  obtain e where r: "read_client_hello byte_net (tls_of (enc_records sample_records @ [1, 2], [])) =
      (Inr (enc_records sample_records, sample_hello), (tls_of (enc_records sample_records @ [1, 2], []))\<lparr>tl_env := e\<rparr>)" "fst e = [1, 2]"
    using read_client_hello_complete [OF byte_net_laws(1) _ sample_records_ok, of "tls_of (enc_records sample_records @ [1, 2], [])" "[1, 2]"]
    by (auto simp: tls_of_def)
  from client_hello_sound [OF byte_net_laws(1) r(1)] r show ?thesis by fastforce
qed

text \<open>C12. A ClientHello is read whatever records it is cut into: from the first byte of the records to the
  last, and not one byte more. Bytes that follow the message in its last record are kept with it.\<close>

theorem client_hello_any_fragmentation:
  assumes "exact_stream net rest" and "rest (tl_env s) = enc_records rs @ after" and "wf_records rs"
    and "payloads rs = enc_message body @ extra" and "length body \<le> MAX_CLIENT_HELLO_SIZE"
    and "length (payloads (butlast rs)) < length body + 4" and "parses parse_client_hello body = Inr hello"
  shows "\<exists>e. read_client_hello net s = (Inr (enc_records rs, hello), s\<lparr>tl_env := e\<rparr>) \<and> rest e = after"
  by (rule read_client_hello_complete [OF assms])

theorem client_hello_any_fragmentation_witness:
  "\<exists>e. read_client_hello byte_net (tls_of (enc_records sample_records @ [1, 2], [])) =
      (Inr (enc_records sample_records, sample_hello), (tls_of (enc_records sample_records @ [1, 2], []))\<lparr>tl_env := e\<rparr>) \<and> fst e = [1, 2]"
  by (rule client_hello_any_fragmentation [OF byte_net_laws(1) _ sample_records_ok]) (simp add: tls_of_def)



end
