(* ===== verification/Http2_Session_Laws.thy ===== *)
theory Http2_Session_Laws
  imports Http2_Session
begin

text \<open>
  Laws of the session's methods. The operations of h2 and of the transport may do anything to their
  own states; \<open>env_keeps\<close> names what they are known to keep.
\<close>

section \<open>What h2 and the transport keep\<close>

text \<open>Every operation but \<open>send_data\<close> of h2 and \<open>read\<close> of the transport keeps \<open>J\<close>.\<close>

definition env_keeps :: "'h h2_api \<Rightarrow> 't transport \<Rightarrow> ('h \<Rightarrow> 't \<Rightarrow> bool) \<Rightarrow> bool" where
  "env_keeps api tr J \<longleftrightarrow>
     (\<forall>t. meth_keeps (\<lambda>h. J h t) (h2_initiate_connection api) \<and>
        (\<forall>d. meth_keeps (\<lambda>h. J h t) (h2_receive_data api d)) \<and>
        (\<forall>h. J h t \<longrightarrow> J (snd (h2_data_to_send api h)) t) \<and>
        (\<forall>c l. meth_keeps (\<lambda>h. J h t) (h2_close_connection api c l)) \<and>
        (\<forall>i hs e. meth_keeps (\<lambda>h. J h t) (h2_send_headers api i hs e)) \<and>
        (\<forall>i c. meth_keeps (\<lambda>h. J h t) (h2_reset_stream api i c)) \<and>
        (\<forall>n i. meth_keeps (\<lambda>h. J h t) (h2_acknowledge api n i)) \<and>
        (\<forall>i. meth_keeps (\<lambda>h. J h t) (h2_flow_window api i)) \<and>
        (\<forall>h. J h t \<longrightarrow> J (snd (h2_open_inbound api h)) t)) \<and>
     (\<forall>h d. meth_keeps (J h) (tr_write tr d))"

lemma env_keeps_True: "env_keeps api tr (\<lambda>_ _. True)"
  by (simp add: env_keeps_def meth_keeps_def)

definition held :: "('h \<Rightarrow> 't \<Rightarrow> bool) \<Rightarrow> ('h, 't) session \<Rightarrow> bool" where
  "held J s \<longleftrightarrow> J (h2_of s) (se_transport s)"

abbreviation touch :: "'h adapter \<Rightarrow> 't \<Rightarrow> bool \<Rightarrow> ('h, 't) session \<Rightarrow> ('h, 't) session" where
  "touch a t c s \<equiv> s\<lparr>se_connection := a, se_transport := t, se_closed := c\<rparr>"

lemma held_update [simp]:
  "held J (s\<lparr>se_connection := a\<rparr>) = J (ad_h2 a) (se_transport s)"
  "held J (s\<lparr>se_transport := t\<rparr>) = J (h2_of s) t"
  "held J (s\<lparr>se_closed := c\<rparr>) = held J s" "held J (s\<lparr>se_cancelled := c\<rparr>) = held J s"
  "held J (s\<lparr>se_capture := k\<rparr>) = held J s" "held J (s\<lparr>se_buffer := b\<rparr>) = held J s"
  "held J (s\<lparr>se_capture_bytes := n\<rparr>) = held J s" "held J (s\<lparr>se_capture_entries := n\<rparr>) = held J s"
  "held J (s\<lparr>se_first_frame := c\<rparr>) = held J s" "held J (s\<lparr>se_continuation_stream := i\<rparr>) = held J s"
  "held J (s\<lparr>se_header_block_bytes := n\<rparr>) = held J s" "held J (s\<lparr>se_prioritized_idle_streams := p\<rparr>) = held J s"
  "held J (s\<lparr>se_request_ready := c\<rparr>) = held J s" "held J (s\<lparr>se_request_bytes := n\<rparr>) = held J s"
  "held J (s\<lparr>se_expected_length := l\<rparr>) = held J s" "held J (s\<lparr>se_initialized := c\<rparr>) = held J s"
  by (simp_all add: held_def)

lemma keeps_on_h2: "meth_keeps (\<lambda>h. J h t) m \<Longrightarrow> meth_keeps (\<lambda>a. J (ad_h2 a) t) (on_h2 m)"
  by (auto simp: meth_keeps_def on_h2_def split: prod.splits)

lemma keeps_receive_data: "env_keeps api tr J \<Longrightarrow> meth_keeps (\<lambda>a. J (ad_h2 a) t) (receive_data api d)"
  unfolding receive_data_def
  by (rule keeps_bind, rule keeps_on_h2) (auto simp: env_keeps_def meth_keeps_def ret_def)

lemma keeps_data_to_send: "env_keeps api tr J \<Longrightarrow> meth_keeps (\<lambda>a. J (ad_h2 a) t) (data_to_send api)"
  by (auto simp: env_keeps_def meth_keeps_def data_to_send_def split: prod.splits) (metis snd_conv)

lemma keeps_receive_settings: "env_keeps api tr J \<Longrightarrow> meth_keeps (\<lambda>a. J (ad_h2 a) t) (receive_settings api es)"
  by (auto simp: receive_settings_def intro!: keeps_bind keeps_simple keeps_receive_data split: sum.split)

lemma keeps_replay_settings: "env_keeps api tr J \<Longrightarrow> meth_keeps (\<lambda>a. J (ad_h2 a) t) (replay_settings api es)"
  by (induction es rule: induct_list012)
    (auto intro!: keeps_bind keeps_simple keeps_receive_settings keeps_data_to_send)

lemma keeps_apply_settings:
  assumes "env_keeps api tr J"
  shows "meth_keeps (\<lambda>a. J (ad_h2 a) t) (apply_settings api es)"
  unfolding meth_keeps_def
proof (intro allI impI)
  fix a :: "'a adapter" assume a: "J (ad_h2 a) t"
  obtain w n where w: "working_settings (h2_setting_codes api) (h2_header_table_size api (ad_h2 a)) es = (w, n)" by fastforce
  have "meth_keeps (\<lambda>a. J (ad_h2 a) t) (bindM (on_h2 (h2_close_connection api ENHANCE_YOUR_CALM None))
             (\<lambda>_. raise (ProtocolError ''HTTP/2 header table update limit exceeded'' ENHANCE_YOUR_CALM) :: ('a adapter, unit) meth))"
    using assms by (intro keeps_bind keeps_simple keeps_on_h2) (simp add: env_keeps_def)
  then show "J (ad_h2 (snd (apply_settings api es a))) t"
    using a w keeps_receive_settings [OF assms, of t] keeps_replay_settings [OF assms, of t]
    by (simp add: apply_settings_def meth_keeps_def Let_def)
qed
section \<open>Operations that touch only the environment\<close>

text \<open>Sending, closing and failing change the connection, the transport and the \<open>_closed\<close> flag, which is
  only ever set.\<close>

definition touched :: "('h \<Rightarrow> 't \<Rightarrow> bool) \<Rightarrow> ('h, 't) session \<Rightarrow> ('h, 't) session \<Rightarrow> bool" where
  "touched J s s' \<longleftrightarrow> (\<exists>a t c. s' = touch a t c s \<and> (se_closed s \<longrightarrow> c) \<and> (held J s \<longrightarrow> held J s'))"

interpretation tch: step_relation "touched J" for J
proof
  show "touched J s s" for s :: "('a, 'b) session"
    unfolding touched_def by (rule exI [of _ "se_connection s"], rule exI [of _ "se_transport s"], rule exI [of _ "se_closed s"]) simp
  show "touched J a b \<Longrightarrow> touched J b c \<Longrightarrow> touched J a c" for a b c :: "('a, 'b) session"
    unfolding touched_def by (elim exE conjE) (rule exI, rule exI, rule exI, auto)
qed

lemma touchedI:
  "s' = touch a t c s \<Longrightarrow> (se_closed s \<Longrightarrow> c) \<Longrightarrow> (held J s \<Longrightarrow> held J s') \<Longrightarrow> touched J s s'"
  unfolding touched_def by blast

lemma touched_connection:
  fixes J :: "'a \<Rightarrow> 'b \<Rightarrow> bool"
  assumes "\<And>t. meth_keeps (\<lambda>a. J (ad_h2 a) t) m"
  shows "moves (touched J) (on_connection m)"
  unfolding moves_def
proof
  fix s :: "('a, 'b) session"
  obtain r a where r: "m (se_connection s) = (r, a)" by fastforce
  have "held J s \<Longrightarrow> J (ad_h2 a) (se_transport s)"
    using assms [of "se_transport s"] r by (auto simp: meth_keeps_def held_def)
  then show "touched J s (snd (on_connection m s))"
    by (intro touchedI [where a = a and t = "se_transport s" and c = "se_closed s"]) (simp_all add: on_connection_def r)
qed

lemma touched_h2: "(\<And>t. meth_keeps (\<lambda>h. J h t) m) \<Longrightarrow> moves (touched J) (on_connection (on_h2 m))"
  by (intro touched_connection keeps_on_h2)

lemma touched_write:
  fixes J :: "'a \<Rightarrow> 'b \<Rightarrow> bool"
  assumes "env_keeps api tr J"
  shows "moves (touched J) (on_transport (tr_write tr d))"
  unfolding moves_def
proof
  fix s :: "('a, 'b) session"
  obtain r t where r: "tr_write tr d (se_transport s) = (r, t)" by fastforce
  have "held J s \<Longrightarrow> J (h2_of s) t"
    using assms r by (auto simp: env_keeps_def meth_keeps_def held_def) (metis snd_conv)
  then show "touched J s (snd (on_transport (tr_write tr d) s))"
    by (intro touchedI [where a = "se_connection s" and t = t and c = "se_closed s"]) (simp_all add: on_transport_def r)
qed

lemma touched_close_flag: "moves (touched J) (modifyM (\<lambda>s. s\<lparr>se_closed := True\<rparr>))"
  proof (rule tch.update)
  show "touched J s (s\<lparr>se_closed := True\<rparr>)" for s :: "('a, 'b) session"
    by (rule touchedI [where a = "se_connection s" and t = "se_transport s" and c = True]) simp_all
qed

lemma touched_flush: "env_keeps api tr J \<Longrightarrow> moves (touched J) (flush api tr)"
  unfolding flush_def by (intro tch.intros touched_connection keeps_data_to_send touched_write)

lemma touched_close: "env_keeps api tr J \<Longrightarrow> moves (touched J) (close_session api tr c)"
  unfolding close_session_def
  by (intro tch.bind tch.gets tch.prod tch.intros touched_flush touched_h2 touched_close_flag) (simp_all add: env_keeps_def)

lemma touched_fail: "env_keeps api tr J \<Longrightarrow> moves (touched J) (fail api tr m c)"
  unfolding fail_def by (intro tch.intros touched_close)

lemma touched_check_priority_limit: "env_keeps api tr J \<Longrightarrow> moves (touched J) (check_priority_limit api tr)"
  unfolding check_priority_limit_def
  by (intro tch.intros touched_fail touched_h2) (simp_all add: env_keeps_def meth_keeps_def split_beta)

lemma touched_validate_event: "env_keeps api tr J \<Longrightarrow> moves (touched J) (validate_event api tr hs b)"
  unfolding validate_event_def by (intro tch.intros touched_fail)

lemma touched_check_cancelled: "moves (touched J) check_cancelled"
  unfolding check_cancelled_def by (intro tch.intros)

lemma touched_queue_goaway: "env_keeps api tr J \<Longrightarrow> moves (touched J) (queue_goaway api tr e)"
  unfolding queue_goaway_def
  by (intro tch.intros touched_connection keeps_data_to_send touched_write touched_close_flag)

text \<open>As rules for \<open>wp\<close>. Failing never returns; a validated event returns only if it is valid.\<close>

lemma wp_touch:
  assumes "moves (touched J) m"
    and "\<And>x a t c. (se_closed s \<Longrightarrow> c) \<Longrightarrow> (held J s \<Longrightarrow> J (ad_h2 a) t) \<Longrightarrow> Q x (touch a t c s)"
    and "\<And>e a t c. (se_closed s \<Longrightarrow> c) \<Longrightarrow> (held J s \<Longrightarrow> J (ad_h2 a) t) \<Longrightarrow> E e (touch a t c s)"
  shows "wp m Q E s"
  using assms(1)
proof (rule tch.wp_moves)
  fix x e s' assume "touched J s s'"
  then obtain a t c where "s' = touch a t c s" "se_closed s \<Longrightarrow> c" "held J s \<Longrightarrow> J (ad_h2 a) t"
    unfolding touched_def by (auto simp: held_def)
  then show "Q x s'" "E e s'" using assms(2,3) by blast+
qed

lemma wp_fail:
  assumes "env_keeps api tr J"
    and "\<And>e a t c. (se_closed s \<Longrightarrow> c) \<Longrightarrow> (held J s \<Longrightarrow> J (ad_h2 a) t) \<Longrightarrow> E e (touch a t c s)"
  shows "wp (fail api tr m c) Q E s"
  unfolding fail_def wp_simps by (rule wp_touch [OF touched_close, OF assms(1)]) (blast intro: assms(2))+

lemma wp_validate_event:
  assumes "env_keeps api tr J"
    and "validate_fields (h2_validate api) hs b = Inr () \<Longrightarrow> Q () s"
    and "\<And>e a t c. (se_closed s \<Longrightarrow> c) \<Longrightarrow> (held J s \<Longrightarrow> J (ad_h2 a) t) \<Longrightarrow> E e (touch a t c s)"
  shows "wp (validate_event api tr hs b) Q E s"
proof -
  have "E e s" for e using assms(3) [of "se_closed s" "se_connection s" "se_transport s" e] by (simp add: held_def)
  then show ?thesis using assms(2) wp_fail [OF assms(1), of s E] assms(3)
    unfolding validate_event_def wp_simps by (auto split: sum.split)
qed

section \<open>The request\<close>

text \<open>What holds of the captured request whenever a method has returned: header fields and trailers are
  valid, the declared length is that of \<open>content-length\<close>, the limits of the body are respected, and a
  request that is ready by the end of its stream has at least the declared length.\<close>

definition request_ok :: "'h h2_api \<Rightarrow> http2_capture \<Rightarrow> bool \<Rightarrow> nat \<Rightarrow> nat option \<Rightarrow> bool" where
  "request_ok api cap ready received expected \<longleftrightarrow>
     (case (cap_stream_id cap, cap_headers cap) of
        (None, None) \<Rightarrow> \<not> ready \<and> expected = None \<and> received = 0 \<and> cap_trailers cap = []
      | (Some i, Some hs) \<Rightarrow>
          validate_fields (h2_validate api) hs False = Inr () \<and>
          expected = map_option bounded_content_length (map_of (dict_of hs) (asc ''content-length'')) \<and>
          (ready \<and> \<not> cap_expectation_failed cap \<and> map_of (dict_of hs) (asc '':method'') \<noteq> Some (asc ''CONNECT'') \<longrightarrow>
             (\<forall>n. expected = Some n \<longrightarrow> n \<le> received)) \<and>
          (cap_trailers cap = [] \<or> validate_fields (h2_validate api) (cap_trailers cap) True = Inr ())
      | _ \<Rightarrow> False) \<and>
     received \<le> MAX_REQUEST_BODY \<and> (\<forall>n. expected = Some n \<longrightarrow> n \<le> MAX_REQUEST_BODY)"

abbreviation request_inv :: "'h h2_api \<Rightarrow> ('h, 't) session \<Rightarrow> bool" where
  "request_inv api s \<equiv> request_ok api (se_capture s) (se_request_ready s) (se_request_bytes s) (se_expected_length s)"

definition session_step :: "('h \<Rightarrow> 't \<Rightarrow> bool) \<Rightarrow> ('h, 't) session \<Rightarrow> ('h, 't) session \<Rightarrow> bool" where
  "session_step J s s' \<longleftrightarrow>
     (held J s \<longrightarrow> held J s') \<and> se_buffer s' = se_buffer s \<and> se_capture_bytes s' = se_capture_bytes s \<and>
     se_capture_entries s' = se_capture_entries s \<and> cap_frames (se_capture s') = cap_frames (se_capture s) \<and>
     se_initialized s' = se_initialized s \<and> se_first_frame s' = se_first_frame s \<and>
     cap_initial_settings (se_capture s') = cap_initial_settings (se_capture s) \<and>
     (se_closed s \<longrightarrow> se_closed s') \<and> (se_cancelled s \<longrightarrow> se_cancelled s') \<and>
     (se_request_ready s \<longrightarrow> se_request_ready s') \<and> se_request_bytes s \<le> se_request_bytes s' \<and>
     (cap_stream_id (se_capture s) \<noteq> None \<longrightarrow> cap_stream_id (se_capture s') = cap_stream_id (se_capture s) \<and>
        cap_headers (se_capture s') = cap_headers (se_capture s))"

interpretation stp: step_relation "session_step J" for J
  by unfold_locales (auto simp: session_step_def)

lemma step_touched: "touched J s s' \<Longrightarrow> session_step J s s'"
  by (auto simp: touched_def session_step_def)

abbreviation steps :: "'h h2_api \<Rightarrow> ('h \<Rightarrow> 't \<Rightarrow> bool) \<Rightarrow> (('h, 't) session, 'a) meth \<Rightarrow> bool" where
  "steps api J m \<equiv> contract (session_step J) (request_inv api) m"

lemma keeps_h2:
  assumes "env_keeps api tr J"
  shows "meth_keeps (\<lambda>h. J h t) (h2_send_headers api i hs e)" "meth_keeps (\<lambda>h. J h t) (h2_reset_stream api i c)"
    "meth_keeps (\<lambda>h. J h t) (h2_acknowledge api n i)" "meth_keeps (\<lambda>h. J h t) (h2_initiate_connection api)"
    "meth_keeps (\<lambda>h. J h t) (h2_flow_window api i)"
  using assms by (simp_all add: env_keeps_def)

lemma session_step_touch:
  "(se_closed s \<Longrightarrow> c) \<Longrightarrow> (held J s \<Longrightarrow> J (ad_h2 a) t) \<Longrightarrow> session_step J s (touch a t c s)"
  by (auto simp: session_step_def)

lemma wp_declare_length:
  assumes k: "env_keeps api tr J"
    and "\<And>l. l = map_option bounded_content_length (map_of values (asc ''content-length'')) \<Longrightarrow>
      (\<And>n. l = Some n \<Longrightarrow> n \<le> MAX_REQUEST_BODY) \<Longrightarrow>
      Q () (s\<lparr>se_expected_length := if l = None then se_expected_length s else l\<rparr>)"
    and "\<And>e a t c l. (se_closed s \<Longrightarrow> c) \<Longrightarrow> (held J s \<Longrightarrow> J (ad_h2 a) t) \<Longrightarrow> E e (touch a t c (s\<lparr>se_expected_length := l\<rparr>))"
  shows "wp (declare_length api tr values) Q E s"
proof (cases "map_of values (asc ''content-length'')")
  case None
  with assms(2) [of None] show ?thesis by (simp add: declare_length_def wp_simps)
next
  case (Some v)
  let ?n = "bounded_content_length v"
  show ?thesis
  proof (cases "?n > MAX_REQUEST_BODY")
    case True
    with Some show ?thesis by (simp add: declare_length_def wp_simps) (rule wp_fail [OF k], rule assms(3), auto)
  next
    case False
    with Some assms(2) [of "Some ?n"] show ?thesis by (simp add: declare_length_def wp_simps)
  qed
qed

lemma wp_meet_expectations:
  assumes k: "env_keeps api tr J"
    and "Q () (s\<lparr>se_capture := (se_capture s)\<lparr>cap_expectation_failed := True\<rparr>, se_request_ready := True\<rparr>)"
    and "map_of (dict_of hs) (asc '':method'') = Some (asc ''CONNECT'') \<Longrightarrow> Q () (s\<lparr>se_request_ready := True\<rparr>)"
    and "\<And>a t c. (se_closed s \<Longrightarrow> c) \<Longrightarrow> (held J s \<Longrightarrow> J (ad_h2 a) t) \<Longrightarrow> Q () (touch a t c s)"
    and "\<And>e a t c. (se_closed s \<Longrightarrow> c) \<Longrightarrow> (held J s \<Longrightarrow> J (ad_h2 a) t) \<Longrightarrow> E e (touch a t c s)"
  shows "wp (meet_expectations api i hs ended) Q E s"
proof -
  have q: "Q () s" using assms(4) [of "se_closed s" "se_connection s" "se_transport s"] by (simp add: held_def)
  have e: "E x s" for x using assms(5) [of "se_closed s" "se_connection s" "se_transport s" x] by (simp add: held_def)
  have h: "wp (on_connection (on_h2 (h2_send_headers api i fs False))) Q E s" for fs
    by (rule wp_touch [OF touched_h2 [of J]]) (use assms(4,5) keeps_h2(1) [OF k] in auto)
  show ?thesis
    unfolding meet_expectations_def
    by (cases "expectations_of hs"; cases "map_of (dict_of hs) (asc '':method'')")
      (use q e h assms(2,3) in \<open>auto simp: wp_simps\<close>)
qed

lemma step_accept:
  assumes k: "env_keeps api tr J" and none: "cap_stream_id (se_capture s) = None"
    and valid: "validate_fields (h2_validate api) hs False = Inr ()"
  shows "wp (accept_request api tr i hs e)
    (\<lambda>_ s'. session_step J s s' \<and> (request_inv api s \<longrightarrow> request_inv api s')) (\<lambda>_. session_step J s) s"
  unfolding accept_request_def wp_simps
  by (rule wp_declare_length [OF k], rule wp_meet_expectations [OF k])
    (use none valid in \<open>auto simp: session_step_def request_ok_def split: option.splits\<close>)
lemma steps_touched:
  assumes "moves (touched J) m"
  shows "steps api J m"
  unfolding contract_def by (intro allI wp_touch [OF assms] conjI session_step_touch) auto

lemma steps_update:
  "(\<And>s. session_step J s (f s)) \<Longrightarrow> (\<And>s. request_inv api s \<Longrightarrow> request_inv api (f s)) \<Longrightarrow> steps api J (modifyM f)"
  by (simp add: contract_def wp_simps)

lemmas steps_ops = steps_touched [OF touched_fail] steps_touched [OF touched_check_priority_limit]
  steps_touched [OF touched_h2] steps_touched [OF touched_flush] steps_touched [OF touched_validate_event]

lemma step_open:
  fixes api :: "'h h2_api"
  assumes k: "env_keeps api tr J" and none: "cap_stream_id (se_capture s) = None"
  shows "wp (bindM (check_priority_limit api tr) (\<lambda>_. bindM (validate_event api tr hs False) (\<lambda>_. accept_request api tr i hs e)))
    (\<lambda>_ s'. session_step J s s' \<and> (request_inv api s \<longrightarrow> request_inv api s')) (\<lambda>_. session_step J s) s"
proof -
  have "wp (bindM (validate_event api tr hs False) (\<lambda>_. accept_request api tr i hs e))
    (\<lambda>_ s'. session_step J s1 s' \<and> (request_inv api s1 \<longrightarrow> request_inv api s')) (\<lambda>_. session_step J s1) s1"
    if "cap_stream_id (se_capture s1) = None" for s1
    unfolding wp_bind
    by (rule wp_validate_event [OF k], rule step_accept [OF k that], assumption) (rule session_step_touch)
  note accept = this
  show ?thesis unfolding wp_bind [of "check_priority_limit api tr"]
  proof (rule wp_touch [OF touched_check_priority_limit [OF k]])
    fix x t c and a :: "'h adapter" assume "se_closed s \<Longrightarrow> c" "held J s \<Longrightarrow> J (ad_h2 a) t"
    then have "session_step J s (touch a t c s)" by (intro session_step_touch)
    then show "wp (bindM (validate_event api tr hs False) (\<lambda>_. accept_request api tr i hs e))
        (\<lambda>_ s'. session_step J s s' \<and> (request_inv api s \<longrightarrow> request_inv api s')) (\<lambda>_. session_step J s) (touch a t c s)"
      by (intro wp_mono [OF accept]) (use none stp.trans in auto)
  qed (rule session_step_touch)
qed

lemma steps_event:
  assumes k: "env_keeps api tr J"
  shows "steps api J (process_event api tr ev)"
proof (cases ev)
  case (RequestReceived i hs e)
  have "steps api J (modifyM (\<lambda>s. s\<lparr>se_prioritized_idle_streams := Set.filter (\<lambda>j. j > i) (se_prioritized_idle_streams s)\<rparr>))"
    by (rule steps_update) (auto simp: session_step_def)
  moreover have "steps api J (bindM (getsM (\<lambda>s. cap_stream_id (se_capture s))) (\<lambda>current.
       if current \<noteq> None then on_connection (on_h2 (h2_reset_stream api i REFUSED_STREAM))
       else bindM (check_priority_limit api tr) (\<lambda>_. bindM (validate_event api tr hs False) (\<lambda>_. accept_request api tr i hs e))))"
    using step_open [OF k] stp.contractD [OF steps_ops(3) [of J, OF keeps_h2(2) [OF k]]]
    unfolding contract_def wp_bind [of "getsM _"] wp_access wp_cases by simp
  ultimately show ?thesis unfolding RequestReceived process_event.simps by (rule stp.contract_bind)
next
  case (TrailersReceived i hs)
  show ?thesis unfolding TrailersReceived process_event.simps contract_def wp_bind
    by (intro allI wp_validate_event [OF k] session_step_touch)
      (auto simp: wp_simps session_step_def request_ok_def split: option.splits)
next
  case (DataReceived i d n)
  have "steps api J (bindM (getsM (\<lambda>s. cap_stream_id (se_capture s))) (\<lambda>current. if current = Some i
       then bindM (modifyM (\<lambda>s. s\<lparr>se_request_bytes := se_request_bytes s + length d\<rparr>)) (\<lambda>_.
            fail_when api tr (\<lambda>s. se_request_bytes s > MAX_REQUEST_BODY) ''HTTP/2 request body limit exceeded'' ENHANCE_YOUR_CALM)
       else ret ()))"
    unfolding contract_def wp_simps
    by (auto simp: session_step_def request_ok_def intro!: wp_fail [OF k] split: option.splits)
  then show ?thesis unfolding DataReceived process_event.simps
    by (rule stp.contract_bind) (rule steps_ops(3) [of J, OF keeps_h2(3) [OF k]])
next
  case (StreamEnded i)
  show ?thesis unfolding StreamEnded process_event.simps contract_def wp_simps
    by (auto simp: session_step_def request_ok_def intro!: wp_fail [OF k] split: option.splits)
next
  case (StreamReset i)
  have "steps api J (modifyM (\<lambda>s. s\<lparr>se_cancelled := True\<rparr>))" by (rule steps_update) (auto simp: session_step_def)
  then show ?thesis unfolding StreamReset process_event.simps by (intro stp.contracts)
next
  case OtherEvent
  then show ?thesis by (simp add: stp.contract_return)
qed

lemma steps_events: "env_keeps api tr J \<Longrightarrow> steps api J (process_events api tr evs)"
  by (induction evs) (simp_all add: stp.contracts steps_event)

section \<open>Frames\<close>

lemma steps_deliver:
  assumes k: "env_keeps api tr J"
  shows "steps api J (deliver api tr entries wire)"
  unfolding deliver_def
proof (rule stp.contract_handle)
  show "steps api J (case entries of Some es \<Rightarrow> on_connection (apply_settings api es)
      | None \<Rightarrow> bindM (on_connection (receive_data api wire)) (process_events api tr))"
    by (intro stp.contracts steps_touched [OF touched_connection] keeps_receive_data [OF k]
      keeps_apply_settings [OF k] steps_events [OF k])
  show "moves (session_step J) (if is_ProtocolError e then queue_goaway api tr e else raise e)" for e
    by (intro stp.intros moves_mono [OF touched_queue_goaway [OF k]] step_touched)
  show "(if is_ProtocolError e then queue_goaway api tr e else raise e) s \<noteq> (Inr x, s')" for e s x s'
    by (auto simp: queue_goaway_def raise_def bindM_def getsM_def split: prod.splits sum.splits if_splits)
qed

lemma steps_forward: "env_keeps api tr J \<Longrightarrow> steps api J (forward_frame api tr frame wire)"
  unfolding forward_frame_def by (intro stp.contracts steps_deliver steps_ops(4))

lemma steps_priority_update:
  assumes k: "env_keeps api tr J"
  shows "steps api J (process_priority_update api tr p)"
proof -
  have "steps api J (modifyM (\<lambda>s. s\<lparr>se_prioritized_idle_streams := insert i (se_prioritized_idle_streams s)\<rparr>))" for i
    by (rule steps_update) (auto simp: session_step_def)
  then show ?thesis unfolding process_priority_update_def
    by (cases p) (simp_all add: stp.contract_return stp.contract_bind steps_ops(1,2) [OF k])
qed

lemma steps_dispatch:
  assumes k: "env_keeps api tr J"
  shows "steps api J (dispatch_frame api tr frame wire)"
proof -
  have "steps api J (modifyM (\<lambda>s. s\<lparr>se_cancelled := True\<rparr>))" by (rule steps_update) (auto simp: session_step_def)
  then have g: "steps api J (case pf_payload frame of
      GoawayPayload _ error_code _ \<Rightarrow> if error_code \<noteq> NO_ERROR then modifyM (\<lambda>s. s\<lparr>se_cancelled := True\<rparr>) else ret ()
    | _ \<Rightarrow> raise attribute_error)"
    by (cases "pf_payload frame") (auto intro!: stp.contracts)
  have "steps api J (check_reset api tr h)" for h
    unfolding check_reset_def by (intro stp.contracts steps_ops(1) k)
  with g show ?thesis unfolding dispatch_frame_def Let_def
    by (intro stp.contracts steps_ops(1) steps_forward steps_priority_update k)
qed

lemma steps_header_block: "env_keeps api tr J \<Longrightarrow> steps api J (count_header_block api tr h)"
  unfolding count_header_block_def
  by (intro stp.contracts steps_ops(1) steps_update) (auto simp: session_step_def)

lemma steps_continuation: "env_keeps api tr J \<Longrightarrow> steps api J (check_continuation api tr h)"
  unfolding check_continuation_def by (intro stp.contracts steps_ops(1))

end
