(* ===== verification/Http2_Session_Correct.thy ===== *)
theory Http2_Session_Correct
  imports Http2_Session_Laws
begin

text \<open>
  The session as a whole: what is captured, when the loops end, what a request that was received
  satisfies, and what is sent for a response.
\<close>

section \<open>One frame\<close>

abbreviation raw_frames :: "('h, 't) session \<Rightarrow> bytes" where
  "raw_frames s \<equiv> concat (map pf_raw (cap_frames (se_capture s)))"

abbreviation capture_log :: "('h, 't) session \<Rightarrow> bytes" where
  "capture_log s \<equiv> raw_frames s @ se_buffer s"

definition first_settings :: "http2_capture \<Rightarrow> bool \<Rightarrow> bool" where
  "first_settings cap first \<longleftrightarrow>
     (if first then cap_frames cap = [] \<and> cap_initial_settings cap = None \<and> cap_stream_id cap = None
      else \<exists>f fs settings entries. cap_frames cap = f # fs \<and> fh_type (pf_header f) = FT_SETTINGS \<and>
        pf_payload f = SettingsPayload False settings entries \<and> cap_initial_settings cap = Some entries)"

lemma request_ok_record [simp]:
  "request_ok api (c\<lparr>cap_initial_settings := i\<rparr>) = request_ok api c" "request_ok api (c\<lparr>cap_frames := fs\<rparr>) = request_ok api c"
  by (intro ext, simp add: request_ok_def split: option.split)+

text \<open>What holds between two calls of the session.\<close>

definition session_ok :: "'h h2_api \<Rightarrow> ('h, 't) session \<Rightarrow> bool" where
  "session_ok api s \<longleftrightarrow> request_inv api s \<and> first_settings (se_capture s) (se_first_frame s) \<and>
     list_all typed_frame (cap_frames (se_capture s)) \<and> length (cap_frames (se_capture s)) \<le> MAX_CAPTURE_FRAMES \<and>
     se_capture_entries s \<le> MAX_CAPTURE_ENTRIES"

text \<open>What every call does, however it ends.\<close>

definition session_run :: "('h \<Rightarrow> 't \<Rightarrow> bool) \<Rightarrow> ('h, 't) session \<Rightarrow> ('h, 't) session \<Rightarrow> bool" where
  "session_run J s s' \<longleftrightarrow>
     (held J s \<longrightarrow> held J s') \<and> se_capture_bytes s' = se_capture_bytes s \<and>
     prefix (cap_frames (se_capture s)) (cap_frames (se_capture s')) \<and> se_initialized s' = se_initialized s \<and>
     (se_closed s \<longrightarrow> se_closed s') \<and> (se_cancelled s \<longrightarrow> se_cancelled s') \<and>
     (se_request_ready s \<longrightarrow> se_request_ready s') \<and>
     (cap_stream_id (se_capture s) \<noteq> None \<longrightarrow> cap_stream_id (se_capture s') = cap_stream_id (se_capture s) \<and>
        cap_headers (se_capture s') = cap_headers (se_capture s)) \<and>
     (length (cap_frames (se_capture s)) \<le> MAX_CAPTURE_FRAMES \<longrightarrow> length (cap_frames (se_capture s')) \<le> MAX_CAPTURE_FRAMES) \<and>
     (se_capture_entries s \<le> MAX_CAPTURE_ENTRIES \<longrightarrow> se_capture_entries s' \<le> MAX_CAPTURE_ENTRIES)"

interpretation run: step_relation "session_run J" for J
proof
  show "session_run J s s" for s by (simp add: session_run_def)
  show "session_run J a c" if "session_run J a b" "session_run J b c" for a b c
    using that unfolding session_run_def by (metis prefix_order.trans)
qed

lemma run_step: "session_step J s s' \<Longrightarrow> session_run J s s'"
  by (simp add: session_step_def session_run_def)

lemma run_touched: "touched J s s' \<Longrightarrow> session_run J s s'"
  by (rule run_step) (rule step_touched)

lemma run_touch:
  "(se_closed s \<Longrightarrow> c) \<Longrightarrow> (held J s \<Longrightarrow> J (ad_h2 a) t) \<Longrightarrow> session_run J s (touch a t c s)"
  by (intro run_step session_step_touch)

text \<open>A reader for exactly one frame accepts exactly that frame, within the budget of entries.\<close>

lemma wire_frame:
  assumes "parse_frame (HTTP2FrameReader wire m False True (Some b)) = (Inr f, r)"
    and "length wire = FRAME_HEADER_SIZE + be_nat (take 3 wire)"
  shows "pf_raw f = wire" "typed_frame f" "0 \<le> b \<Longrightarrow> int (fr_entries_read r) \<le> b"
proof -
  let ?r = "HTTP2FrameReader wire m False True (Some b)"
  have r: "fr_pos ?r = 0" "fr_data ?r = wire" "fr_payload_end ?r = None" "0 \<le> b \<Longrightarrow> in_budget ?r" "fr_max_entries ?r = Some b"
    by (simp_all add: HTTP2FrameReader_def in_budget_def)
  show "typed_frame f" using assms(1) by (rule parse_frame_typed_aux)
  have p: "fr_pos ?r \<le> length (fr_data ?r)" by (simp add: r)
  have "pf_raw f = wire \<and> (0 \<le> b \<longrightarrow> int (fr_entries_read r) \<le> b)"
    using p r(3) assms(1)
  proof (cases rule: parse_frame_cases)
    case (header len ty fl sid)
    have "fr_payload_end (fr_adv 9 ?r) = None" by (simp add: r(3))
    note F = finish_frame_cases [OF fr_ok_adv9 [OF r(3) header(7)] this header(8)]
    have "pf_raw f = slice wire 0 (9 + len)" using F by (simp add: r(1,2))
    have "len = be_nat (take 3 wire)" using header(6) unfolding r(1,2) drop_0 .
    then have l: "length wire = 9 + len" using assms(2) by (simp only: FRAME_HEADER_SIZE_def)
    have "0 \<le> b \<Longrightarrow> in_budget r" using F r(4) by (simp add: in_budget_def)
    moreover have "fr_max_entries r = Some b" using F r(5) by (simp add: same_cfg_def)
    ultimately show ?thesis using \<open>pf_raw f = _\<close> by (simp only: slice_def in_budget_def l [symmetric]) simp
  qed (use r in simp_all)
  then show "pf_raw f = wire" "0 \<le> b \<Longrightarrow> int (fr_entries_read r) \<le> b" by simp_all
qed
text \<open>All of \<open>_process_frame\<close> but the check of the first frame.\<close>

abbreviation later_checks :: "'h h2_api \<Rightarrow> 't transport \<Rightarrow> parsed_frame \<Rightarrow> bytes \<Rightarrow> (('h, 't) session, unit) meth" where
  "later_checks api tr frame wire \<equiv>
     bindM (check_continuation api tr (pf_header frame)) (\<lambda>_.
     bindM (count_header_block api tr (pf_header frame)) (\<lambda>_.
     if fh_type (pf_header frame) \<in> {FT_ALTSVC, FT_ORIGIN} then ret ()
     else dispatch_frame api tr frame wire))"

lemma later_steps: "env_keeps api tr J \<Longrightarrow> steps api J (later_checks api tr frame wire)"
  by (intro stp.contracts steps_continuation steps_header_block steps_dispatch)

lemma fail_raises: "fail api tr m c s \<noteq> (Inr x, s')"
  by (auto simp: fail_def bindM_def raise_def split: prod.splits sum.splits)

lemma later_raises:
  assumes "fh_type (pf_header frame) = FT_SETTINGS" and "parse_failure (pf_payload frame) = Some (m, c)"
  shows "later_checks api tr frame wire s \<noteq> (Inr x, s')"
  using assms
  by (auto simp: fail_raises bindM_def dispatch_frame_def Let_def split: prod.splits sum.splits)

lemma settings_payload:
  assumes "typed_frame frame" and "fh_type (pf_header frame) = FT_SETTINGS" and "\<not> has_flag (fh_flags (pf_header frame)) FF_ACK"
    and "parse_failure (pf_payload frame) = None"
  obtains settings entries where "pf_payload frame = SettingsPayload False settings entries"
  using assms by (cases "pf_payload frame") (auto simp: typed_frame_def known_frame_type_def FrameType_def split: if_splits)

lemma wp_first_frame:
  assumes k: "env_keeps api tr J"
    and "\<not> se_first_frame s \<Longrightarrow> Q () s"
    and "\<And>i. se_first_frame s \<Longrightarrow> fh_type (pf_header frame) = FT_SETTINGS \<Longrightarrow> \<not> has_flag (fh_flags (pf_header frame)) FF_ACK \<Longrightarrow>
      i = (case pf_payload frame of SettingsPayload ack settings entries \<Rightarrow> Some entries | _ \<Rightarrow> cap_initial_settings (se_capture s)) \<Longrightarrow>
      Q () (s\<lparr>se_first_frame := False, se_capture := (se_capture s)\<lparr>cap_initial_settings := i\<rparr>\<rparr>)"
    and "\<And>e a t c. (se_closed s \<Longrightarrow> c) \<Longrightarrow> (held J s \<Longrightarrow> J (ad_h2 a) t) \<Longrightarrow> E e (touch a t c s)"
  shows "wp (check_first_frame api tr frame) Q E s"
proof -
  have "wp (fail api tr m c) Q' E s" for m c and Q' :: "unit \<Rightarrow> ('a, 'b) session \<Rightarrow> bool"
    by (rule wp_fail [OF k]) (rule assms(4))
  then show ?thesis unfolding check_first_frame_def wp_simps
    using assms(2) assms(3) [OF _ _ _ refl] by (cases "pf_payload frame") (auto simp: Let_def)
qed

text \<open>The frame is the last one captured; if it is the first, nothing is known of the settings yet.\<close>

definition begins_with :: "parsed_frame \<Rightarrow> ('h, 't) session \<Rightarrow> bool" where
  "begins_with frame s \<longleftrightarrow>
     (if se_first_frame s then cap_frames (se_capture s) = [frame] \<and> cap_initial_settings (se_capture s) = None
      else first_settings (se_capture s) False)"

lemma process_frame_post:
  assumes k: "env_keeps api tr J" and t: "typed_frame frame"
  shows "wp (process_frame api tr frame wire)
    (\<lambda>_ s'. session_run J s s' \<and> capture_log s' = capture_log s \<and> se_buffer s' = se_buffer s \<and>
       cap_frames (se_capture s') = cap_frames (se_capture s) \<and> se_capture_entries s' = se_capture_entries s \<and>
       (request_inv api s \<longrightarrow> request_inv api s') \<and>
       (begins_with frame s \<longrightarrow> first_settings (se_capture s') (se_first_frame s')))
    (\<lambda>_ s'. session_run J s s' \<and> raw_frames s' = raw_frames s) s"
  unfolding process_frame_def wp_bind [of "check_first_frame _ _ _"]
proof (rule wp_first_frame [OF k])
  assume n: "\<not> se_first_frame s"
  show "wp (later_checks api tr frame wire)
    (\<lambda>_ s'. session_run J s s' \<and> capture_log s' = capture_log s \<and> se_buffer s' = se_buffer s \<and>
       cap_frames (se_capture s') = cap_frames (se_capture s) \<and> se_capture_entries s' = se_capture_entries s \<and>
       (request_inv api s \<longrightarrow> request_inv api s') \<and>
       (begins_with frame s \<longrightarrow> first_settings (se_capture s') (se_first_frame s')))
    (\<lambda>_ s'. session_run J s s' \<and> raw_frames s' = raw_frames s) s"
    by (rule wp_mono [OF stp.contractD [OF later_steps [OF k]]])
      (use n in \<open>auto simp: begins_with_def run_step first_settings_def session_step_def\<close>)
next
  fix i assume s: "se_first_frame s" "fh_type (pf_header frame) = FT_SETTINGS" "\<not> has_flag (fh_flags (pf_header frame)) FF_ACK"
    "i = (case pf_payload frame of SettingsPayload ack settings entries \<Rightarrow> Some entries | _ \<Rightarrow> cap_initial_settings (se_capture s))"
  let ?s = "s\<lparr>se_first_frame := False, se_capture := (se_capture s)\<lparr>cap_initial_settings := i\<rparr>\<rparr>"
  have run: "session_run J s ?s" and inv: "request_inv api s \<Longrightarrow> request_inv api ?s"
    by (simp_all add: session_run_def)
  have st: "session_run J s s' \<and> capture_log s' = capture_log s \<and> raw_frames s' = raw_frames s \<and> se_buffer s' = se_buffer s \<and>
      cap_frames (se_capture s') = cap_frames (se_capture s) \<and> se_capture_entries s' = se_capture_entries s"
    if "session_step J ?s s'" for s'
    using run.trans [OF run run_step [OF that]] that by (simp add: session_step_def)
  show "wp (later_checks api tr frame wire)
    (\<lambda>_ s'. session_run J s s' \<and> capture_log s' = capture_log s \<and> se_buffer s' = se_buffer s \<and>
       cap_frames (se_capture s') = cap_frames (se_capture s) \<and> se_capture_entries s' = se_capture_entries s \<and>
       (request_inv api s \<longrightarrow> request_inv api s') \<and>
       (begins_with frame s \<longrightarrow> first_settings (se_capture s') (se_first_frame s')))
    (\<lambda>_ s'. session_run J s s' \<and> raw_frames s' = raw_frames s) ?s"
  proof (cases "parse_failure (pf_payload frame)")
    case None
    obtain settings entries where p: "pf_payload frame = SettingsPayload False settings entries"
      using t s(2,3) None by (rule settings_payload)
    have "first_settings (se_capture s') (se_first_frame s')" if "session_step J ?s s'" "begins_with frame s" for s'
      using that p s by (simp add: begins_with_def session_step_def first_settings_def)
    with st inv show ?thesis by (intro wp_mono [OF stp.contractD [OF later_steps [OF k]]]) blast+
  next
    case (Some mc)
    then have "later_checks api tr frame wire ?s \<noteq> (Inr x, s')" for x s'
      using later_raises [OF s(2)] by (metis surj_pair)
    then obtain e s' where r: "later_checks api tr frame wire ?s = (Inl e, s')" by (metis sum.exhaust surj_pair)
    from wpD(2) [OF stp.contractD [OF later_steps [OF k]] r] st have "session_run J s s'" "raw_frames s' = raw_frames s" by simp_all
    then show ?thesis unfolding wp_def r by simp
  qed
qed (simp add: run_touch)

section \<open>The frame loop\<close>

lemma capture_frame_post:
  assumes k: "env_keeps api tr J" and w: "length wire = FRAME_HEADER_SIZE + be_nat (take 3 wire)"
    and p: "p = parse_frame (HTTP2FrameReader wire m False True (Some (int MAX_CAPTURE_ENTRIES - int (se_capture_entries s))))"
  shows "wp (capture_frame api tr wire p)
    (\<lambda>b s'. b \<and> session_run J s s' \<and> raw_frames s' = raw_frames s @ wire \<and> se_buffer s' = se_buffer s \<and>
       (session_ok api s \<longrightarrow> session_ok api s'))
    (\<lambda>_ s'. session_run J s s' \<and> prefix (raw_frames s') (raw_frames s @ wire)) s"
proof (cases p)
  case (Pair x reader)
  show ?thesis
  proof (cases x)
    case (Inl e)
    have "wp (fail api tr m c) Q (\<lambda>_ s'. session_run J s s' \<and> prefix (raw_frames s') (raw_frames s @ wire)) s"
      for m c and Q :: "bool \<Rightarrow> _"
      by (rule wp_fail [OF k]) (simp add: run_touch)
    then show ?thesis unfolding Pair Inl by (cases e) (auto simp: wp_simps run.refl)
  next
    case (Inr frame)
    define n where "n = fr_entries_read reader"
    note f = wire_frame [OF p [symmetric, unfolded Pair Inr] w]
    let ?s1 = "s\<lparr>se_capture_entries := se_capture_entries s + n\<rparr>"
    let ?s2 = "?s1\<lparr>se_capture := (se_capture s)\<lparr>cap_frames := cap_frames (se_capture s) @ [frame]\<rparr>\<rparr>"
    have n: "se_capture_entries s \<le> MAX_CAPTURE_ENTRIES \<Longrightarrow> se_capture_entries s + n \<le> MAX_CAPTURE_ENTRIES"
      using f(3) by (simp add: n_def)
    have run1: "session_run J s ?s1" using n by (simp add: session_run_def)
    show ?thesis
    proof (cases "length (cap_frames (se_capture s)) \<ge> MAX_CAPTURE_FRAMES")
      case True
      have "session_run J s (touch a t c ?s1)" if "se_closed s \<Longrightarrow> c" "held J s \<Longrightarrow> J (ad_h2 a) t" for a t c
        by (rule run.trans [OF run1]) (rule run_touch, use that in auto)
      with True show ?thesis unfolding Pair Inr capture_frame.simps wp_simps n_def [symmetric]
        by (simp) (rule wp_fail [OF k], simp)
    next
      case False
      then have run2: "session_run J s ?s2" using n by (simp add: session_run_def)
      have "wp (process_frame api tr frame wire)
        (\<lambda>_ s'. session_run J s s' \<and> raw_frames s' = raw_frames s @ wire \<and> se_buffer s' = se_buffer s \<and>
           (session_ok api s \<longrightarrow> session_ok api s'))
        (\<lambda>_ s'. session_run J s s' \<and> prefix (raw_frames s') (raw_frames s @ wire)) ?s2"
      proof (rule wp_mono [OF process_frame_post [OF k f(2)]], goal_cases)
        case (1 x s')
        have "session_ok api s'" if o: "session_ok api s"
        proof -
          have "begins_with frame ?s2" using o unfolding session_ok_def begins_with_def first_settings_def
            by (cases "se_first_frame s") auto
          then show ?thesis using 1 o n False f(2) by (simp add: session_ok_def)
        qed
        with 1 show ?case using run.trans [OF run2, of s'] f(1) by simp
      next
        case (2 e s')
        then show ?case using run.trans [OF run2, of s'] f(1) by simp
      qed
      with False show ?thesis unfolding Pair Inr capture_frame.simps wp_simps n_def [symmetric] by simp
    qed
  qed
qed

lemma whole_frame:
  assumes "FRAME_HEADER_SIZE + n \<le> length b" and "n = be_nat (take 3 b)"
  shows "length (take (FRAME_HEADER_SIZE + n) b) = FRAME_HEADER_SIZE + be_nat (take 3 (take (FRAME_HEADER_SIZE + n) b))"
proof -
  have "take 3 (take (FRAME_HEADER_SIZE + n) b) = take 3 b" by (simp add: min_def)
  moreover have "length (take (FRAME_HEADER_SIZE + n) b) = FRAME_HEADER_SIZE + n" using assms(1) by simp
  ultimately show ?thesis using assms(2) by (simp only:)
qed

lemma receive_frame_post:
  assumes k: "env_keeps api tr J"
  shows "wp (receive_frame api tr)
    (\<lambda>b s'. session_run J s s' \<and> capture_log s' = capture_log s \<and> (session_ok api s \<longrightarrow> session_ok api s') \<and>
       (b \<longrightarrow> length (se_buffer s') < length (se_buffer s)))
    (\<lambda>_ s'. session_run J s s' \<and> prefix (raw_frames s') (capture_log s)) s"
proof -
  let ?len = "be_nat (take 3 (se_buffer s))"
  let ?stop = "FRAME_HEADER_SIZE + ?len"
  let ?wire = "take ?stop (se_buffer s)" and ?s1 = "s\<lparr>se_buffer := drop ?stop (se_buffer s)\<rparr>"
  consider (short) "length (se_buffer s) < FRAME_HEADER_SIZE"
    | (large) "length (se_buffer s) \<ge> FRAME_HEADER_SIZE" "?len > h2_max_inbound_frame_size api (h2_of s)"
    | (partial) "length (se_buffer s) \<ge> FRAME_HEADER_SIZE" "\<not> ?len > h2_max_inbound_frame_size api (h2_of s)"
        "length (se_buffer s) < ?stop"
    | (whole) "length (se_buffer s) \<ge> FRAME_HEADER_SIZE" "\<not> ?len > h2_max_inbound_frame_size api (h2_of s)"
        "length (se_buffer s) \<ge> ?stop"
    by linarith
  then show ?thesis
  proof cases
    case large
    have "wp (fail api tr m c) Q (\<lambda>_ s'. session_run J s s' \<and> prefix (raw_frames s') (capture_log s)) s" for m c and Q :: "unit \<Rightarrow> _"
      by (rule wp_fail [OF k]) (simp add: run_touch)
    with large show ?thesis unfolding receive_frame_def wp_simps Let_def by simp
  next
    case whole
    have w: "length ?wire = FRAME_HEADER_SIZE + be_nat (take 3 ?wire)" using whole(3) by (rule whole_frame) (rule refl)
    have run1: "session_run J s ?s1" and ok1: "session_ok api ?s1 = session_ok api s"
      by (simp_all add: session_run_def session_ok_def)
    have split: "se_buffer s = ?wire @ drop ?stop (se_buffer s)" by simp
    have pre: "prefix p (raw_frames s @ ?wire) \<Longrightarrow> prefix p (capture_log s)" for p
      by (subst split, subst append_assoc [symmetric]) (rule prefix_prefix)
    have "length (drop ?stop (se_buffer s)) < length (se_buffer s)" using whole(1) by simp
    then have "wp (capture_frame api tr ?wire (parse_frame (HTTP2FrameReader ?wire (h2_max_inbound_frame_size api (h2_of s)) False True
          (Some (int MAX_CAPTURE_ENTRIES - int (se_capture_entries ?s1))))))
        (\<lambda>b s'. session_run J s s' \<and> capture_log s' = capture_log s \<and> (session_ok api s \<longrightarrow> session_ok api s') \<and>
           (b \<longrightarrow> length (se_buffer s') < length (se_buffer s)))
        (\<lambda>_ s'. session_run J s s' \<and> prefix (raw_frames s') (capture_log s)) ?s1"
      by (intro wp_mono [OF capture_frame_post [OF k w refl, of _ ?s1]])
        (use run.trans [OF run1] ok1 pre in auto)
    then show ?thesis unfolding receive_frame_def wp_simps Let_def using whole by simp
  qed (simp_all add: receive_frame_def wp_simps Let_def run.refl)
qed

lemma receive_frames_post:
  assumes k: "env_keeps api tr J"
  shows "wp (receive_frames api tr)
    (\<lambda>_ s'. session_run J s s' \<and> capture_log s' = capture_log s \<and> (session_ok api s \<longrightarrow> session_ok api s'))
    (\<lambda>_ s'. session_run J s s' \<and> prefix (raw_frames s') (capture_log s)) s"
proof (induction "length (se_buffer s)" arbitrary: s rule: less_induct)
  case less
  note post = receive_frame_post [OF k, of s]
  obtain r s1 where r: "receive_frame api tr s = (r, s1)" by fastforce
  show ?case
  proof (cases r)
    case (Inl e)
    with post r show ?thesis unfolding wp_def receive_frames.simps [of _ _ s] by simp
  next
    case (Inr b)
    with post r have 1: "session_run J s s1" "capture_log s1 = capture_log s" "session_ok api s \<Longrightarrow> session_ok api s1"
      "b \<Longrightarrow> length (se_buffer s1) < length (se_buffer s)" by (auto simp: wp_def)
    show ?thesis
    proof (cases b)
      case True
      have "receive_frames api tr s = receive_frames api tr s1"
        using r Inr True 1(4) by (simp add: receive_frames.simps [of _ _ s])
      moreover have "wp (receive_frames api tr)
        (\<lambda>_ s'. session_run J s s' \<and> capture_log s' = capture_log s \<and> (session_ok api s \<longrightarrow> session_ok api s'))
        (\<lambda>_ s'. session_run J s s' \<and> prefix (raw_frames s') (capture_log s)) s1"
        by (rule wp_mono [OF less [OF 1(4)]]) (use True 1 run.trans [OF 1(1)] in auto)
      ultimately show ?thesis by (simp add: wp_def)
    next
      case False
      then show ?thesis using r Inr 1(1-3) by (simp add: wp_def receive_frames.simps [of _ _ s])
    qed
  qed
qed

section \<open>Receiving\<close>

lemma touched_facts:
  assumes "touched J s s'"
  shows "session_run J s s'" "capture_log s' = capture_log s" "raw_frames s' = raw_frames s"
    "session_ok api s' = session_ok api s" "se_capture_bytes s' = se_capture_bytes s" "held J s \<Longrightarrow> held J s'"
  using assms run_touched [OF assms] by (auto simp: touched_def session_ok_def)

lemma wp_check_cancelled:
  "wp check_cancelled Q E s \<longleftrightarrow>
     (if se_cancelled s then E (ConnectionResetError ''HTTP/2 request stream was reset'') s
      else if se_closed s then E (ConnectionResetError ''HTTP/2 connection is closed'') s
      else Q () s)"
  by (simp add: check_cancelled_def wp_simps)

text \<open>What a call with \<open>data\<close> has done when it returns.\<close>

definition received :: "'h h2_api \<Rightarrow> ('h \<Rightarrow> 't \<Rightarrow> bool) \<Rightarrow> bytes \<Rightarrow> ('h, 't) session \<Rightarrow> ('h, 't) session \<Rightarrow> bool" where
  "received api J data s s' \<longleftrightarrow> data \<noteq> [] \<and> session_run J (s\<lparr>se_capture_bytes := se_capture_bytes s + length data\<rparr>) s' \<and>
     se_capture_bytes s' \<le> MAX_CAPTURE_BYTES \<and> capture_log s' = capture_log s @ data \<and>
     (session_ok api s \<longrightarrow> session_ok api s') \<and> \<not> se_cancelled s' \<and> \<not> se_closed s'"

lemma receive_post:
  assumes k: "env_keeps api tr J"
  shows "wp (receive api tr data) (\<lambda>_. received api J data s)
    (\<lambda>_ s'. (held J s \<longrightarrow> held J s') \<and> prefix (raw_frames s') (capture_log s @ data)) s"
proof (cases "data = []")
  case True
  then show ?thesis by (simp add: receive_def wp_simps)
next
  case False
  let ?s1 = "s\<lparr>se_capture_bytes := se_capture_bytes s + length data\<rparr>"
  let ?s2 = "?s1\<lparr>se_buffer := se_buffer s @ data\<rparr>"
  let ?E = "\<lambda>_ s'. (held J s \<longrightarrow> held J s') \<and> prefix (raw_frames s') (capture_log s @ data)"
  have run2: "session_run J ?s1 ?s2" and ok2: "session_ok api s \<Longrightarrow> session_ok api ?s2"
    by (simp_all add: session_run_def session_ok_def)
  have fl: "wp (bindM (flush api tr) (\<lambda>_. check_cancelled)) (\<lambda>_. received api J data s) ?E s3"
    if 3: "session_run J ?s2 s3" "capture_log s3 = capture_log s @ data" "session_ok api ?s2 \<longrightarrow> session_ok api s3"
      "se_capture_bytes s + length data \<le> MAX_CAPTURE_BYTES" for s3
    unfolding wp_bind
  proof (rule tch.wp_moves [OF touched_flush [OF k]])
    fix s4 assume 4: "touched J s3 s4"
    have held: "held J s \<Longrightarrow> held J s4" using 3(1) touched_facts(6) [OF 4] by (simp add: session_run_def)
    have log: "capture_log s4 = capture_log s @ data" using 3(2) touched_facts(2) [OF 4] by simp
    then have pre: "prefix (raw_frames s4) (capture_log s @ data)" by (metis prefixI)
    have "session_run J ?s1 s4" by (rule run.trans [OF run.trans [OF run2 3(1)] touched_facts(1) [OF 4]])
    moreover have "se_capture_bytes s4 \<le> MAX_CAPTURE_BYTES" using calculation 3(4) by (simp add: session_run_def)
    ultimately show "wp check_cancelled (\<lambda>_. received api J data s) ?E s4"
      using False 3(3) ok2 touched_facts(4) [OF 4] log held pre by (simp add: wp_check_cancelled received_def)
    show "(held J s \<longrightarrow> held J s4) \<and> prefix (raw_frames s4) (capture_log s @ data)" using held pre by simp
  qed
  have fr: "wp (bindM (receive_frames api tr) (\<lambda>_. bindM (flush api tr) (\<lambda>_. check_cancelled)))
      (\<lambda>_. received api J data s) ?E ?s2" if "se_capture_bytes s + length data \<le> MAX_CAPTURE_BYTES"
    unfolding wp_bind [of "receive_frames api tr"]
    by (rule wp_mono [OF receive_frames_post [OF k]], rule fl) (use that in \<open>auto simp: session_run_def\<close>)
  have "wp (fail api tr m c) Q ?E ?s1" for m c and Q :: "unit \<Rightarrow> _"
    by (rule wp_fail [OF k]) simp
  with fr False show ?thesis unfolding receive_def by (simp add: wp_simps(1-4) wp_bind)
qed

text \<open>A transport that reports what it has read: \<open>L\<close> is the history of the bytes that \<open>read\<close> returned.\<close>

definition logs_reads :: "'t transport \<Rightarrow> ('t \<Rightarrow> bytes) \<Rightarrow> bool" where
  "logs_reads tr L \<longleftrightarrow>
     (\<forall>t d t'. tr_read tr t = (Inr d, t') \<longrightarrow> L t' = L t @ d) \<and>
     (\<forall>d t. L (snd (tr_write tr d t)) = L t)"

lemma logs_reads_keeps: "logs_reads tr L \<Longrightarrow> env_keeps api tr (\<lambda>_ t. L t = l)"
  by (simp add: env_keeps_def meth_keeps_def logs_reads_def)

lemma read_received:
  assumes "read_and_receive api tr s = (Inr x, s')"
  obtains data t where "tr_read tr (se_transport s) = (Inr data, t)"
    "\<forall>J. env_keeps api tr J \<longrightarrow> received api J data (s\<lparr>se_transport := t\<rparr>) s'"
proof -
  from assms obtain data t where 1: "tr_read tr (se_transport s) = (Inr data, t)" "receive api tr data (s\<lparr>se_transport := t\<rparr>) = (Inr x, s')"
    by (auto simp: read_and_receive_def bindM_def on_transport_def split: prod.splits sum.splits)
  from that [OF this(1)] wpD(1) [OF receive_post 1(2)] show ?thesis by blast
qed

lemma read_grows:
  assumes "read_and_receive api tr s = (Inr x, s')"
  shows "se_capture_bytes s < se_capture_bytes s'" "se_capture_bytes s' \<le> MAX_CAPTURE_BYTES"
proof -
  from assms obtain data t where "received api (\<lambda>_ _. True) data (s\<lparr>se_transport := t\<rparr>) s'"
    using env_keeps_True by (metis read_received)
  then show "se_capture_bytes s < se_capture_bytes s'" "se_capture_bytes s' \<le> MAX_CAPTURE_BYTES"
    by (auto simp: received_def session_run_def)
qed

section \<open>Termination\<close>

lemma await_request_total: "\<exists>r. await_request api tr s = Some r"
proof (induction "MAX_CAPTURE_BYTES - se_capture_bytes s" arbitrary: s rule: less_induct)
  case less
  show ?case
  proof (cases "se_request_ready s")
    case True
    then show ?thesis by (simp add: await_request.simps [of _ _ s])
  next
    case False
    obtain r s1 where r: "read_and_receive api tr s = (r, s1)" by fastforce
    show ?thesis
    proof (cases r)
      case (Inl e)
      with False r show ?thesis by (simp add: await_request.simps [of _ _ s])
    next
      case (Inr x)
      with r have "read_and_receive api tr s = (Inr x, s1)" by simp
      from read_grows [OF this] have "MAX_CAPTURE_BYTES - se_capture_bytes s1 < MAX_CAPTURE_BYTES - se_capture_bytes s" by simp
      from less [OF this] False r Inr show ?thesis by (simp add: await_request.simps [of _ _ s])
    qed
  qed
qed

text \<open>One turn of the loop that sends: either a part of the content is sent, or more bytes have been captured.\<close>

lemma send_chunk_cases:
  assumes "send_chunk api tr i content offset s = (Inr n, s')" and "offset < length content" and "env_keeps api tr J"
  obtains (wait) s1 where "touched J s s1" "read_and_receive api tr s1 = (Inr (), s')" "n = offset"
  | (send) s1 s2 where "touched J s s1" "offset < n" "n \<le> length content"
      "on_connection (on_h2 (h2_send_data api i (slice content offset n) (n = length content))) s1 = (Inr (), s2)"
      "flush api tr s2 = (Inr (), s')"
proof -
  let ?available = "\<lambda>w h. min w (h2_max_outbound_frame_size api h)"
  from assms(1) obtain w s0 s1 where 1: "check_cancelled s = (Inr (), s0)"
    "on_connection (on_h2 (h2_flow_window api i)) s0 = (Inr w, s1)"
    "(let available = ?available w (h2_of s1) in
       if available \<le> 0 then bindM (read_and_receive api tr) (\<lambda>_. ret offset)
       else let end = min (offset + nat available) (length content) in
            bindM (on_connection (on_h2 (h2_send_data api i (slice content offset end) (end = length content)))) (\<lambda>_.
            bindM (flush api tr) (\<lambda>_. ret end))) s1 = (Inr n, s')"
    unfolding send_chunk_def bindM_eq_Inr getsM_def by auto
  have t: "touched J s s1"
    by (rule tch.trans [OF moves_eq [OF touched_check_cancelled 1(1)] moves_eq [OF touched_h2 1(2)]])
      (rule keeps_h2(5) [OF assms(3)])
  show thesis
  proof (cases "?available w (h2_of s1) \<le> 0")
    case True
    with 1(3) show thesis using t wait by (auto simp: bindM_eq_Inr ret_def)
  next
    case False
    let ?stop = "min (offset + nat (?available w (h2_of s1))) (length content)"
    from 1(3) False obtain s2 s3 where 2: "n = ?stop"
      "on_connection (on_h2 (h2_send_data api i (slice content offset n) (n = length content))) s1 = (Inr (), s2)"
      "flush api tr s2 = (Inr (), s')"
      by (auto simp: Let_def bindM_eq_Inr ret_def)
    have "offset < n" "n \<le> length content" using False assms(2) 2(1) by (auto simp: zero_less_nat_eq)
    with t 2 show thesis using send by blast
  qed
qed

lemma send_content_total: "\<exists>r. send_content api tr i content offset s = Some r"
proof (induction "(length content - offset) + (MAX_CAPTURE_BYTES - se_capture_bytes s)" arbitrary: offset s rule: less_induct)
  case less
  show ?case
  proof (cases "offset < length content")
    case False
    then show ?thesis by (simp add: send_content.simps [of _ _ _ _ offset])
  next
    case True
    obtain r s1 where r: "send_chunk api tr i content offset s = (r, s1)" by fastforce
    show ?thesis
    proof (cases r)
      case (Inl e)
      with True r show ?thesis by (simp add: send_content.simps [of _ _ _ _ offset])
    next
      case (Inr n)
      with r have "send_chunk api tr i content offset s = (Inr n, s1)" by simp
      from this True env_keeps_True
      have "(length content - n) + (MAX_CAPTURE_BYTES - se_capture_bytes s1) <
          (length content - offset) + (MAX_CAPTURE_BYTES - se_capture_bytes s)"
      proof (cases rule: send_chunk_cases)
        case (wait s0)
        then show ?thesis using read_grows [OF wait(2)] touched_facts(5) [OF wait(1)] by linarith
      next
        case (send s0 s2)
        have "se_capture_bytes s2 = se_capture_bytes s0" using send(4) by (auto simp: on_connection_def split: prod.splits)
        then show ?thesis using send(2,3) touched_facts(5) [OF send(1)] 
            touched_facts(5) [OF moves_eq [OF touched_flush [OF env_keeps_True] send(5)]] by linarith
      qed
      from less [OF this] True r Inr show ?thesis by (simp add: send_content.simps [of _ _ _ _ offset])
    qed
  qed
qed

text \<open>C16. The session never waits forever for a peer that keeps sending: whatever the transport and h2
  do, as long as each of their operations returns, both loops of the session end. \<open>receive_request\<close> and
  \<open>send_response\<close> always return or raise, because every turn captures more bytes of a bounded number
  or sends more of the content.\<close>

theorem session_terminates:
  "(\<exists>r s'. receive_request api tr s = Some (r, s')) \<and>
   (\<exists>r s'. send_response api tr content headers status_code s = Some (r, s'))"
proof -
  obtain r s1 where a: "await_request api tr s = Some (r, s1)" using await_request_total by (metis surj_pair)
  obtain content' headers' where p: "prepare_response content headers status_code = (content', headers')" by fastforce
  obtain x s2 where s: "start_response api tr content' headers' status_code s = (x, s2)" by fastforce
  have "\<exists>r s'. send_response api tr content headers status_code s = Some (r, s')"
    using send_content_total [of api tr _ content' 0 s2] by (cases x) (auto simp: send_response_def p s)
  moreover have "\<exists>r s'. receive_request api tr s = Some (r, s')"
    by (cases r) (auto simp: receive_request_def a)
  ultimately show ?thesis by blast
qed

section \<open>From the preface to the request\<close>

text \<open>The number of captured bytes is the length of what is captured and buffered.\<close>

definition bytes_counted :: "('h, 't) session \<Rightarrow> bool" where
  "bytes_counted s \<longleftrightarrow> se_capture_bytes s = length (capture_log s) \<and> se_capture_bytes s \<le> MAX_CAPTURE_BYTES"

lemma received_counted: "received api J data s s' \<Longrightarrow> bytes_counted s \<Longrightarrow> bytes_counted s'"
  by (auto simp: received_def bytes_counted_def session_run_def simp del: length_concat length_map)

lemma new_session: "session_ok api (HTTP2Session api t)" "bytes_counted (HTTP2Session api t)" "capture_log (HTTP2Session api t) = []"
  "se_transport (HTTP2Session api t) = t"
  by (simp_all add: HTTP2Session_def HTTP2Capture_def session_ok_def request_ok_def first_settings_def bytes_counted_def)

lemma initialize_post:
  assumes k: "env_keeps api tr J"
    and i: "initialize api tr incoming s = (Inr x, s')" and s: "session_ok api s" "bytes_counted s" "capture_log s = []"
  shows "session_ok api s'" "bytes_counted s'" "incoming = HTTP2_PREFACE @ capture_log s'" "held J s \<Longrightarrow> held J s'"
proof -
  let ?remaining = "drop (length HTTP2_PREFACE) incoming"
  let ?s0 = "s\<lparr>se_initialized := True\<rparr>"
  from i obtain s1 s2 s3 evs where 1: "on_connection (on_h2 (h2_initiate_connection api)) ?s0 = (Inr (), s1)"
    "flush api tr s1 = (Inr (), s2)" "starts_with HTTP2_PREFACE incoming"
    "on_connection (receive_data api HTTP2_PREFACE) s2 = (Inr evs, s3)"
    "(if ?remaining \<noteq> [] then receive api tr ?remaining else ret ()) s3 = (Inr (), s')"
    unfolding initialize_def bindM_eq_Inr getsM_def modifyM_def Let_def by (auto simp: fail_raises guardM_def ret_def raise_def split: if_splits)
  have t: "touched J ?s0 s3"
    by (rule tch.trans [OF tch.trans [OF moves_eq [OF touched_h2 1(1)] moves_eq [OF touched_flush [OF k] 1(2)]]
      moves_eq [OF touched_connection 1(4)]]) (rule keeps_h2(4) [OF k], rule keeps_receive_data [OF k])
  have s3: "session_ok api s3" "bytes_counted s3" "capture_log s3 = []" "held J s \<Longrightarrow> held J s3"
    using s touched_facts [OF t] by (auto simp: session_ok_def bytes_counted_def)
  have p: "incoming = HTTP2_PREFACE @ ?remaining" using 1(3) by (auto simp: starts_with_def) (metis append_take_drop_id)
  have "session_ok api s' \<and> bytes_counted s' \<and> incoming = HTTP2_PREFACE @ capture_log s' \<and> (held J s \<longrightarrow> held J s')"
  proof (cases "?remaining = []")
    case True
    then have "s' = s3" using 1(5) by (simp add: ret_def)
    then show ?thesis using s3 p True by (simp only: append_Nil2) simp
  next
    case False
    then have "receive api tr ?remaining s3 = (Inr (), s')" using 1(5) by simp
    then have r: "received api J ?remaining s3 s'" by (rule wpD(1) [OF receive_post [OF k]])
    then have "capture_log s' = ?remaining" "session_ok api s'" "held J s \<longrightarrow> held J s'"
      using s3 by (auto simp: received_def session_run_def)
    with p received_counted [OF r s3(2)] show ?thesis by simp
  qed
  then show "session_ok api s'" "bytes_counted s'" "incoming = HTTP2_PREFACE @ capture_log s'" "held J s \<Longrightarrow> held J s'" by blast+
qed

lemma read_post:
  assumes "read_and_receive api tr s = (Inr x, s')" and "session_ok api s" and "bytes_counted s"
  shows "session_ok api s' \<and> bytes_counted s' \<and>
    (\<forall>L. logs_reads tr L \<longrightarrow> (\<exists>read. L (se_transport s') = L (se_transport s) @ read \<and> capture_log s' = capture_log s @ read))"
proof -
  obtain data t where d: "tr_read tr (se_transport s) = (Inr data, t)"
    "\<forall>J. env_keeps api tr J \<longrightarrow> received api J data (s\<lparr>se_transport := t\<rparr>) s'"
    using assms(1) by (rule read_received)
  have r: "received api (\<lambda>_ _. True) data (s\<lparr>se_transport := t\<rparr>) s'" using d(2) env_keeps_True by blast
  have "session_ok api (s\<lparr>se_transport := t\<rparr>)" "bytes_counted (s\<lparr>se_transport := t\<rparr>)"
    using assms(2,3) by (simp_all add: session_ok_def bytes_counted_def)
  moreover have "\<exists>read. L (se_transport s') = L (se_transport s) @ read \<and> capture_log s' = capture_log s @ read"
    if l: "logs_reads tr L" for L
  proof -
    have "L t = L (se_transport s) @ data" using l d(1) by (auto simp: logs_reads_def)
    moreover have "received api (\<lambda>_ t. L t = L (se_transport s) @ data) data (s\<lparr>se_transport := t\<rparr>) s'"
      using d(2) logs_reads_keeps [OF l] by blast
    ultimately show ?thesis by (auto simp: received_def session_run_def held_def)
  qed
  ultimately show ?thesis using r received_counted [OF r] by (auto simp: received_def)
qed

lemma await_request_post:
  "await_request api tr s = Some y \<Longrightarrow> y = (Inr x, s') \<Longrightarrow> session_ok api s \<Longrightarrow> bytes_counted s \<Longrightarrow>
    session_ok api s' \<and> bytes_counted s' \<and> se_request_ready s' \<and>
    (\<forall>L. logs_reads tr L \<longrightarrow> (\<exists>read. L (se_transport s') = L (se_transport s) @ read \<and> capture_log s' = capture_log s @ read))"
proof (induction arbitrary: x s' rule: await_request.raw_induct [rotated, consumes 1, case_names step])
  case (step aw api tr s y)
  show ?case
  proof (cases "se_request_ready s")
    case True
    with step(2-) show ?thesis by auto
  next
    case False
    with step(2,3) obtain s1 where s1: "read_and_receive api tr s = (Inr (), s1)" "aw api tr s1 = Some (Inr x, s')"
      by (auto split: prod.splits sum.splits)
    note r1 = read_post [OF s1(1) step(4,5)]
    note r2 = step(1) [OF s1(2) refl conjunct1 [OF r1] conjunct1 [OF conjunct2 [OF r1]]]
    have "\<exists>read. L (se_transport s') = L (se_transport s) @ read \<and> capture_log s' = capture_log s @ read"
      if l: "logs_reads tr L" for L
    proof -
      obtain d1 where "L (se_transport s1) = L (se_transport s) @ d1" "capture_log s1 = capture_log s @ d1"
        using r1 l by blast
      moreover obtain d2 where "L (se_transport s') = L (se_transport s1) @ d2" "capture_log s' = capture_log s1 @ d2"
        using r2 l by blast
      ultimately show ?thesis by simp
    qed
    with r2 show ?thesis by blast
  qed
qed

text \<open>The results: \<open>initialize\<close> with what the client has sent so far, then \<open>receive_request\<close>.\<close>

lemma check_cancelled_eq:
  "check_cancelled s =
     (if se_cancelled s then Inl (ConnectionResetError ''HTTP/2 request stream was reset'')
      else if se_closed s then Inl (ConnectionResetError ''HTTP/2 connection is closed'') else Inr (), s)"
  by (simp add: check_cancelled_def bindM_def getsM_def ret_def raise_def)

lemma receive_request_returns:
  "receive_request api tr s = Some (Inr (), s') \<longleftrightarrow>
     await_request api tr s = Some (Inr (), s') \<and> \<not> se_cancelled s' \<and> \<not> se_closed s'"
proof -
  obtain r s1 where "await_request api tr s = Some (r, s1)" using await_request_total by (metis surj_pair)
  then show ?thesis by (cases r) (auto simp: receive_request_def check_cancelled_eq)
qed

text \<open>What is left in the buffer when \<open>_receive\<close> returns is not a frame: it is shorter than a frame header, or than
  the frame its header announces.\<close>

definition incomplete_frame :: "bytes \<Rightarrow> bool" where
  "incomplete_frame b \<longleftrightarrow> length b < FRAME_HEADER_SIZE \<or> length b < FRAME_HEADER_SIZE + be_nat (take 3 b)"

lemma receive_frame_rest:
  assumes "receive_frame api tr s = (Inr False, s')"
  shows "incomplete_frame (se_buffer s')"
proof -
  have "capture_frame api tr wire x t \<noteq> (Inr False, t')" for wire x t t'
    by (cases x; cases "fst x")
      (auto simp: fail_raises bindM_eq_Inr ret_def raise_def split: exn.splits)
  then show ?thesis using assms unfolding receive_frame_def bindM_eq_Inr
    by (auto simp: incomplete_frame_def getsM_def modifyM_def ret_def raise_def fail_raises Let_def bindM_eq_Inr split: if_splits)
qed

lemma receive_frames_rest: "receive_frames api tr s = (Inr x, s') \<Longrightarrow> incomplete_frame (se_buffer s')"
proof (induction api tr s rule: receive_frames.induct)
  case (1 api tr s)
  then show ?case by (subst (asm) receive_frames.simps) (auto split: prod.splits sum.splits bool.splits if_splits dest: receive_frame_rest)
qed

lemma receive_rest:
  assumes "receive api tr data s = (Inr x, s')"
  shows "incomplete_frame (se_buffer s')"
proof -
  from assms obtain s1 s2 where 1: "receive_frames api tr s1 = (Inr (), s2)" "touched (\<lambda>_ _. True) s2 s'"
    unfolding receive_def
    by (auto simp: bindM_eq_Inr raise_def check_cancelled_eq split: if_splits dest!: moves_eq [OF touched_flush [OF env_keeps_True]])
  from 1(2) have "se_buffer s' = se_buffer s2" by (auto simp: touched_def)
  with receive_frames_rest [OF 1(1)] show ?thesis by simp
qed

lemma await_request_rest:
  "await_request api tr s = Some y \<Longrightarrow> y = (Inr x, s') \<Longrightarrow> incomplete_frame (se_buffer s) \<Longrightarrow> incomplete_frame (se_buffer s')"
proof (induction arbitrary: x s' rule: await_request.raw_induct [rotated, consumes 1, case_names step])
  case (step aw api tr s y)
  then show ?case by (auto simp: read_and_receive_def bindM_eq_Inr split: prod.splits sum.splits if_splits dest!: receive_rest)
qed

lemma initialize_rest:
  assumes "initialize api tr incoming (HTTP2Session api t) = (Inr x, s')"
  shows "incomplete_frame (se_buffer s')"
proof -
  let ?remaining = "drop (length HTTP2_PREFACE) incoming"
  from assms obtain s1 s2 s3 evs where 1: "on_connection (on_h2 (h2_initiate_connection api)) ((HTTP2Session api t)\<lparr>se_initialized := True\<rparr>) = (Inr (), s1)"
    "flush api tr s1 = (Inr (), s2)" "on_connection (receive_data api HTTP2_PREFACE) s2 = (Inr evs, s3)"
    "(if ?remaining \<noteq> [] then receive api tr ?remaining else ret ()) s3 = (Inr (), s')"
    unfolding initialize_def bindM_eq_Inr getsM_def modifyM_def Let_def by (auto simp: fail_raises guardM_def ret_def raise_def split: if_splits)
  have "touched (\<lambda>_ _. True) ((HTTP2Session api t)\<lparr>se_initialized := True\<rparr>) s3"
    by (rule tch.trans [OF tch.trans [OF moves_eq [OF touched_h2 1(1)] moves_eq [OF touched_flush [OF env_keeps_True] 1(2)]]
      moves_eq [OF touched_connection 1(3)]]) (rule keeps_h2(4) [OF env_keeps_True], rule keeps_receive_data [OF env_keeps_True])
  then have "se_buffer s3 = []" by (auto simp: touched_def HTTP2Session_def)
  with 1(4) show ?thesis by (auto simp: ret_def incomplete_frame_def FRAME_HEADER_SIZE_def split: if_splits dest: receive_rest)
qed

lemma receive_request_post:
  assumes "initialize api tr incoming (HTTP2Session api t) = (Inr (), s1)"
    and "receive_request api tr s1 = Some (Inr (), s2)"
  shows "session_ok api s2" "bytes_counted s2" "se_request_ready s2" "\<not> se_cancelled s2" "\<not> se_closed s2"
    "logs_reads tr L \<Longrightarrow> \<exists>read. L (se_transport s2) = L t @ read \<and> incoming @ read = HTTP2_PREFACE @ capture_log s2"
    "incomplete_frame (se_buffer s2)"
proof -
  note i = initialize_post [OF _ assms(1) new_session(1-3)]
  note a = assms(2) [unfolded receive_request_returns]
  note r = await_request_post [OF conjunct1 [OF a] refl i(1,2) [OF env_keeps_True]]
  from r a show "session_ok api s2" "bytes_counted s2" "se_request_ready s2" "\<not> se_cancelled s2" "\<not> se_closed s2" by simp_all
  show "incomplete_frame (se_buffer s2)" by (rule await_request_rest [OF conjunct1 [OF a] refl initialize_rest [OF assms(1)]])
  show "\<exists>read. L (se_transport s2) = L t @ read \<and> incoming @ read = HTTP2_PREFACE @ capture_log s2" if l: "logs_reads tr L"
  proof -
    have "L (se_transport s1) = L t" using i(4) [OF logs_reads_keeps [OF l, of _ "L t"]] by (simp add: held_def new_session(4))
    moreover obtain read where "L (se_transport s2) = L (se_transport s1) @ read" "capture_log s2 = capture_log s1 @ read"
      using r l by blast
    ultimately show ?thesis using i(3) [OF env_keeps_True] by auto
  qed
qed

end
