(* ===== verification/Http2_Session_Results.thy ===== *)
theory Http2_Session_Results
  imports Http2_Session_Correct
begin

text \<open>
  The properties of the session, with a small h2 and a small transport at which their hypotheses
  hold.
\<close>

section \<open>Capture and request\<close>

text \<open>Exact capture of the connection: if the session has been initialized with the bytes received so
  far and a request has been received, then those bytes and everything read from the transport since
  are, in order and without loss, the connection preface, the raw bytes of the captured frames, and
  the buffered start of the next frame. The captured frames are well-typed, the first is the client's
  \<open>SETTINGS\<close> frame, whose entries are the recorded initial settings, and the limits on the number of
  frames, of decoded entries and of bytes hold.\<close>

theorem capture_complete:
  assumes "logs_reads tr L" and "initialize api tr incoming (HTTP2Session api t) = (Inr (), s1)"
    and "receive_request api tr s1 = Some (Inr (), s2)"
  shows "(\<exists>read. L (se_transport s2) = L t @ read \<and>
      incoming @ read = HTTP2_PREFACE @ concat (map pf_raw (cap_frames (se_capture s2))) @ se_buffer s2) \<and>
    list_all typed_frame (cap_frames (se_capture s2)) \<and>
    (\<exists>f fs settings entries. cap_frames (se_capture s2) = f # fs \<and> fh_type (pf_header f) = FT_SETTINGS \<and>
       pf_payload f = SettingsPayload False settings entries \<and> cap_initial_settings (se_capture s2) = Some entries) \<and>
    length (cap_frames (se_capture s2)) \<le> MAX_CAPTURE_FRAMES \<and> se_capture_entries s2 \<le> MAX_CAPTURE_ENTRIES \<and>
    length (concat (map pf_raw (cap_frames (se_capture s2))) @ se_buffer s2) \<le> MAX_CAPTURE_BYTES"
proof -
  note r = receive_request_post [OF assms(2,3)]
  have "cap_stream_id (se_capture s2) \<noteq> None"
    using r(1,3) by (auto simp: session_ok_def request_ok_def split: option.splits)
  then have "\<not> se_first_frame s2" using r(1) by (auto simp: session_ok_def first_settings_def)
  with r(1,2) r(6) [OF assms(1)] show ?thesis unfolding session_ok_def bytes_counted_def first_settings_def by auto
qed

text \<open>C8. What a received request satisfies: it has a stream; its header fields pass
  the validation of h2 and of the session, and so do its trailers if it has any; the declared length is the value of
  \<open>content-length\<close>, and neither it nor the number of body bytes exceeds the limit; unless the request is
  a \<open>CONNECT\<close> or has an expectation that is not met, all declared bytes have arrived. The connection is
  open and the request not cancelled.\<close>

theorem request_received:
  assumes "initialize api tr incoming (HTTP2Session api t) = (Inr (), s1)"
    and "receive_request api tr s1 = Some (Inr (), s2)"
  shows "\<exists>i hs. cap_stream_id (se_capture s2) = Some i \<and> cap_headers (se_capture s2) = Some hs \<and>
    validate_fields (h2_validate api) hs False = Inr () \<and>
    (cap_trailers (se_capture s2) = [] \<or> validate_fields (h2_validate api) (cap_trailers (se_capture s2)) True = Inr ()) \<and>
    se_expected_length s2 = map_option bounded_content_length (map_of (dict_of hs) (asc ''content-length'')) \<and>
    se_request_bytes s2 \<le> MAX_REQUEST_BODY \<and>
    (case se_expected_length s2 of None \<Rightarrow> True
     | Some n \<Rightarrow> n \<le> MAX_REQUEST_BODY \<and>
         (n \<le> se_request_bytes s2 \<or> cap_expectation_failed (se_capture s2) \<or>
          map_of (dict_of hs) (asc '':method'') = Some (asc ''CONNECT''))) \<and>
    se_request_ready s2 \<and> \<not> se_cancelled s2 \<and> \<not> se_closed s2"
proof -
  note r = receive_request_post [OF assms]
  then have "request_inv api s2" by (simp add: session_ok_def)
  with r(3-5) show ?thesis unfolding request_ok_def by (auto split: option.splits)
qed

section \<open>The response\<close>

text \<open>An h2 that reports what it was given to send: \<open>led\<close> is the list of the successful calls of \<open>send_data\<close>.\<close>

definition logs_data :: "'h h2_api \<Rightarrow> 't transport \<Rightarrow> ('h \<Rightarrow> (nat \<times> bytes \<times> bool) list) \<Rightarrow> bool" where
  "logs_data api tr led \<longleftrightarrow> (\<forall>l. env_keeps api tr (\<lambda>h _. led h = l)) \<and>
     (\<forall>i d e h h'. h2_send_data api i d e h = (Inr (), h') \<longrightarrow> led h' = led h @ [(i, d, e)])"

lemma logs_data_touched: "touched (\<lambda>h _. led h = led (h2_of s)) s s' \<Longrightarrow> led (h2_of s') = led (h2_of s)"
  by (auto simp: touched_def held_def)

lemma logs_data_read:
  assumes "logs_data api tr led" and "read_and_receive api tr s = (Inr x, s')"
  shows "led (h2_of s') = led (h2_of s)"
proof -
  obtain data t where "\<forall>J. env_keeps api tr J \<longrightarrow> received api J data (s\<lparr>se_transport := t\<rparr>) s'"
    using assms(2) by (rule read_received)
  then have "received api (\<lambda>h _. led h = led (h2_of s)) data (s\<lparr>se_transport := t\<rparr>) s'"
    using assms(1) by (simp add: logs_data_def)
  then show ?thesis by (simp add: received_def session_run_def held_def)
qed

lemma send_chunk_logs:
  assumes l: "logs_data api tr led" and r: "send_chunk api tr i content offset s = (Inr n, s')" and o: "offset < length content"
  shows "n = offset \<and> led (h2_of s') = led (h2_of s) \<or>
    offset < n \<and> n \<le> length content \<and>
      led (h2_of s') = led (h2_of s) @ [(i, slice content offset n, n = length content)]"
proof -
  have k: "env_keeps api tr (\<lambda>h _. led h = l)" for l using assms(1) by (simp add: logs_data_def)
  from r o k [of "led (h2_of s)"] show ?thesis
  proof (cases rule: send_chunk_cases)
    case (wait s1)
    then show ?thesis using logs_data_read [OF l wait(2)] logs_data_touched [OF wait(1)] by simp
  next
    case (send s1 s2)
    obtain h where h: "h2_send_data api i (slice content offset n) (n = length content) (h2_of s1) = (Inr (), h)" "h2_of s2 = h"
      using send(4) by (auto simp: on_connection_def on_h2_def split: prod.splits)
    have "led (h2_of s2) = led (h2_of s) @ [(i, slice content offset n, n = length content)]"
      using h l logs_data_touched [OF send(1)] by (auto simp: logs_data_def)
    moreover have "led (h2_of s') = led (h2_of s2)"
      by (rule logs_data_touched [OF moves_eq [OF touched_flush [OF k] send(5)]])
    ultimately show ?thesis using send(2,3) by simp
  qed
qed

lemma slice_drop: "offset \<le> n \<Longrightarrow> n \<le> length xs \<Longrightarrow> slice xs offset n @ drop n xs = drop offset xs"
  by (simp add: slice_def) (metis append_take_drop_id drop_drop le_add_diff_inverse2)

text \<open>The list of chunks: all of them non-empty, only the last with the end flag.\<close>

definition ends_once :: "(bytes \<times> bool) list \<Rightarrow> bool" where
  "ends_once chunks \<longleftrightarrow> list_all (\<lambda>(d, _). d \<noteq> []) chunks \<and>
     map snd chunks = (if chunks = [] then [] else replicate (length chunks - 1) False @ [True])"

lemma ends_once_Cons:
  "chunks \<noteq> [] \<Longrightarrow> ends_once ((d, False) # chunks) \<longleftrightarrow> d \<noteq> [] \<and> ends_once chunks"
  "ends_once [(d, True)] \<longleftrightarrow> d \<noteq> []"
  by (auto simp: ends_once_def neq_Nil_conv)

lemma send_content_post:
  "send_content api tr i content offset s = Some y \<Longrightarrow> y = (Inr x, s') \<Longrightarrow> logs_data api tr led \<Longrightarrow> offset \<le> length content \<Longrightarrow>
    \<exists>chunks. led (h2_of s') = led (h2_of s) @ map (Pair i) chunks \<and> concat (map fst chunks) = drop offset content \<and> ends_once chunks"
proof (induction arbitrary: x s' rule: send_content.raw_induct [rotated, consumes 1, case_names step])
  case (step send api tr i content offset s y)
  show ?case
  proof (cases "offset < length content")
    case False
    with step(2-) have "s' = s" "drop offset content = []" by auto
    then show ?thesis by (intro exI [of _ "[]"]) (simp add: ends_once_def)
  next
    case True
    with step(2,3) obtain n s1 where c: "send_chunk api tr i content offset s = (Inr n, s1)" and r: "send api tr i content n s1 = Some (Inr x, s')"
      by (auto split: prod.splits sum.splits)
    from send_chunk_logs [OF step(4) c True] show ?thesis
    proof (elim disjE conjE)
      assume "n = offset" "led (h2_of s1) = led (h2_of s)"
      then show ?thesis using step(1) [OF r refl step(4)] True by simp
    next
      assume n: "offset < n" "n \<le> length content" "led (h2_of s1) = led (h2_of s) @ [(i, slice content offset n, n = length content)]"
      obtain chunks where ch: "led (h2_of s') = led (h2_of s1) @ map (Pair i) chunks" "concat (map fst chunks) = drop n content" "ends_once chunks"
        using step(1) [OF r refl step(4) n(2)] by blast
      let ?d = "(slice content offset n, n = length content)"
      have "slice content offset n \<noteq> []" using n(1,2) by (simp add: slice_def)
      moreover have "chunks = [] \<longleftrightarrow> n = length content"
        using ch(2,3) n(2) by (cases chunks) (auto simp: ends_once_def)
      ultimately have "ends_once (?d # chunks)" using ch(3) ends_once_Cons by (cases "n = length content") auto
      moreover have "concat (map fst (?d # chunks)) = drop offset content" using ch(2) slice_drop [of offset n content] n(1,2) by simp
      ultimately show ?thesis using ch(1) n(3) by (intro exI [of _ "?d # chunks"]) simp
    qed
  qed
qed

lemma send_response_complete:
  assumes "logs_data api tr led" and "send_response api tr content headers status_code s = Some (Inr (), s')"
  shows "\<exists>i chunks. cap_stream_id (se_capture s) = Some i \<and> se_request_ready s \<and> \<not> se_cancelled s \<and> \<not> se_closed s \<and>
    led (h2_of s') = led (h2_of s) @ map (Pair i) chunks \<and>
    concat (map fst chunks) = (if bodiless status_code then [] else content) \<and> ends_once chunks"
proof -
  obtain c h where p: "prepare_response content headers status_code = (c, h)" by fastforce
  have c: "c = (if bodiless status_code then [] else content)" using p by (auto simp: prepare_response_def Let_def split: if_splits)
  obtain i s1 where s1: "start_response api tr c h status_code s = (Inr i, s1)" "send_content api tr i c 0 s1 = Some (Inr (), s')"
    using assms(2) by (auto simp: send_response_def p split: prod.splits sum.splits)
  from s1(1) obtain fs where i: "cap_stream_id (se_capture s) = Some i" "se_request_ready s" "\<not> se_cancelled s" "\<not> se_closed s"
      "bindM (on_connection (on_h2 (h2_send_headers api i fs (c = [])))) (\<lambda>_. flush api tr) s = (Inr (), s1)"
    unfolding start_response_def bindM_eq_Inr check_cancelled_eq getsM_def
    by (auto simp: raise_def ret_def bindM_eq_Inr split: if_splits option.splits)
  have k: "env_keeps api tr (\<lambda>h _. led h = led (h2_of s))" using assms(1) by (simp add: logs_data_def)
  have "moves (touched (\<lambda>h _. led h = led (h2_of s)))
      (bindM (on_connection (on_h2 (h2_send_headers api i fs (c = [])))) (\<lambda>_. flush api tr))"
    by (intro tch.bind touched_h2 touched_flush keeps_h2(1) [OF k] k)
  from logs_data_touched [OF moves_eq [OF this i(5)]] send_content_post [OF s1(2) refl assms(1)] i(1-4) c show ?thesis by auto
qed

text \<open>The response arrives complete: if \<open>send_response\<close> returns, then h2 was given, on the stream of the
  request and in order, exactly the content to send (none for a status without content), in non-empty
  chunks of which the last and only the last ends the stream.\<close>

theorem response_complete:
  assumes "logs_data api tr led" and "send_response api tr content headers status_code s = Some (Inr (), s')"
  shows "\<exists>i chunks. cap_stream_id (se_capture s) = Some i \<and> se_request_ready s \<and> \<not> se_cancelled s \<and> \<not> se_closed s \<and>
    led (h2_of s') = led (h2_of s) @ map (Pair i) chunks \<and>
    concat (map fst chunks) = (if bodiless status_code then [] else content) \<and> ends_once chunks"
  by (rule send_response_complete [OF assms])

section \<open>A small connection\<close>

text \<open>An h2 that reports one request for every \<open>HEADERS\<close> frame, lets two bytes of data pass at a time and
  logs them; a transport that reads from a list and logs what it has read.\<close>

definition small_api :: "(nat \<times> bytes \<times> bool) list h2_api" where
  "small_api = \<lparr>h2_new = (\<lambda>_ _. []), h2_initiate_connection = ret (),
     h2_receive_data = (\<lambda>frame. ret (if frame ! 3 = 1 then [RequestReceived 1 [] True, StreamEnded 1] else [])),
     h2_data_to_send = (\<lambda>h. ([], h)),
     h2_close_connection = (\<lambda>_ _. ret ()), h2_send_headers = (\<lambda>_ _ _. ret ()),
     h2_send_data = (\<lambda>i d e h. (Inr (), h @ [(i, d, e)])),
     h2_reset_stream = (\<lambda>_ _. ret ()), h2_acknowledge = (\<lambda>_ _. ret ()), h2_flow_window = (\<lambda>_. ret 2),
     h2_max_outbound_frame_size = (\<lambda>_. 16384), h2_max_inbound_frame_size = (\<lambda>_. 65536),
     h2_highest_inbound = (\<lambda>_. 0), h2_highest_outbound = (\<lambda>_. 0), h2_open_inbound = (\<lambda>h. (0, h)),
     h2_stream_closed = (\<lambda>_ _. None), h2_max_concurrent = (\<lambda>_. 100), h2_header_table_size = (\<lambda>_. 4096),
     h2_setting_codes = [1, 2, 3, 4, 5, 6, 8], h2_original_headers = (\<lambda>_. sample_fields), h2_validate = sample_validator\<rparr>"

definition small_transport :: "(bytes list \<times> bytes) transport" where
  "small_transport =
     \<lparr>tr_read = (\<lambda>(todo, got). case todo of [] \<Rightarrow> (Inr [], ([], got)) | d # ds \<Rightarrow> (Inr d, (ds, got @ d))),
      tr_write = (\<lambda>_. ret ())\<rparr>"

definition small_settings :: bytes where "small_settings = [0, 0, 6, 4, 0, 0, 0, 0, 0, 0, 3, 0, 0, 0, 100]"
definition small_headers :: bytes where "small_headers = [0, 0, 1, 1, 5, 0, 0, 0, 1, 130]"

definition settings_frame :: parsed_frame where
  "settings_frame = \<lparr>pf_header = \<lparr>fh_length = 6, fh_type = 4, fh_flags = 0, fh_stream_id = 0\<rparr>,
     pf_payload = SettingsPayload False (Some [(3, 100)]) [(3, 100)], pf_raw = small_settings\<rparr>"

definition headers_frame :: parsed_frame where
  "headers_frame = \<lparr>pf_header = \<lparr>fh_length = 1, fh_type = 1, fh_flags = 5, fh_stream_id = 1\<rparr>,
     pf_payload = HeadersPayload [130] None True True False, pf_raw = small_headers\<rparr>"

lemma small_reads:
  "parse_frame (HTTP2FrameReader small_settings 65536 False True (Some 1024)) =
     (Inr settings_frame, (HTTP2FrameReader small_settings 65536 False True (Some 1024))\<lparr>fr_pos := 15, fr_entries_read := 1\<rparr>)"
  "parse_frame (HTTP2FrameReader small_headers 65536 False True (Some 1023)) =
     (Inr headers_frame, (HTTP2FrameReader small_headers 65536 False True (Some 1023))\<lparr>fr_pos := 10\<rparr>)"
  by (simp_all add: small_settings_def small_headers_def settings_frame_def headers_frame_def frame_eval parse_settings_def
    reserve_entries_def check_setting_def dict_of_def parse_headers_def)

definition small_session :: "'t \<Rightarrow> ((nat \<times> bytes \<times> bool) list, 't) session" where
  "small_session t = (HTTP2Session small_api t)\<lparr>se_initialized := True, se_first_frame := False, se_capture_bytes := 15, se_capture_entries := 1,
     se_capture := HTTP2Capture\<lparr>cap_frames := [settings_frame], cap_initial_settings := Some [(3, 100)]\<rparr>\<rparr>"

definition small_request :: "'t \<Rightarrow> ((nat \<times> bytes \<times> bool) list, 't) session" where
  "small_request t = (small_session t)\<lparr>se_capture_bytes := 25, se_request_ready := True,
     se_capture := (se_capture (small_session t))\<lparr>cap_frames := [settings_frame, headers_frame], cap_stream_id := Some 1,
       cap_headers := Some sample_fields\<rparr>\<rparr>"

lemma small_logs: "logs_reads small_transport snd" "logs_data small_api small_transport id"
  by (auto simp: logs_reads_def logs_data_def env_keeps_def meth_keeps_def small_transport_def small_api_def ret_def
    split: list.splits)

lemma small_settings_frame: "build_settings_frame (Some [(3, 100)]) False = Inr small_settings"
  by (simp add: build_settings_frame_def build_frame_def pack_setting_def small_settings_def be_bytes_literals)

lemmas small_eval = bindM_def getsM_def modifyM_def ret_def handleM_def on_connection_def on_transport_def on_h2_def flush_def
  data_to_send_def receive_data_def check_cancelled_eq Let_def

lemmas small_defs = small_session_def small_request_def HTTP2Session_def HTTP2Capture_def small_eval

lemma small_ops:
  "h2_new small_api ls n = []" "h2_initiate_connection small_api = ret ()"
  "h2_receive_data small_api frame = ret (if frame ! 3 = 1 then [RequestReceived 1 [] True, StreamEnded 1] else [])"
  "h2_data_to_send small_api h = ([], h)" "h2_open_inbound small_api h = (0, h)" "h2_max_concurrent small_api h = 100"
  "h2_send_headers small_api i fs e = ret ()" "h2_flow_window small_api i = ret 2"
  "h2_send_data small_api i d e h = (Inr (), h @ [(i, d, e)])" "h2_max_outbound_frame_size small_api h = 16384"
  "h2_max_inbound_frame_size small_api h = 65536" "h2_setting_codes small_api = [1, 2, 3, 4, 5, 6, 8]"
  "h2_original_headers small_api h = sample_fields" "h2_validate small_api = sample_validator"
  by (simp_all add: small_api_def)

lemma small_first_frame:
  "process_frame small_api tr settings_frame small_settings
     ((small_session t)\<lparr>se_first_frame := True, se_capture := (se_capture (small_session t))\<lparr>cap_initial_settings := None\<rparr>\<rparr>) = (Inr (), small_session t)"
  by (simp add: process_frame_def check_first_frame_def check_continuation_def count_header_block_def settings_frame_def
    dispatch_frame_def check_reset_def forward_frame_def wire_for_h2_def settings_entries_def deliver_def apply_settings_def
    small_defs small_ops has_flag_def MAX_HEADER_TABLE_SIZE_CHANGES_def receive_settings_def dict_of_def small_settings_frame
    small_settings_def)

lemma small_validated: "validate_event small_api tr sample_fields False = ret ()"
  by (simp add: validate_event_def small_ops sample_fields_valid)

lemma small_fields: "map_of (dict_of sample_fields) (asc ''content-length'') = None"
  "map_of (dict_of sample_fields) (asc '':method'') = Some (asc ''GET'')" "expectations_of sample_fields = Inr []"
  by code_simp+

lemma small_second_frame:
  "process_frame small_api tr headers_frame small_headers
     ((small_request t)\<lparr>se_request_ready := False, se_capture := (se_capture (small_request t))\<lparr>cap_stream_id := None, cap_headers := None\<rparr>\<rparr>) =
     (Inr (), small_request t)"
  by (simp add: process_frame_def check_first_frame_def check_continuation_def count_header_block_def headers_frame_def
    dispatch_frame_def check_reset_def forward_frame_def wire_for_h2_def settings_entries_def deliver_def
    small_defs small_ops has_flag_def MAX_HEADER_LIST_SIZE_def small_headers_def check_priority_limit_def small_validated
    accept_request_def declare_length_def meet_expectations_def small_fields)

lemma small_lengths:
  "length small_settings = 15" "be_nat (take 3 small_settings) = 6" "small_settings \<noteq> []"
  "length small_headers = 10" "be_nat (take 3 small_headers) = 1" "small_headers \<noteq> []"
  by (simp_all add: small_settings_def small_headers_def be_nat_def)

lemma small_receive_first:
  "receive_frame small_api tr ((HTTP2Session small_api t)\<lparr>se_initialized := True, se_capture_bytes := 15, se_buffer := small_settings\<rparr>) =
     (Inr True, small_session t)"
  using small_first_frame [of tr t] small_reads(1)
  by (simp add: receive_frame_def small_defs small_ops small_lengths MAX_CAPTURE_ENTRIES_def MAX_CAPTURE_FRAMES_def HTTP2FrameReader_def)

lemma small_receive_second:
  "receive_frame small_api tr
     ((small_session t)\<lparr>se_capture_bytes := 25, se_buffer := small_headers\<rparr>) = (Inr True, small_request t)"
  using small_second_frame [of tr t] small_reads(2)
  by (simp add: receive_frame_def small_defs small_ops small_lengths MAX_CAPTURE_ENTRIES_def MAX_CAPTURE_FRAMES_def HTTP2FrameReader_def)

lemma small_idle:
  "receive_frame small_api tr (small_session t) = (Inr False, small_session t)"
  "receive_frame small_api tr (small_request t) = (Inr False, small_request t)"
  by (simp_all add: receive_frame_def small_defs)

lemma receive_frames_turns:
  "receive_frame api tr s = (Inr True, s1) \<Longrightarrow> receive_frame api tr s1 = (Inr False, s2) \<Longrightarrow>
     length (se_buffer s1) < length (se_buffer s) \<Longrightarrow> receive_frames api tr s = (Inr (), s2)"
  by (simp add: receive_frames.simps [of _ _ s] receive_frames.simps [of _ _ s1])

lemma small_buffers: "se_buffer (small_session t) = []" "se_buffer (small_request t) = []"
  by (simp_all add: small_session_def small_request_def HTTP2Session_def)

lemma small_frames:
  "receive_frames small_api tr ((HTTP2Session small_api t)\<lparr>se_initialized := True, se_capture_bytes := 15, se_buffer := small_settings\<rparr>) =
     (Inr (), small_session t)"
  "receive_frames small_api tr
     ((small_session t)\<lparr>se_capture_bytes := 25, se_buffer := small_headers\<rparr>) = (Inr (), small_request t)"
  by (rule receive_frames_turns [OF small_receive_first small_idle(1)], simp add: small_buffers small_lengths,
    rule receive_frames_turns [OF small_receive_second small_idle(2)], simp add: small_buffers small_lengths)

lemma small_initialized:
  "initialize small_api tr (HTTP2_PREFACE @ small_settings) (HTTP2Session small_api t) = (Inr (), small_session t)"
proof -
  have "receive small_api tr small_settings ((HTTP2Session small_api t)\<lparr>se_initialized := True\<rparr>) = (Inr (), small_session t)"
    using small_frames(1) [of tr t]
    by (simp add: receive_def small_lengths small_defs small_ops MAX_CAPTURE_BYTES_def)
  then show ?thesis
    by (simp add: initialize_def guardM_def starts_with_def small_lengths small_defs small_ops)
qed

lemma small_received:
  assumes "tr_read tr t = (Inr small_headers, t')"
  shows "receive_request small_api tr (small_session t) = Some (Inr (), small_request t')"
proof -
  have "read_and_receive small_api tr (small_session t) = (Inr (), small_request t')"
    using small_frames(2) [of tr t'] assms
    by (simp add: read_and_receive_def receive_def small_lengths small_defs small_ops MAX_CAPTURE_BYTES_def)
  moreover have "\<not> se_request_ready (small_session t)" "se_request_ready (small_request t')" "\<not> se_cancelled (small_request t')"
    "\<not> se_closed (small_request t')"
    by (simp_all add: small_session_def small_request_def HTTP2Session_def)
  ultimately show ?thesis
    unfolding receive_request_returns
    by (simp add: await_request.simps [of _ _ "small_session t"] await_request.simps [of _ _ "small_request t'"])
qed

lemmas small_run = small_initialized [where tr = small_transport and t = "([small_headers], [])"]
  small_received [where tr = small_transport and t = "([small_headers], [])" and t' = "([], small_headers)",
    unfolded small_transport_def, simplified, folded small_transport_def]

lemma send_content_turn:
  "send_chunk api tr i content offset s = (Inr n, s1) \<Longrightarrow> offset < length content \<Longrightarrow>
     send_content api tr i content offset s = send_content api tr i content n s1"
  by (simp add: send_content.simps [of _ _ _ _ offset])

definition small_answered :: "(nat \<times> bytes \<times> bool) list \<Rightarrow> 't \<Rightarrow> ((nat \<times> bytes \<times> bool) list, 't) session" where
  "small_answered l t = (small_request t)\<lparr>se_connection := (se_connection (small_request t))\<lparr>ad_h2 := l\<rparr>\<rparr>"

lemma small_chunks:
  "send_chunk small_api tr 1 [1, 2, 3] 0 (small_answered [] t) = (Inr 2, small_answered [(1, [1, 2], False)] t)"
  "send_chunk small_api tr 1 [1, 2, 3] 2 (small_answered [(1, [1, 2], False)] t) =
     (Inr 3, small_answered [(1, [1, 2], False), (1, [3], True)] t)"
  by (simp_all add: send_chunk_def small_answered_def small_defs small_ops slice_def)

lemma small_response:
  "send_response small_api tr [1, 2, 3] None 200 (small_request t) =
     Some (Inr (), small_answered [(1, [1, 2], False), (1, [3], True)] t)"
proof -
  have "start_response small_api tr [1, 2, 3] hs 200 (small_request t) = (Inr 1, small_answered [] t)" for hs
    by (simp add: start_response_def small_answered_def small_defs small_ops)
  then show ?thesis
    by (simp add: send_response_def prepare_response_def bodiless_def Let_def send_content_turn [OF small_chunks(1) [unfolded One_nat_def]]
      send_content_turn [OF small_chunks(2) [unfolded One_nat_def]] send_content.simps [of _ _ _ _ 3])
qed

theorem capture_complete_witness:
  "\<exists>read. small_headers = read \<and>
     HTTP2_PREFACE @ small_settings @ read =
       HTTP2_PREFACE @ concat (map pf_raw (cap_frames (se_capture (small_request ([] :: bytes list, small_headers))))) @ se_buffer (small_request ([] :: bytes list, small_headers))"
  using capture_complete [OF small_logs(1) small_run] by (auto simp: small_request_def small_session_def HTTP2Session_def)

theorem request_received_witness:
  "\<exists>hs. cap_headers (se_capture (small_request ([] :: bytes list, small_headers))) = Some hs \<and> validate_fields sample_validator hs False = Inr ()"
  using request_received [OF small_run] by (auto simp: small_ops)

theorem response_complete_witness:
  "\<exists>i chunks. cap_stream_id (se_capture (small_request ())) = Some i \<and>
     [(1, [1, 2], False), (1, [3], True)] = map (Pair i) chunks \<and> concat (map fst chunks) = [1, 2, 3] \<and> ends_once chunks"
  using response_complete [OF small_logs(2) small_response [where t = "([], [])"]]
  by (auto simp: small_answered_def small_request_def small_session_def HTTP2Session_def small_ops bodiless_def)

end
