(* ===== verification/Connection_Correct.thy ===== *)
theory Connection_Correct
  imports Connection Tls_Stream_Correct Http2_Session_Results Http1_Correct
begin

text \<open>
  A connection from its first decrypted byte to its close. What the client has sent, as OpenSSL hands it
  out, is what the connection reports: for HTTP/2 the preface and the captured frames, for HTTP/1.1 the
  request head. Closing always closes the TCP connection.
\<close>

section \<open>Plaintext\<close>

lemma wp_liftR [wp_simps]: "wp (liftR r) Q E s = (case r of Inl e \<Rightarrow> E e s | Inr x \<Rightarrow> Q x s)"
  by (simp add: wp_def liftR_def)

text \<open>The plaintext handed out so far. Only \<open>SSLObject.read\<close> adds to it.\<close>

definition logs_plaintext :: "'e net_api \<Rightarrow> ('e \<Rightarrow> bytes) \<Rightarrow> bool" where
  "logs_plaintext net plain \<longleftrightarrow>
     (\<forall>n e. case ssl_read net n e of (Inr d, e') \<Rightarrow> plain e' = plain e @ d | (Inl _, e') \<Rightarrow> plain e' = plain e) \<and>
     (\<forall>d e. plain (snd (net_write net d e)) = plain e) \<and> (\<forall>e. plain (snd (net_drain net e)) = plain e) \<and>
     (\<forall>n e. plain (snd (net_read net n e)) = plain e) \<and> (\<forall>d e. plain (snd (bio_write net d e)) = plain e) \<and>
     (\<forall>e. plain (snd (bio_read net e)) = plain e) \<and> (\<forall>d e. plain (snd (ssl_write net d e)) = plain e) \<and>
     (\<forall>e. plain (snd (ssl_unwrap net e)) = plain e)"

definition same_plain :: "('e \<Rightarrow> bytes) \<Rightarrow> 'e tls \<Rightarrow> 'e tls \<Rightarrow> bool" where
  "same_plain plain s s' \<longleftrightarrow> plain (tl_env s') = plain (tl_env s)"

interpretation pln: step_relation "same_plain plain" for plain
  by unfold_locales (simp_all add: same_plain_def)

lemma plain_env: "(\<And>e. plain (snd (m e)) = plain e) \<Longrightarrow> moves (same_plain plain) (on_env m)"
  by (simp add: moves_def same_plain_def on_env_def split: prod.splits) (metis snd_conv)

lemma plain_update: "(\<And>s. tl_env (f s) = tl_env s) \<Longrightarrow> moves (same_plain plain) (modifyM f)"
  by (simp add: moves_def same_plain_def modifyM_def)

lemma plain_ops:
  assumes "logs_plaintext net plain"
  shows "moves (same_plain plain) (on_env (net_write net d))" "moves (same_plain plain) (on_env (net_drain net))"
    "moves (same_plain plain) (on_env (net_read net n))" "moves (same_plain plain) (on_env (bio_write net d))"
    "moves (same_plain plain) (on_env (bio_read net))" "moves (same_plain plain) (on_env (ssl_write net d))"
    "moves (same_plain plain) (on_env (ssl_unwrap net))"
  using assms by (auto simp: logs_plaintext_def intro!: plain_env)

lemma plain_outgoing: "logs_plaintext net plain \<Longrightarrow> moves (same_plain plain) (handle_outgoing_data net)"
  unfolding handle_outgoing_data_def by (intro pln.loop pln.intros plain_ops)

lemma plain_answer: "logs_plaintext net plain \<Longrightarrow> moves (same_plain plain) (answer_peer_close net)"
  unfolding answer_peer_close_def by (intro pln.intros plain_ops plain_outgoing plain_update) simp_all

lemma plain_write: "logs_plaintext net plain \<Longrightarrow> moves (same_plain plain) (tls_write net content)"
  unfolding tls_write_def by (intro pln.intros plain_ops plain_outgoing plain_answer)

lemma drain_plaintext_wp:
  assumes "logs_plaintext net plain"
  shows "wp (drain_plaintext net) (\<lambda>d s'. plain (tl_env s') = plain (tl_env s) @ d) (\<lambda>_ _. True) s"
  unfolding drain_plaintext_def
proof (rule wp_loop_partial [where I = "\<lambda>chunks s'. plain (tl_env s') = plain (tl_env s) @ concat chunks"], goal_cases)
  case (3 chunks s1)
  have r: "wp (ssl_read net n) (\<lambda>d e. plain e = plain (tl_env s1) @ d) (\<lambda>_ e. plain e = plain (tl_env s1)) (tl_env s1)" for n
    using assms unfolding logs_plaintext_def wp_def by (auto split: prod.splits sum.splits)
  show ?case unfolding wp_simps by (rule wp_mono [OF r]) (simp_all add: 3 wp_simps)
qed simp_all

lemma tls_read_wp:
  assumes l: "logs_plaintext net plain"
  shows "wp (tls_read net n) (\<lambda>d s'. plain (tl_env s') = plain (tl_env s) @ d \<and> d \<noteq> []) (\<lambda>_ _. True) s"
  unfolding tls_read_def
proof (rule wp_loop_partial [where I = "\<lambda>_. same_plain plain s"], goal_cases)
  case (3 x s1)
  have "moves (same_plain plain) (handleM (on_env (net_read net (min n PLAINTEXT_CHUNK_SIZE)))
          (\<lambda>e. raise (if e = TimeoutError then ConnectionResetError ''Read timeout'' else e)))"
    by (intro pln.intros plain_ops [OF l])
  note m = this plain_outgoing [OF l] plain_answer [OF l] plain_ops(4) [OF l]
  show ?case unfolding wp_bind [of "drain_plaintext net"]
  proof (rule wp_mono [OF drain_plaintext_wp [OF l]], goal_cases)
    case (1 d s2)
    with 3 show ?case
      by (auto simp: wp_bind wp_access wp_return same_plain_def intro!: pln.wp_moves [OF m(1)] pln.wp_moves [OF m(2)]
         pln.wp_moves [OF m(3)] pln.wp_moves [OF m(4)])
  qed simp
qed (simp_all add: same_plain_def)


lemma http2_transport_logs: "logs_plaintext net plain \<Longrightarrow> logs_reads (http2_transport net) (\<lambda>s. plain (tl_env s))"
  using plain_write [of net plain] wpD(1) [OF tls_read_wp, of net plain 4096]
  by (auto simp: logs_reads_def http2_transport_def moves_def same_plain_def)

lemma read_protocol_preface_wp:
  assumes "logs_plaintext net plain"
  shows "wp (read_protocol_preface net) (\<lambda>d s'. plain (tl_env s') = plain (tl_env s) @ d) (\<lambda>_ _. True) s"
  unfolding read_protocol_preface_def
proof (rule wp_loop_partial [where I = "\<lambda>d s'. plain (tl_env s') = plain (tl_env s) @ d"], goal_cases)
  case (3 d s1)
  then show ?case
    by (auto simp: wp_bind wp_return Let_def intro!: wp_mono [OF tls_read_wp [OF assms]])
qed simp_all

text \<open>The request head, up to and including the first empty line.\<close>

definition is_head :: "bytes \<Rightarrow> bool" where
  "is_head head \<longleftrightarrow> length head \<le> MAX_HEAD_SIZE \<and> find_sub HEAD_END head = Some (length head - 4)"

lemma read_http1_head_wp:
  assumes "logs_plaintext net plain" and "plain (tl_env s) = before @ first"
  shows "wp (read_http1_head net first) (\<lambda>head s'. is_head head \<and> prefix (before @ head) (plain (tl_env s'))) (\<lambda>_ _. True) s"
  unfolding read_http1_head_def
proof (rule wp_loop_partial [where I = "\<lambda>d s'. plain (tl_env s') = before @ d"], goal_cases)
  case (3 d s1)
  show ?case
  proof (cases "check_head_size d True")
    case (Inl e)
    then show ?thesis by (simp add: wp_def bindM_def liftR_def)
  next
    case (Inr u)
    show ?thesis
    proof (cases "find_sub HEAD_END d")
      case None
      with Inr 3 show ?thesis
        by (auto simp: wp_liftR wp_bind wp_return intro!: wp_mono [OF tls_read_wp [OF assms(1)]])
    next
      case (Some i)
      have "is_head (take (i + 4) d)"
        using check_head_size_ok [OF Some, of True] Inr find_sub_take [OF Some le_refl] find_sub_bound [OF Some]
        by (simp add: is_head_def MAX_HEAD_SIZE_def)
      with Some Inr 3 show ?thesis
        by (simp add: wp_def bindM_def liftR_def ret_def take_is_prefix)
    qed
  qed
qed (use assms in simp_all)


section \<open>From the handshake to the request\<close>

lemma with_timeout_Inr [simp]: "with_timeout m c = (Inr x, c') \<longleftrightarrow> m c = (Inr x, c')"
  by (auto simp: with_timeout_def handleM_def raise_def split: prod.splits sum.splits)

lemma on_tls_Inr: "on_tls m c = (Inr x, c') \<longleftrightarrow> (\<exists>t. m (cl_tls c) = (Inr x, t) \<and> c' = c\<lparr>cl_tls := t\<rparr>)"
  by (auto simp: on_tls_def split: prod.splits)

lemma on_session_Inr:
  "on_session x m c = (Inr y, c') \<longleftrightarrow>
     (\<exists>s s1. cl_session c = Some s \<and> m (s\<lparr>se_transport := cl_tls c\<rparr>) = (Inr y, s1) \<and> c' = c\<lparr>cl_session := Some s1, cl_tls := se_transport s1\<rparr>)"
  by (auto simp: on_session_def lend_def split: prod.splits option.splits)

lemma totalM_Inr: "totalM f s = (Inr x, s') \<longleftrightarrow> f s = Some (Inr x, s')"
  by (auto simp: totalM_def split: option.splits)

lemma new_session_transport: "(HTTP2Session api t)\<lparr>se_transport := t\<rparr> = HTTP2Session api t"
  by (simp add: HTTP2Session_def)

lemma handle_http_http2E:
  assumes "handle_http api net c = (Inr x, c')" and "ssl_alpn net (tl_env (cl_tls c)) = Some ''h2''"
  obtains incoming t s1 s2 where "read_protocol_preface net (cl_tls c) = (Inr incoming, t)"
    "initialize api (http2_transport net) incoming (HTTP2Session api t) = (Inr (), s1)"
    "receive_request api (http2_transport net) s1 = Some (Inr (), s2)"
    "c' = c\<lparr>cl_http_version := Some ''HTTP/2.0'', cl_session := Some s2, cl_tls := se_transport s2\<rparr>"
  using assms unfolding handle_http_def
  by (auto simp: bindM_eq_Inr getsM_def modifyM_def on_tls_Inr on_session_Inr totalM_Inr new_session_transport
      split: if_splits)

lemma handle_http_http1E:
  assumes "handle_http api net c = (Inr x, c')" and "ssl_alpn net (tl_env (cl_tls c)) \<noteq> Some ''h2''"
  obtains first t1 head t2 request where "tls_read net 4096 (cl_tls c) = (Inr first, t1)"
    "read_http1_head net first t1 = (Inr head, t2)" "parse_request head = Inr request"
    "c' = c\<lparr>cl_http_version := Some ''HTTP/1.1'', cl_tls := t2, cl_http1_raw_head := Some head, cl_http1 := Some request\<rparr>"
  using assms unfolding handle_http_def
  by (auto simp: bindM_eq_Inr getsM_def modifyM_def on_tls_Inr liftR_def)


section \<open>Closing\<close>

lemma ends_lift:
  "ends m \<Longrightarrow> ends (on_env m)" "ends m1 \<Longrightarrow> ends (on_transport m1)" "ends m2 \<Longrightarrow> ends (on_h2 m2)" "ends m3 \<Longrightarrow> ends (on_connection m3)"
  "ends m4 \<Longrightarrow> ends (on_tls m4)" "x \<noteq> Diverges \<Longrightarrow> ends m5 \<Longrightarrow> ends (on_session x m5)"
  by (auto simp: ends_def wp_def on_env_def on_transport_def on_h2_def on_connection_def on_tls_def on_session_def
      split: prod.splits sum.splits option.splits)

lemmas ends_intros = ends_simple(1-3) ends_bind ends_handle ends_branch ends_prod ends_lift

text \<open>
  An environment whose operations end: OpenSSL hands out what it has to send in finitely many pieces, and
  the peer sends only finitely much before it is read to its end or the time is over.
\<close>

definition bounded_env :: "'e net_api \<Rightarrow> ('e \<Rightarrow> nat) \<Rightarrow> ('e \<Rightarrow> nat) \<Rightarrow> bool" where
  "bounded_env net queued left \<longleftrightarrow>
     ends (bio_read net) \<and> ends (net_drain net) \<and> ends (net_write_eof net) \<and> ends (ssl_unwrap net) \<and>
     ends (net_close net) \<and> ends (net_wait_closed net) \<and>
     (\<forall>d. ends (net_write net d) \<and> ends (ssl_write net d)) \<and> (\<forall>n. ends (net_read net n)) \<and>
     (\<forall>e. bio_pending net e \<longrightarrow> queued (snd (bio_read net e)) < queued e) \<and>
     (\<forall>d e. queued (snd (net_write net d e)) = queued e) \<and> (\<forall>e. queued (snd (net_drain net e)) = queued e) \<and>
     (\<forall>n e d e'. net_read net n e = (Inr d, e') \<longrightarrow> d \<noteq> [] \<longrightarrow> left e' < left e)"

lemma ends_outgoing:
  assumes "bounded_env net queued left"
  shows "ends (handle_outgoing_data net)"
  unfolding ends_def handle_outgoing_data_def
proof (rule allI, rule wp_loop [where I = "\<lambda>_ _. True" and m = "\<lambda>_ s. queued (tl_env s)"], goal_cases)
  case (2 s0 x s)
  have r: "bio_pending net e \<Longrightarrow> wp (bio_read net) (\<lambda>_ e'. queued e' < queued e) (\<lambda>e _. e \<noteq> Diverges) e" for e
    using assms by (intro ends_snd) (simp_all add: bounded_env_def)
  have w: "wp (net_write net d) (\<lambda>_ e'. queued e' = queued e) (\<lambda>e _. e \<noteq> Diverges) e" for d e
    using assms by (intro ends_snd) (simp_all add: bounded_env_def)
  have d: "wp (net_drain net) (\<lambda>_ e'. queued e' = queued e) (\<lambda>e _. e \<noteq> Diverges) e" for e
    using assms by (intro ends_snd) (simp_all add: bounded_env_def)
  show ?case
    by (auto simp: wp_simps intro!: wp_mono [OF r] wp_mono [OF w] wp_mono [OF d] split: if_splits)
qed simp


lemma ends_drain_peer:
  assumes "bounded_env net queued left"
  shows "ends (drain_peer net)"
  unfolding ends_def drain_peer_def
proof (rule allI, rule wp_loop [where I = "\<lambda>_ _. True" and m = "\<lambda>_ s. left (tl_env s)"], goal_cases)
  case (2 s0 x s)
  have r: "wp (net_read net n) (\<lambda>d e'. d \<noteq> [] \<longrightarrow> left e' < left e) (\<lambda>e _. e \<noteq> Diverges) e" for n e
    using assms unfolding bounded_env_def ends_def wp_def by (auto split: prod.splits sum.splits)
  show ?case by (auto simp: wp_simps intro!: wp_mono [OF r])
qed simp

text \<open>\<open>over\<close> is any property of a closed TCP connection.\<close>

definition closes :: "'e net_api \<Rightarrow> ('e \<Rightarrow> bool) \<Rightarrow> bool" where
  "closes net over \<longleftrightarrow>
     (\<forall>e. net_is_closing net e \<longrightarrow> over e) \<and> (\<forall>e e'. net_close net e = (Inr (), e') \<longrightarrow> over e') \<and>
     (\<forall>e e'. net_wait_closed net e = (Inr (), e') \<longrightarrow> over e \<longrightarrow> over e') \<and>
     (\<forall>e. fst (net_abort net e) = Inr () \<and> over (snd (net_abort net e)))"

lemma abort_wp: "closes net over \<Longrightarrow> wp (net_abort net) (\<lambda>_. over) E e"
  by (auto simp: closes_def wp_def split: prod.splits sum.splits) (metis fst_conv old.sum.distinct(2), metis snd_conv)

lemma close_transport_wp:
  assumes "closes net over" "bounded_env net queued left"
  shows "wp (close_transport net) (\<lambda>_ s. over (tl_env s)) (\<lambda>x s. over (tl_env s) \<and> (\<exists>b. x = CancelledError b)) s"
proof -
  let ?m = "bindM (getsM (\<lambda>s. net_is_closing net (tl_env s))) (\<lambda>closing.
        bindM (if \<not> closing then on_env (net_close net) else ret ()) (\<lambda>_. on_env (net_wait_closed net)))"
  have c: "wp (net_close net) (\<lambda>_. over) (\<lambda>x _. x \<noteq> Diverges) e" for e
    using assms unfolding closes_def bounded_env_def ends_def wp_def by (auto split: prod.splits sum.splits)
  have w: "over e \<Longrightarrow> wp (net_wait_closed net) (\<lambda>_. over) (\<lambda>x _. x \<noteq> Diverges) e" for e
    using assms unfolding closes_def bounded_env_def ends_def wp_def by (auto split: prod.splits sum.splits)
  have m: "wp ?m (\<lambda>_ s. over (tl_env s)) (\<lambda>x _. x \<noteq> Diverges) s"
    using assms(1) unfolding closes_def by (auto simp: wp_simps intro!: wp_mono [OF c] wp_mono [OF w] w)
  show ?thesis unfolding close_transport_def wp_handle
  proof (rule wp_mono [OF m], goal_cases)
    case (2 x s1)
    then show ?case by (cases x) (auto simp: wp_simps intro!: wp_mono [OF abort_wp [where E = "\<lambda>_ _. False", OF assms(1)]])
  qed
qed


lemma ends_env:
  assumes "bounded_env net queued left"
  shows "ends (net_write_eof net)" "ends (ssl_unwrap net)" "ends (ssl_write net d)"
  using assms by (simp_all add: bounded_env_def)

lemma ends_tls_write: "bounded_env net queued left \<Longrightarrow> ends (tls_write net d)"
  unfolding tls_write_def answer_peer_close_def by (intro ends_intros ends_simple(4)) (erule ends_env ends_outgoing | simp)+

lemma ends_close_session:
  assumes "bounded_env net queued left" and "\<And>code i. ends (h2_close_connection api code i)"
  shows "ends (close_session api (http2_transport net) code)"
proof -
  have "ends (data_to_send api)" by (auto simp: ends_def wp_def data_to_send_def split: prod.splits)
  then show ?thesis unfolding close_session_def flush_def
    by (intro ends_intros assms(2)) (simp_all add: http2_transport_def ends_tls_write [OF assms(1)])
qed

lemma suppress_wp: "ends m \<Longrightarrow> (\<And>s. Q () s) \<Longrightarrow> (\<And>b s. E (CancelledError b) s) \<Longrightarrow> wp (suppress_errors m) Q E s"
  unfolding suppress_errors_def wp_handle by (erule ends_wp) (auto simp: wp_simps elim!: is_Exception.elims)


lemma wp_finally [wp_simps]:
  "wp (finallyM m f) Q E s =
     wp m (\<lambda>x. wp f (\<lambda>_. Q x) E) (\<lambda>e. if e = Diverges then E e else wp f (\<lambda>_. E e) E) s"
  by (auto simp: finallyM_def wp_def tryM_def bindM_def liftR_def raise_def split: prod.splits sum.splits)

lemma wp_tls [wp_simps]:
  "wp (on_tls m) Q E c = wp m (\<lambda>x t. Q x (c\<lparr>cl_tls := t\<rparr>)) (\<lambda>x t. E x (c\<lparr>cl_tls := t\<rparr>)) (cl_tls c)"
  by (auto simp: wp_def on_tls_def split: prod.splits sum.splits)

lemma close_client_wp:
  assumes "closes net over" "bounded_env net queued left" "\<And>code i. ends (h2_close_connection api code i)"
  shows "wp (close_client api net code) (\<lambda>_ c. over (tl_env (cl_tls c)))
     (\<lambda>x c. over (tl_env (cl_tls c)) \<and> (\<exists>b. x = CancelledError b)) c"
proof -
  have t: "wp (close_transport net) (\<lambda>_ s. over (tl_env s)) (\<lambda>x s. over (tl_env s) \<and> (\<exists>b. x = CancelledError b)) s"
    "wp (close_transport net) (\<lambda>_ s. over (tl_env s) \<and> (\<exists>b'. CancelledError b = CancelledError b')) (\<lambda>x s. over (tl_env s) \<and> (\<exists>b. x = CancelledError b)) s" for b s
    by (rule wp_mono [OF close_transport_wp [OF assms(1,2)]]; auto)+
  have e: "ends (on_session attribute_error (close_session api (http2_transport net) code))"
    "ends (shut_down_tls net)" "ends (finish_sending net)"
    unfolding shut_down_tls_def finish_sending_def
    by (intro ends_intros ends_close_session [OF assms(2,3)] ends_env [OF assms(2)] ends_outgoing [OF assms(2)]
      ends_drain_peer [OF assms(2)]; simp add: attribute_error_def)+
  show ?thesis unfolding close_client_def wp_finally wp_bind [of "suppress_errors m" for m] wp_bind [of "on_tls m" for m]
    by (intro suppress_wp ends_intros e) (auto simp: wp_tls intro!: suppress_wp e t [simplified])
qed


section \<open>A small client\<close>

text \<open>A client that sends a list of chunks, each followed by a pause; what was read, whether it is closed, and
  the records it sends before the handshake.\<close>

type_synonym talk = "bytes option list \<times> bytes \<times> bool \<times> bytes"

definition talk_net :: "string \<Rightarrow> talk net_api" where
  "talk_net alpn =
     \<lparr>net_read = (\<lambda>_. ret []),
      net_readexactly = (\<lambda>n (todo, got, closed, r). if n \<le> length r then (Inr (take n r), (todo, got, closed, drop n r))
        else (Inl IncompleteReadError, (todo, got, closed, []))),
      net_write = (\<lambda>_. ret ()), net_drain = ret (),
      net_can_write_eof = (\<lambda>_. True), net_write_eof = ret (), net_is_closing = (\<lambda>(_, _, closed, _). closed),
      net_close = modifyM (\<lambda>(todo, got, _, r). (todo, got, True, r)), net_wait_closed = ret (),
      net_abort = modifyM (\<lambda>(todo, got, _, r). (todo, got, True, r)), bio_write = (\<lambda>_. ret ()), bio_pending = (\<lambda>_. False), bio_read = ret [],
      ssl_do_handshake = ret (),
      ssl_read = (\<lambda>_ (todo, got, closed). case todo of Some d # ds \<Rightarrow> (Inr d, (ds, got @ d, closed)) | _ \<Rightarrow> (Inl SSLWantReadError, (tl todo, got, closed))),
      ssl_write = (\<lambda>_. ret ()), ssl_unwrap = ret (), ssl_version = (\<lambda>_. Some ''TLSv1.3''), ssl_alpn = (\<lambda>_. Some alpn)\<rparr>"

lemma talk_laws:
  "logs_plaintext (talk_net alpn) (\<lambda>e. fst (snd e))" "closes (talk_net alpn) (\<lambda>e. fst (snd (snd e)))"
  "bounded_env (talk_net alpn) (\<lambda>_. 0) (\<lambda>_. 0)" "exact_stream (talk_net alpn) (\<lambda>e. snd (snd (snd e)))"
  by (auto simp: logs_plaintext_def closes_def bounded_env_def exact_stream_def talk_net_def ret_def raise_def modifyM_def ends_def wp_def
      split: list.splits option.splits prod.splits)

lemma talk_outgoing: "handle_outgoing_data (talk_net alpn) s = (Inr (), s)"
  unfolding handle_outgoing_data_def by (rule loopM_unfold(2)) (simp add: bindM_def getsM_def talk_net_def ret_def)

lemma talk_read:
  assumes "d \<noteq> []"
  shows "tls_read (talk_net alpn) n (tls_of (Some d # None # ds, got, closed)) = (Inr d, tls_of (ds, got @ d, closed))"
proof -
  have drain: "drain_plaintext (talk_net alpn) (tls_of (Some d # None # ds, got, closed)) = (Inr d, tls_of (ds, got @ d, closed))"
    unfolding drain_plaintext_def
    by (rule loopM_turn [where ?x1.0 = "[d]" and ?s1.0 = "tls_of (None # ds, got @ d, closed)"],
      simp add: assms bindM_def handleM_def on_env_def talk_net_def tls_of_def ret_def, rule loopM_unfold(2),
      simp add: bindM_def handleM_def on_env_def talk_net_def tls_of_def ret_def)
  have "\<not> must_answer_peer_close net (tls_of e)" for net and e :: talk by (simp add: must_answer_peer_close_def tls_of_def)
  then show ?thesis unfolding tls_read_def
    by - (rule loopM_unfold(2), simp add: assms drain talk_outgoing bindM_def getsM_def ret_def)
qed

abbreviation small_client :: "bytes option list \<Rightarrow> ('h, talk) client" where
  "small_client todo \<equiv> ClientConnection None None None (todo, [], False, enc_records sample_records)"

lemma small_client_tls [simp]: "cl_tls (ClientConnection p n y e) = tls_of e"
  by (simp add: ClientConnection_def tls_of_def)

abbreviation small_data :: "bytes option list" where
  "small_data \<equiv> [Some (HTTP2_PREFACE @ small_settings), None, Some small_headers, None]"

lemma small_preface:
  "read_protocol_preface (talk_net ''h2'') (tls_of (small_data, [], x)) =
     (Inr (HTTP2_PREFACE @ small_settings), tls_of ([Some small_headers, None], HTTP2_PREFACE @ small_settings, x))"
  unfolding read_protocol_preface_def
  by (rule loopM_turn [where ?x1.0 = "HTTP2_PREFACE @ small_settings" and
        ?s1.0 = "tls_of ([Some small_headers, None], HTTP2_PREFACE @ small_settings, x)"],
      simp add: bindM_def talk_read small_lengths ret_def starts_with_def, simp add: HTTP2_PREFACE_def,
      rule loopM_unfold(2), simp add: ret_def)

lemma small_handled:
  fixes c :: "((nat \<times> bytes \<times> bool) list, talk) client"
  assumes "cl_tls c = tls_of (small_data, [], x)"
  defines "t \<equiv> tls_of ([], (HTTP2_PREFACE @ small_settings) @ small_headers, x)"
  shows "handle_http small_api (talk_net ''h2'') c =
     (Inr (), c\<lparr>cl_http_version := Some ''HTTP/2.0'', cl_session := Some (small_request t), cl_tls := t\<rparr>)"
proof -
  have r: "receive_request small_api (http2_transport (talk_net ''h2''))
      (small_session (tls_of ([Some small_headers, None], HTTP2_PREFACE @ small_settings, x))) = Some (Inr (), small_request t)"
    unfolding t_def by (rule small_received) (simp add: http2_transport_def talk_read small_lengths)
  have e: "(small_session t)\<lparr>se_transport := t\<rparr> = small_session t" "se_transport (small_session t) = t"
    "se_transport (small_request t) = t" for t :: "talk tls"
    by (simp_all add: small_session_def small_request_def HTTP2Session_def)
  have "ssl_alpn (talk_net ''h2'') e = Some ''h2''" for e by (simp add: talk_net_def)
  then show ?thesis
    by (auto simp: handle_http_def bindM_eq_Inr getsM_def modifyM_def on_tls_Inr on_session_Inr totalM_Inr
      new_session_transport small_preface small_initialized r e assms(1))
qed

lemma small_http2: "\<exists>c'. handle_http small_api (talk_net ''h2'') (small_client small_data) = (Inr (), c')"
  using small_handled [of "small_client small_data"] by simp

abbreviation small_head :: "bytes option list" where
  "small_head \<equiv> [Some (take 5 (r_raw_head sample_request)), None, Some (drop 5 (r_raw_head sample_request) @ [1]), None]"

lemma small_http1: "\<exists>c'. handle_http small_api (talk_net ''http/1.1'') (small_client small_head) = (Inr (), c')"
proof -
  let ?h = "r_raw_head sample_request"
  have l: "?h = [71, 69, 84, 32, 47, 32, 72, 84, 84, 80, 47, 49, 46, 49, 13, 10, 72, 111, 115, 116, 58, 32, 97, 13, 10, 13, 10]"
    by (simp add: sample_request_def enc_request_def request_line_def header_line_def CRLF_def HEAD_END_def asc_def char_byte_def)
  have h: "find_sub HEAD_END (take 5 ?h) = None" "find_sub HEAD_END ?h = Some 23" "length ?h = 27" "?h \<noteq> []"
    by (simp_all add: l HEAD_END_def)
  have "check_head_size (take 5 ?h) True = Inr ()" by (simp add: check_head_size_def head_size_def h(1,3))
  note h = h(1) this h(2-)
  have e: "find_sub HEAD_END (?h @ [1]) = Some 23" using find_sub_append [OF h(3)] .
  have c: "check_head_size (?h @ [1]) True = Inr ()" using check_head_size_ok [OF e] by simp
  have td: "take 5 ?h @ drop 5 ?h @ [1] = ?h @ [1]" by (metis append_assoc append_take_drop_id)
  have r: "read_http1_head (talk_net ''http/1.1'') (take 5 ?h) (tls_of ([Some (drop 5 ?h @ [1]), None], take 5 ?h, x)) =
      (Inr ?h, tls_of ([], ?h @ [1], x))" for x
    unfolding read_http1_head_def
    by (rule loopM_turn [where ?x1.0 = "?h @ [1]" and ?s1.0 = "tls_of ([], ?h @ [1], x)"],
      simp add: bindM_def liftR_def ret_def h(1,2) talk_read td, rule loopM_unfold(2),
      simp add: bindM_def liftR_def ret_def e h(4) c)
  have p: "parse_request ?h = Inr sample_request" using sample_parse [of "[]"] by simp
  have "ssl_alpn (talk_net ''http/1.1'') e \<noteq> Some ''h2''" for e by (simp add: talk_net_def)
  then show ?thesis
    by (auto simp: handle_http_def bindM_eq_Inr getsM_def modifyM_def on_tls_Inr talk_read h(5) liftR_def r p)
qed

section \<open>Properties\<close>

lemma handle_http_captures:
  assumes "logs_plaintext net plain" and "ssl_alpn net (tl_env (cl_tls c)) = Some ''h2''" and "handle_http api net c = (Inr (), c')"
  shows "\<exists>s capture settings entries f fs. cl_session c' = Some s \<and> cl_http2 c' = Some capture \<and> cl_http_version c' = Some ''HTTP/2.0'' \<and>
    plain (tl_env (cl_tls c')) = plain (tl_env (cl_tls c)) @ HTTP2_PREFACE @ concat (map pf_raw (cap_frames capture)) @ se_buffer s \<and>
    cap_frames capture = f # fs \<and> pf_payload f = SettingsPayload False settings entries \<and> cap_initial_settings capture = Some entries \<and>
    list_all typed_frame (cap_frames capture) \<and> cap_headers capture \<noteq> None \<and> se_request_ready s \<and> \<not> se_cancelled s \<and> \<not> se_closed s \<and>
    incomplete_frame (se_buffer s)"
proof -
  obtain incoming t s1 s2 where p: "read_protocol_preface net (cl_tls c) = (Inr incoming, t)"
    and s: "initialize api (http2_transport net) incoming (HTTP2Session api t) = (Inr (), s1)"
      "receive_request api (http2_transport net) s1 = Some (Inr (), s2)"
    and c': "c' = c\<lparr>cl_http_version := Some ''HTTP/2.0'', cl_session := Some s2, cl_tls := se_transport s2\<rparr>"
    using handle_http_http2E [OF assms(3,2)] .
  note r = receive_request_post [OF s]
  have 1: "plain (tl_env t) = plain (tl_env (cl_tls c)) @ incoming" using wpD(1) [OF read_protocol_preface_wp [OF assms(1)] p] .
  obtain read where 2: "plain (tl_env (se_transport s2)) = plain (tl_env t) @ read" "incoming @ read = HTTP2_PREFACE @ capture_log s2"
    using r(6) [OF http2_transport_logs [OF assms(1)]] by blast
  have h: "cap_stream_id (se_capture s2) \<noteq> None \<and> cap_headers (se_capture s2) \<noteq> None"
    using r(1,3) by (auto simp: session_ok_def request_ok_def split: option.splits)
  then have "\<not> se_first_frame s2" using r(1) by (auto simp: session_ok_def first_settings_def)
  with r(1) obtain f fs settings entries where "cap_frames (se_capture s2) = f # fs" "pf_payload f = SettingsPayload False settings entries"
    "cap_initial_settings (se_capture s2) = Some entries" "list_all typed_frame (cap_frames (se_capture s2))"
    by (auto simp: session_ok_def first_settings_def)
  with 1 2 r(3-5,7) h show ?thesis by (simp add: c' cl_http2_def)
qed

text \<open>An HTTP/2 connection is captured completely: if \<open>handle_http\<close> returns, the plaintext the client sent
  during the call is the connection preface, the raw bytes of the captured frames in order, and the start of
  a frame that is not complete; the first captured frame is the \<open>SETTINGS\<close> frame; the request is complete,
  neither cancelled nor closed.\<close>

theorem http2_connection_capture:
  assumes "logs_plaintext net plain" and "ssl_alpn net (tl_env (cl_tls c)) = Some ''h2''" and "handle_http api net c = (Inr (), c')"
  shows "\<exists>s capture settings entries f fs. cl_session c' = Some s \<and> cl_http2 c' = Some capture \<and> cl_http_version c' = Some ''HTTP/2.0'' \<and>
    plain (tl_env (cl_tls c')) = plain (tl_env (cl_tls c)) @ HTTP2_PREFACE @ concat (map pf_raw (cap_frames capture)) @ se_buffer s \<and>
    cap_frames capture = f # fs \<and> pf_payload f = SettingsPayload False settings entries \<and> cap_initial_settings capture = Some entries \<and>
    list_all typed_frame (cap_frames capture) \<and> cap_headers capture \<noteq> None \<and> se_request_ready s \<and> \<not> se_cancelled s \<and> \<not> se_closed s \<and>
    incomplete_frame (se_buffer s)"
  by (rule handle_http_captures [OF assms])

theorem http2_connection_capture_witness:
  "\<exists>c' s capture. handle_http small_api (talk_net ''h2'') (small_client small_data) = (Inr (), c') \<and>
     cl_session c' = Some s \<and> cl_http2 c' = Some capture \<and>
     fst (snd (tl_env (cl_tls c'))) = HTTP2_PREFACE @ concat (map pf_raw (cap_frames capture)) @ se_buffer s"
proof -
  obtain c' where c': "handle_http small_api (talk_net ''h2'') (small_client small_data) = (Inr (), c')"
    using small_http2 by blast
  have "ssl_alpn (talk_net ''h2'') e = Some ''h2''" for e by (simp add: talk_net_def)
  with http2_connection_capture [OF talk_laws(1) _ c'] c' show ?thesis by (auto simp: tls_of_def)
qed

text \<open>C13. An HTTP/1.1 request is read up to its end and no further: if \<open>handle_http\<close> returns, the plaintext starts
  with a head that ends at its first empty line and is not longer than the limit; the head is kept as it
  was received, and the request is what the parser makes of it.\<close>

theorem http1_connection_head:
  assumes "logs_plaintext net plain" and "ssl_alpn net (tl_env (cl_tls c)) \<noteq> Some ''h2''" and "handle_http api net c = (Inr (), c')"
  shows "\<exists>head request. cl_http1_raw_head c' = Some head \<and> cl_http1 c' = Some request \<and> cl_http_version c' = Some ''HTTP/1.1'' \<and>
    parse_request head = Inr request \<and> r_raw_head request = head \<and> is_head head \<and>
    prefix (plain (tl_env (cl_tls c)) @ head) (plain (tl_env (cl_tls c')))"
proof -
  obtain first t1 head t2 request where 1: "tls_read net 4096 (cl_tls c) = (Inr first, t1)"
    and 2: "read_http1_head net first t1 = (Inr head, t2)" and r: "parse_request head = Inr request"
    and c': "c' = c\<lparr>cl_http_version := Some ''HTTP/1.1'', cl_tls := t2, cl_http1_raw_head := Some head, cl_http1 := Some request\<rparr>"
    using handle_http_http1E [OF assms(3,2)] .
  have "plain (tl_env t1) = plain (tl_env (cl_tls c)) @ first" using wpD(1) [OF tls_read_wp [OF assms(1)] 1] by simp
  from wpD(1) [OF read_http1_head_wp [OF assms(1) this] 2]
  have h: "is_head head" "prefix (plain (tl_env (cl_tls c)) @ head) (plain (tl_env t2))" by auto
  from r obtain e where "find_sub HEAD_END head = Some e" "e + 4 \<le> length head" "r_raw_head request = take (e + 4) head"
    by (rule parse_requestD)
  with h(1) have "r_raw_head request = head" by (auto simp: is_head_def)
  with h r c' show ?thesis by simp
qed

theorem http1_connection_head_witness:
  "\<exists>c' head. handle_http small_api (talk_net ''http/1.1'') (small_client small_head) = (Inr (), c') \<and>
     cl_http1_raw_head c' = Some head \<and> is_head head \<and> prefix head (fst (snd (tl_env (cl_tls c'))))"
proof -
  obtain c' where c': "handle_http small_api (talk_net ''http/1.1'') (small_client small_head) = (Inr (), c')"
    using small_http1 by blast
  have "ssl_alpn (talk_net ''http/1.1'') e \<noteq> Some ''h2''" for e by (simp add: talk_net_def)
  with http1_connection_head [OF talk_laws(1) _ c'] c' show ?thesis by (auto simp: tls_of_def)
qed

text \<open>Closing a connection, in whatever state it is and whatever its parts raise, ends with the TCP connection
  closed or aborted, and raises nothing but a cancellation of the task itself.\<close>

theorem close_always_closes:
  assumes "closes net over" and "bounded_env net queued left" and "\<And>code i. ends (h2_close_connection api code i)"
    and "close_client api net code c = (r, c')"
  shows "over (tl_env (cl_tls c')) \<and> (r = Inr () \<or> (\<exists>b. r = Inl (CancelledError b)))"
  using close_client_wp [OF assms(1-3), of code c] assms(4) by (cases r) (auto simp: wp_def)


theorem close_always_closes_witness:
  "fst (snd (snd (tl_env (cl_tls (snd (close_client small_api (talk_net ''h2'') 0 (small_client [])))))))"
proof -
  have "ends (h2_close_connection small_api code i)" for code i by (simp add: small_api_def ends_simple)
  from close_always_closes [OF talk_laws(2,3) this, of "''h2''" 0 "small_client []"] show ?thesis
    by (metis prod.collapse)
qed

end
