(* ===== verification/Storage.thy ===== *)
theory Storage
  imports Connection_Correct Naming
begin

text \<open>
  \<open>solvetls/storage.py\<close>: the optional MongoDB store. The driver and the document mapper are parameters:
  operations on an environment that may raise. The module's globals are the state. \<open>database_timeout\<close>
  bounds the driver's own waiting and has no effect on the state; an expired \<open>asyncio.timeout\<close> is a
  cancellation that \<open>with_timeout\<close> turns into \<open>TimeoutError\<close>.
\<close>

section \<open>Model\<close>

record ('c, 'e) db_api =
  db_connect :: "string \<Rightarrow> ('e, 'c) meth"
  db_init_beanie :: "'c \<Rightarrow> ('e, unit) meth"
  db_close :: "'c \<Rightarrow> ('e, unit) meth"
  db_insert :: "dict \<Rightarrow> ('e, unit) meth"
  db_cancelled :: "'e \<Rightarrow> bool"

text \<open>\<open>db_cancelled\<close> tells whether the task that waits for the cleanup has been cancelled while it waited.\<close>

record ('c, 'e) storage =
  st_enabled :: bool
  st_client :: "'c option"
  st_env :: 'e

definition on_db :: "('e, 'a) meth \<Rightarrow> (('c, 'e) storage, 'a) meth" where
  "on_db m s = (case m (st_env s) of (r, e) \<Rightarrow> (r, s\<lparr>st_env := e\<rparr>))"

definition close_with_timeout :: "('c, 'e) db_api \<Rightarrow> 'c \<Rightarrow> (('c, 'e) storage, unit) meth" where
  "close_with_timeout db client = suppress_errors (on_db (db_close db client))"

text \<open>\<open>_close_client\<close> waits for the shielded task to its end, also when it is cancelled, and lets the
  cancellation out after that.\<close>

definition close_db_client :: "('c, 'e) db_api \<Rightarrow> 'c \<Rightarrow> (('c, 'e) storage, unit) meth" where
  "close_db_client db client =
     bindM (tryM (close_with_timeout db client)) (\<lambda>closing.
     bindM (getsM (\<lambda>s. db_cancelled db (st_env s))) (\<lambda>cancelled.
     if closing = Inl Diverges then raise Diverges
     else if cancelled then raise (CancelledError False) else liftR closing))"

definition close_storage :: "('c, 'e) db_api \<Rightarrow> (('c, 'e) storage, unit) meth" where
  "close_storage db =
     bindM (getsM st_client) (\<lambda>client.
     bindM (modifyM (\<lambda>s. s\<lparr>st_enabled := False, st_client := None\<rparr>)) (\<lambda>_.
     case client of None \<Rightarrow> ret () | Some c \<Rightarrow> close_db_client db c))"

text \<open>The block under \<open>asyncio.timeout\<close>. Once the client exists, the \<open>finally\<close> clause closes it unless the
  storage has been enabled.\<close>

definition open_storage :: "('c, 'e) db_api \<Rightarrow> string \<Rightarrow> (('c, 'e) storage, unit) meth" where
  "open_storage db connection_string =
     bindM (with_timeout (on_db (db_connect db connection_string))) (\<lambda>client.
     finallyM
       (bindM (with_timeout (on_db (db_init_beanie db client))) (\<lambda>_.
        modifyM (\<lambda>s. s\<lparr>st_client := Some client, st_enabled := True\<rparr>)))
       (bindM (getsM st_enabled) (\<lambda>enabled. if \<not> enabled then close_db_client db client else ret ())))"

definition init_storage :: "('c, 'e) db_api \<Rightarrow> string \<Rightarrow> (('c, 'e) storage, bool) meth" where
  "init_storage db connection_string =
     bindM (close_storage db) (\<lambda>_.
     if connection_string = [] then ret False
     else bindM (open_storage db connection_string) (\<lambda>_. ret True))"

definition save_fingerprint :: "('c, 'e) db_api \<Rightarrow> dict \<Rightarrow> (('c, 'e) storage, unit) meth" where
  "save_fingerprint db report =
     bindM (getsM st_enabled) (\<lambda>enabled.
     if \<not> enabled then ret ()
     else suppress_errors (with_timeout (on_db (db_insert db report))))"

section \<open>The invariant\<close>

text \<open>The clients that were opened and those that were asked to close, in the order of the calls.\<close>

definition tracks :: "('c, 'e) db_api \<Rightarrow> ('e \<Rightarrow> 'c list) \<Rightarrow> ('e \<Rightarrow> 'c list) \<Rightarrow> bool" where
  "tracks db opened closed \<longleftrightarrow>
     (\<forall>u e. case db_connect db u e of
         (Inr c, e') \<Rightarrow> opened e' = opened e @ [c] \<and> closed e' = closed e
       | (Inl _, e') \<Rightarrow> opened e' = opened e \<and> closed e' = closed e) \<and>
     (\<forall>c e. opened (snd (db_init_beanie db c e)) = opened e \<and> closed (snd (db_init_beanie db c e)) = closed e) \<and>
     (\<forall>c e. opened (snd (db_close db c e)) = opened e \<and> closed (snd (db_close db c e)) = closed e @ [c]) \<and>
     (\<forall>d e. opened (snd (db_insert db d e)) = opened e \<and> closed (snd (db_insert db d e)) = closed e)"

text \<open>At any time the opened clients are the closed ones, each closed once, and the current one.\<close>

definition owned :: "('e \<Rightarrow> 'c list) \<Rightarrow> ('e \<Rightarrow> 'c list) \<Rightarrow> ('c, 'e) storage \<Rightarrow> bool" where
  "owned opened closed s \<longleftrightarrow>
     (st_enabled s \<longleftrightarrow> st_client s \<noteq> None) \<and>
     opened (st_env s) = closed (st_env s) @ (case st_client s of None \<Rightarrow> [] | Some c \<Rightarrow> [c])"

lemma wp_db [wp_simps]:
  "wp (on_db m) Q E s = wp m (\<lambda>x e. Q x (s\<lparr>st_env := e\<rparr>)) (\<lambda>x e. E x (s\<lparr>st_env := e\<rparr>)) (st_env s)"
  by (auto simp: wp_def on_db_def split: prod.splits sum.splits)

lemma wp_return_fun: "wp (raise e) Q E = E e" "wp (ret x) Q E = Q x"
  by (simp_all add: fun_eq_iff wp_return)

lemma wp_timeout [wp_simps]:
  "wp (with_timeout m) Q E s = wp m Q (\<lambda>e. E (if e = CancelledError True then TimeoutError else e)) s"
  by (simp add: with_timeout_def wp_handle wp_return_fun)

lemma wp_try [wp_simps]: "wp (tryM m) Q E s = wp m (\<lambda>x. Q (Inr x)) (\<lambda>e. Q (Inl e)) s"
  by (auto simp: wp_def tryM_def split: prod.splits sum.splits)

lemma wp_suppress [wp_simps]: "wp (suppress_errors m) Q E s = wp m Q (\<lambda>e. if is_Exception e then Q () else E e) s"
  unfolding suppress_errors_def wp_handle
  by (rule arg_cong [where f = "\<lambda>h. wp m Q h s"]) (simp add: fun_eq_iff wp_cases wp_return)

lemma close_db_wp:
  assumes "tracks db opened closed"
    and "\<And>e. opened e = opened (st_env s) \<Longrightarrow> closed e = closed (st_env s) @ [c] \<Longrightarrow> P (s\<lparr>st_env := e\<rparr>)"
  shows "wp (close_db_client db c) (\<lambda>_. P) (\<lambda>_. P) s"
proof -
  have c: "wp (db_close db c) (\<lambda>_ e. P (s\<lparr>st_env := e\<rparr>)) (\<lambda>_ e. P (s\<lparr>st_env := e\<rparr>)) (st_env s)"
    using assms unfolding tracks_def by (auto simp: wp_def split: prod.splits sum.splits) (metis snd_conv)+
  show ?thesis unfolding close_db_client_def close_with_timeout_def wp_bind wp_try wp_suppress wp_db
    by (rule wp_mono [OF c]) (auto simp: wp_simps)
qed

lemma close_storage_owned:
  assumes "tracks db opened closed" and "owned opened closed s"
  shows "wp (close_storage db) (\<lambda>_ s'. owned opened closed s' \<and> \<not> st_enabled s') (\<lambda>_ s'. owned opened closed s' \<and> \<not> st_enabled s') s"
proof (cases "st_client s")
  case None
  with assms show ?thesis by (simp add: close_storage_def wp_simps owned_def)
next
  case (Some c)
  show ?thesis unfolding close_storage_def wp_bind wp_access Some option.case
    by (rule close_db_wp [OF assms(1)]) (use assms(2) Some in \<open>simp add: owned_def\<close>)
qed

lemma open_storage_owned:
  assumes t: "tracks db opened closed" and s: "owned opened closed s" "\<not> st_enabled s"
  shows "wp (open_storage db url) (\<lambda>_ s'. owned opened closed s' \<and> st_enabled s')
     (\<lambda>x s'. owned opened closed s' \<and> \<not> st_enabled s' \<or> x = Diverges) s"
proof -
  let ?E = "\<lambda>x s'. owned opened closed s' \<and> \<not> st_enabled s' \<or> x = Diverges"
  have none: "st_client s = None" using s by (simp add: owned_def)
  have c: "wp (db_connect db url) (\<lambda>c e. opened e = opened (st_env s) @ [c] \<and> closed e = closed (st_env s))
      (\<lambda>_ e. opened e = opened (st_env s) \<and> closed e = closed (st_env s)) (st_env s)"
    using t unfolding tracks_def wp_def by (auto split: prod.splits sum.splits)
  have i: "wp (db_init_beanie db c) (\<lambda>_ e'. opened e' = opened e \<and> closed e' = closed e) (\<lambda>_ e'. opened e' = opened e \<and> closed e' = closed e) e" for c e
    using t unfolding tracks_def wp_def by (auto split: prod.splits sum.splits) (metis snd_conv)+
  show ?thesis unfolding open_storage_def wp_bind [of "with_timeout m" for m] wp_timeout wp_db
  proof (rule wp_mono [OF c], goal_cases)
    case (1 c e)
    have close: "wp (close_db_client db c) (\<lambda>_ s'. owned opened closed s' \<and> \<not> st_enabled s') (\<lambda>_ s'. owned opened closed s' \<and> \<not> st_enabled s')
        (s\<lparr>st_env := e'\<rparr>)" if "opened e' = opened e" "closed e' = closed e" for e'
      by (rule close_db_wp [OF t]) (use 1 s none that in \<open>simp add: owned_def\<close>)
    show ?case unfolding wp_finally wp_bind wp_timeout wp_db
    proof (rule wp_mono [OF i], goal_cases)
      case (1 x e')
      then show ?case using \<open>opened e = _ \<and> closed e = _\<close> s none by (simp add: wp_simps owned_def)
    next
      case (2 x e')
      then show ?case using s(2) by (auto simp: wp_simps intro!: wp_mono [OF close])
    qed
  next
    case (2 x e)
    with s none show ?case by (simp add: owned_def)
  qed
qed

lemma init_storage_wp:
  assumes "tracks db opened closed" and "owned opened closed s"
  shows "wp (init_storage db url) (\<lambda>b s'. owned opened closed s' \<and> st_enabled s' = b)
      (\<lambda>x s'. owned opened closed s' \<and> \<not> st_enabled s' \<or> x = Diverges) s"
  unfolding init_storage_def wp_bind [of "close_storage db"]
  by (rule wp_mono [OF close_storage_owned [OF assms]])
    (auto simp: wp_simps intro!: wp_mono [OF open_storage_owned [OF assms(1)]])

section \<open>A small database\<close>

text \<open>Clients are numbered; the collection cannot be set up, and no document can be inserted.\<close>

definition small_db :: "(nat, nat list \<times> nat list) db_api" where
  "small_db = \<lparr>db_connect = (\<lambda>_ (os, cs). (Inr (length os), (os @ [length os], cs))),
     db_init_beanie = (\<lambda>_. raise (RuntimeError ''no database'')), db_close = (\<lambda>c (os, cs). (Inr (), (os, cs @ [c]))),
     db_insert = (\<lambda>_. raise (RuntimeError ''no database'')), db_cancelled = (\<lambda>_. False)\<rparr>"

definition small_store :: "bool \<Rightarrow> (nat, nat list \<times> nat list) storage" where
  "small_store b = \<lparr>st_enabled = b, st_client = (if b then Some 0 else None), st_env = (if b then [0] else [], [])\<rparr>"

lemma small_db_tracks: "tracks small_db fst snd"
  by (auto simp: tracks_def small_db_def raise_def)

lemma small_store_owned: "owned fst snd (small_store b)"
  by (simp add: owned_def small_store_def)

section \<open>Properties\<close>

text \<open>The store never leaks a client: starting from a state in which every opened client but the current one
  has been closed, \<open>init_storage\<close> ends in such a state, however the driver fails and wherever the call is
  cancelled. It is enabled after a successful call and disabled, without a client, after any other.\<close>

theorem init_storage_owned:
  assumes "tracks db opened closed" and "owned opened closed s" and "init_storage db url s = (r, s')" and "r \<noteq> Inl Diverges"
  shows "owned opened closed s' \<and> (st_enabled s' \<longleftrightarrow> r = Inr True)"
  using init_storage_wp [OF assms(1,2), of url] assms(3,4) by (cases r) (auto simp: wp_def)

theorem init_storage_owned_witness:
  "\<exists>s'. init_storage small_db ''mongodb://a'' (small_store True) = (Inl (RuntimeError ''no database''), s') \<and>
     \<not> st_enabled s' \<and> fst (st_env s') = snd (st_env s')"
proof -
  obtain s' where i: "init_storage small_db ''mongodb://a'' (small_store True) = (Inl (RuntimeError ''no database''), s')"
    by (simp add: init_storage_def close_storage_def open_storage_def close_db_client_def close_with_timeout_def suppress_errors_def
      with_timeout_def handleM_def finallyM_def tryM_def on_db_def bindM_def getsM_def modifyM_def ret_def raise_def liftR_def
      small_db_def small_store_def)
  from init_storage_owned [OF small_db_tracks small_store_owned i] i show ?thesis
    by (auto simp: owned_def split: option.splits)
qed

text \<open>C39. Saving a report never fails: whatever the driver raises, \<open>save_fingerprint\<close> raises nothing but a
  cancellation of its task, it does not change the store, and when the store is disabled it does nothing.\<close>

theorem save_never_fails:
  assumes "save_fingerprint db report s = (r, s')" and "\<And>e. fst (db_insert db report e) \<noteq> Inl Diverges"
  shows "(r = Inr () \<or> r = Inl (CancelledError False)) \<and> st_enabled s' = st_enabled s \<and> st_client s' = st_client s \<and>
    (\<not> st_enabled s \<longrightarrow> s' = s)"
proof -
  have "wp (save_fingerprint db report)
      (\<lambda>_ s'. st_enabled s' = st_enabled s \<and> st_client s' = st_client s \<and> (\<not> st_enabled s \<longrightarrow> s' = s))
      (\<lambda>x s'. x = CancelledError False \<and> st_enabled s' = st_enabled s \<and> st_client s' = st_client s \<and> (\<not> st_enabled s \<longrightarrow> s' = s)) s"
    unfolding save_fingerprint_def using assms(2)
    by (auto simp: wp_simps) (auto simp: wp_def elim!: is_Exception.elims split: prod.splits sum.splits, metis fst_conv)
  then show ?thesis using assms(1) by (cases r) (auto simp: wp_def)
qed


theorem save_never_fails_witness:
  "\<exists>s'. save_fingerprint small_db [] (small_store True) = (Inr (), s') \<and> st_client s' = Some 0"
proof -
  obtain s' where i: "save_fingerprint small_db [] (small_store True) = (Inr (), s')"
    by (simp add: save_fingerprint_def suppress_errors_def with_timeout_def handleM_def on_db_def bindM_def getsM_def ret_def raise_def
      small_db_def small_store_def)
  have "fst (db_insert small_db [] e) \<noteq> Inl Diverges" for e by (simp add: small_db_def raise_def)
  from save_never_fails [OF i this] i show ?thesis by (simp add: small_store_def)
qed

end
