(* ===== verification/Redirect_Handler.thy ===== *)
theory Redirect_Handler
  imports Redirect Storage
begin

text \<open>
  \<open>handle_redirect\<close> of \<open>solvetls/redirect.py\<close> as a whole, on the streams of a connection: reading the head, the answer, the
  end of the output, the reads that discard what the client still sends, and the close. The theory \<open>Redirect\<close> has the answer as a
  function of what the client sends; here it is connected with the effects.
\<close>

section \<open>Model\<close>

definition read_head_from :: "'e net_api \<Rightarrow> ('e, bytes) meth" where
  "read_head_from net =
     loopM (\<lambda>data.
       bindM (net_read net 4096) (\<lambda>chunk.
       if chunk = [] then (if data = [] then ret (Inr []) else raise (bad_request ''Request head was not terminated''))
       else bindM (liftR (check_head_size (data @ chunk) True)) (\<lambda>_.
         case find_sub HEAD_END (data @ chunk) of
           Some e \<Rightarrow> ret (Inr (take (e + length HEAD_END) (data @ chunk)))
         | None \<Rightarrow> ret (Inl (data @ chunk))))) []"

text \<open>The inner \<open>try\<close>.\<close>

definition choose_answer :: "'e net_api \<Rightarrow> int \<Rightarrow> ('e, (nat \<times> string option) option) meth" where
  "choose_answer net https_port =
     handleM
       (bindM (with_timeout (read_head_from net)) (\<lambda>head.
        if head = [] then ret None
        else bindM (liftR (bindR (parse_request head) (\<lambda>request. redirect_location request https_port))) (\<lambda>location.
             ret (Some (308, Some location)))))
       (\<lambda>e. case e of HTTP1Error _ status \<Rightarrow> ret (Some (status, None)) | TimeoutError \<Rightarrow> ret (Some (408, None)) | _ \<Rightarrow> raise e)"

abbreviation answer_bytes :: "string \<Rightarrow> nat \<Rightarrow> string option \<Rightarrow> exn + bytes" where
  "answer_bytes date status location \<equiv>
     encode_ascii (join_with [CHR 0x0D, CHR 0x0A] (response_lines date status location) @ [CHR 0x0D, CHR 0x0A, CHR 0x0D, CHR 0x0A])"

definition write_answer :: "'e net_api \<Rightarrow> string \<Rightarrow> nat \<Rightarrow> string option \<Rightarrow> ('e, unit) meth" where
  "write_answer net date status location =
     with_timeout (
       bindM (liftR (answer_bytes date status location)) (\<lambda>data.
       bindM (net_write net data) (\<lambda>_. net_drain net)))"

definition discard_rest :: "'e net_api \<Rightarrow> ('e, unit) meth" where
  "discard_rest net = with_timeout (loopM (\<lambda>_. bindM (net_read net 65536) (\<lambda>data. ret (if data = [] then Inr () else Inl ()))) ())"

definition redirect_close :: "'e net_api \<Rightarrow> ('e, unit) meth" where
  "redirect_close net =
     handleM (bindM (net_close net) (\<lambda>_. with_timeout (net_wait_closed net)))
       (\<lambda>e. case e of
              CancelledError _ \<Rightarrow> bindM (net_abort net) (\<lambda>_. raise e)
            | Diverges \<Rightarrow> raise e
            | _ \<Rightarrow> net_abort net)"

definition redirect_connection :: "'e net_api \<Rightarrow> ('e \<Rightarrow> string) \<Rightarrow> int \<Rightarrow> ('e, unit) meth" where
  "redirect_connection net date https_port =
     finallyM
       (handleM
         (bindM (choose_answer net https_port) (\<lambda>answer.
          case answer of
            None \<Rightarrow> ret ()
          | Some (status, location) \<Rightarrow>
              bindM (getsM date) (\<lambda>now.
              bindM (write_answer net now status location) (\<lambda>_.
              bindM (getsM (net_can_write_eof net)) (\<lambda>can.
              bindM (if can then net_write_eof net else ret ()) (\<lambda>_.
              discard_rest net))))))
         (\<lambda>e. if is_OSError e then ret () else raise e))
       (redirect_close net)"

section \<open>The close\<close>

lemma redirect_close_wp:
  assumes "closes net over" "ends (net_close net)" "ends (net_wait_closed net)"
  shows "wp (redirect_close net) (\<lambda>_. over) (\<lambda>x e. over e \<and> (\<exists>b. x = CancelledError b)) e"
proof -
  have c: "wp (net_close net) (\<lambda>_. over) (\<lambda>x _. x \<noteq> Diverges) e" for e
    using assms unfolding closes_def ends_def wp_def by (auto split: prod.splits sum.splits)
  have w: "over e \<Longrightarrow> wp (net_wait_closed net) (\<lambda>_. over) (\<lambda>x _. x \<noteq> Diverges) e" for e
    using assms unfolding closes_def ends_def wp_def by (auto split: prod.splits sum.splits)
  have m: "wp (bindM (net_close net) (\<lambda>_. with_timeout (net_wait_closed net))) (\<lambda>_. over) (\<lambda>x _. x \<noteq> Diverges) e"
    by (auto simp: wp_simps intro!: wp_mono [OF c] wp_mono [OF w] split: if_splits)
  show ?thesis unfolding redirect_close_def wp_handle
  proof (rule wp_mono [OF m], goal_cases)
    case (2 x e1)
    then show ?case by (cases x) (auto simp: wp_simps intro!: wp_mono [OF abort_wp [where E = "\<lambda>_ _. False", OF assms(1)]])
  qed
qed

section \<open>The answer\<close>

text \<open>A client whose reads follow a script and who is silent after it: the timeout of the request expires.\<close>

definition plays :: "'e net_api \<Rightarrow> ('e \<Rightarrow> io_event list) \<Rightarrow> bool" where
  "plays net script \<longleftrightarrow> (\<forall>n e.
     case script e of
       [] \<Rightarrow> \<exists>e'. net_read net n e = (Inl (CancelledError True), e')
     | Chunk c # es \<Rightarrow> \<exists>e'. net_read net n e = (Inr c, e') \<and> script e' = es
     | Fail x # es \<Rightarrow> x \<noteq> CancelledError True \<and> (\<exists>e'. net_read net n e = (Inl x, e')))"

lemma playsD:
  assumes "plays net script"
  shows "script e = [] \<Longrightarrow> \<exists>e'. net_read net n e = (Inl (CancelledError True), e')"
    and "script e = Chunk c # es \<Longrightarrow> \<exists>e'. net_read net n e = (Inr c, e') \<and> script e' = es"
    and "script e = Fail x # es \<Longrightarrow> x \<noteq> CancelledError True \<and> (\<exists>e'. net_read net n e = (Inl x, e'))"
  using assms [unfolded plays_def, rule_format, of n e] by auto

abbreviation head_turn :: "'e net_api \<Rightarrow> bytes \<Rightarrow> ('e, bytes + bytes) meth" where
  "head_turn net \<equiv> \<lambda>data.
       bindM (net_read net 4096) (\<lambda>chunk.
       if chunk = [] then (if data = [] then ret (Inr []) else raise (bad_request ''Request head was not terminated''))
       else bindM (liftR (check_head_size (data @ chunk) True)) (\<lambda>_.
         case find_sub HEAD_END (data @ chunk) of
           Some e \<Rightarrow> ret (Inr (take (e + length HEAD_END) (data @ chunk)))
         | None \<Rightarrow> ret (Inl (data @ chunk))))"

lemma head_size_error: "check_head_size d b = Inl x \<Longrightarrow> x \<noteq> CancelledError True"
  by (cases "find_sub HEAD_END d") (auto simp: check_head_size_def Let_def split: if_split_asm prod.split_asm)

lemma loopM_next: "body x s = (Inr (Inl x1), s1) \<Longrightarrow> fst (loopM body x s) = fst (loopM body x1 s1)"
  by (simp add: loopM_def loopP.simps [of body x s] split: option.split)

lemma fst_timeout: "fst (with_timeout m e) = (case fst (m e) of Inr x \<Rightarrow> Inr x | Inl x \<Rightarrow> Inl (if x = CancelledError True then TimeoutError else x))"
  by (simp add: with_timeout_def handleM_def raise_def split: prod.split sum.split)

lemma read_head_plays:
  assumes "plays net script"
  shows "script e = es \<Longrightarrow> fst (with_timeout (loopM (head_turn net) data) e) = fst (read_head es data)"
proof (induction es data arbitrary: e rule: read_head.induct)
  case (1 data)
  then obtain e' where "net_read net 4096 e = (Inl (CancelledError True), e')" using playsD(1) [OF assms] by blast
  then have "loopM (head_turn net) data e = (Inl (CancelledError True), e')" by (intro loopM_unfold(1)) (simp add: bindM_def)
  then show ?case by (simp add: fst_timeout)
next
  case (2 x es data)
  then obtain e' where x: "x \<noteq> CancelledError True" and "net_read net 4096 e = (Inl x, e')"
    using playsD(3) [OF assms] by blast
  then have "loopM (head_turn net) data e = (Inl x, e')" by (intro loopM_unfold(1)) (simp add: bindM_def)
  with x show ?case by (simp add: fst_timeout)
next
  case (3 chunk es data)
  then obtain e' where r: "net_read net 4096 e = (Inr chunk, e')" and e': "script e' = es"
    using playsD(2) [OF assms] by blast
  show ?case
  proof (cases "chunk = []")
    case True
    show ?thesis
    proof (cases "data = []")
      case data: True
      have "loopM (head_turn net) data e = (Inr [], e')" by (rule loopM_unfold(2)) (simp add: bindM_def r True data ret_def)
      then show ?thesis by (simp add: fst_timeout True data)
    next
      case False
      then have "loopM (head_turn net) data e = (Inl (bad_request ''Request head was not terminated''), e')"
        by (intro loopM_unfold(1)) (simp add: bindM_def r True raise_def)
      with False show ?thesis by (simp add: fst_timeout True bad_request_def)
    qed
  next
    case c: False
    show ?thesis
    proof (cases "check_head_size (data @ chunk) True")
      case (Inl x)
      then have "loopM (head_turn net) data e = (Inl x, e')" by (intro loopM_unfold(1)) (simp add: bindM_def r c liftR_def)
      with head_size_error [OF Inl] Inl c show ?thesis by (simp add: fst_timeout)
    next
      case (Inr u)
      show ?thesis
      proof (cases "find_sub HEAD_END (data @ chunk)")
        case None
        with Inr c have "fst (loopM (head_turn net) data e) = fst (loopM (head_turn net) (data @ chunk) e')"
          by (intro loopM_next) (simp add: bindM_def r liftR_def ret_def)
        with 3(1) [OF c Inr None e'] None Inr c show ?thesis by (simp add: fst_timeout)
      next
        case (Some k)
        with Inr c have "loopM (head_turn net) data e = (Inr (take (k + length HEAD_END) (data @ chunk)), e')"
          by (intro loopM_unfold(2)) (simp add: bindM_def r liftR_def ret_def)
        with Some Inr c show ?thesis by (simp add: fst_timeout)
      qed
    qed
  qed
qed

lemma choose_answer_outcome:
  assumes "plays net script"
  shows "fst (choose_answer net https_port e) = redirect_outcome https_port (script e)"
proof -
  obtain h e1 where h: "with_timeout (read_head_from net) e = (h, e1)" by fastforce
  have "h = fst (read_head (script e) [])" using read_head_plays [OF assms refl, of "[]" e] h by (simp add: read_head_from_def)
  then show ?thesis
    by (auto simp: choose_answer_def redirect_outcome_def handleM_def bindM_def bindR_def h liftR_def ret_def raise_def
      split: sum.split exn.split)
qed

section \<open>What is written\<close>

definition writes_to :: "'e net_api \<Rightarrow> ('e \<Rightarrow> bytes) \<Rightarrow> bool" where
  "writes_to net sent \<longleftrightarrow>
     (\<forall>n e. sent (snd (net_read net n e)) = sent e) \<and> (\<forall>e. sent (snd (net_drain net e)) = sent e) \<and>
     (\<forall>e. sent (snd (net_write_eof net e)) = sent e) \<and> (\<forall>e. sent (snd (net_close net e)) = sent e) \<and>
     (\<forall>e. sent (snd (net_wait_closed net e)) = sent e) \<and> (\<forall>e. sent (snd (net_abort net e)) = sent e) \<and>
     (\<forall>d e r e'. net_write net d e = (r, e') \<longrightarrow> sent e' = (if isl r then sent e else sent e @ d))"

definition same_sent :: "('e \<Rightarrow> bytes) \<Rightarrow> 'e \<Rightarrow> 'e \<Rightarrow> bool" where
  "same_sent sent e e' \<longleftrightarrow> sent e' = sent e"

interpretation snt: step_relation "same_sent sent" for sent
  by unfold_locales (simp_all add: same_sent_def)

lemma writes_to_keeps:
  assumes "writes_to net sent"
  shows "moves (same_sent sent) (net_read net n)" "moves (same_sent sent) (net_drain net)" "moves (same_sent sent) (net_write_eof net)"
    "moves (same_sent sent) (net_close net)" "moves (same_sent sent) (net_wait_closed net)" "moves (same_sent sent) (net_abort net)"
  using assms by (simp_all add: writes_to_def moves_def same_sent_def)

lemma sent_lift: "moves (same_sent sent) (liftR r)"
  by (simp add: moves_def same_sent_def liftR_def)

lemma redirect_parts_keep:
  assumes "writes_to net sent"
  shows "moves (same_sent sent) (choose_answer net https_port)" "moves (same_sent sent) (discard_rest net)"
    "moves (same_sent sent) (redirect_close net)"
proof -
  note k = writes_to_keeps [OF assms] sent_lift
  show "moves (same_sent sent) (choose_answer net https_port)"
    unfolding choose_answer_def read_head_from_def with_timeout_def
    by (auto intro!: snt.intros snt.loop k split: exn.split)
  show "moves (same_sent sent) (discard_rest net)"
    unfolding discard_rest_def with_timeout_def by (auto intro!: snt.intros snt.loop k)
  show "moves (same_sent sent) (redirect_close net)"
    unfolding redirect_close_def with_timeout_def by (auto intro!: snt.intros k split: exn.split)
qed

lemma write_answer_wp:
  assumes "writes_to net sent"
  shows "wp (write_answer net now status location)
      (\<lambda>_ e'. \<exists>data. answer_bytes now status location = Inr data \<and>
         sent e' = sent e @ data)
      (\<lambda>_ e'. sent e' = sent e \<or> (\<exists>data. answer_bytes now status location = Inr data \<and>
         sent e' = sent e @ data)) e"
proof -
  have w: "wp (net_write net data) (\<lambda>_ e'. sent e' = sent e @ data) (\<lambda>_ e'. sent e' = sent e) e" for data e
    using assms unfolding writes_to_def wp_def by (auto split: prod.splits sum.splits)
  have d: "sent e1 = v \<Longrightarrow> wp (net_drain net) (\<lambda>_ e'. sent e' = v) (\<lambda>_ e'. sent e' = v) e1" for e1 v
    using snt.wp_moves [OF writes_to_keeps(2) [OF assms]] by (auto simp: same_sent_def)
  show ?thesis unfolding write_answer_def wp_timeout wp_bind
    by (auto simp: wp_liftR split: sum.split intro!: wp_mono [OF w] wp_mono [OF d])
qed

text \<open>The body of the handler: nothing is written but the answer to what was read.\<close>

definition answered :: "int \<Rightarrow> io_event list \<Rightarrow> bytes \<Rightarrow> bytes \<Rightarrow> bool" where
  "answered https_port es before after \<longleftrightarrow> after = before \<or>
     (\<exists>now status location data. redirect_outcome https_port es = Inr (Some (status, location)) \<and>
        answer_bytes now status location = Inr data \<and> after = before @ data)"

lemma redirect_connection_wp:
  assumes "closes net over" "ends (net_close net)" "ends (net_wait_closed net)" "plays net script" "writes_to net sent"
  shows "wp (redirect_connection net date https_port)
     (\<lambda>_ e'. over e' \<and> answered https_port (script e) (sent e) (sent e'))
     (\<lambda>x e'. x = Diverges \<or> over e' \<and> answered https_port (script e) (sent e) (sent e')) e"
proof -
  let ?A = "\<lambda>e'. answered https_port (script e) (sent e) (sent e')"
  have close: "wp (redirect_close net) (\<lambda>_ e'. over e' \<and> ?A e') (\<lambda>x e'. over e' \<and> ?A e') e1" if "?A e1" for e1
  proof -
    have "wp (redirect_close net) (\<lambda>_ e'. sent e' = sent e1) (\<lambda>_ e'. sent e' = sent e1) e1"
      using snt.wp_moves [OF redirect_parts_keep(3) [OF assms(5)], of e1] by (simp add: same_sent_def)
    with redirect_close_wp [OF assms(1-3), of e1] that show ?thesis by (auto simp: wp_def split: prod.splits sum.splits)
  qed
  have keep: "wp m (\<lambda>_. ?A) (\<lambda>_. ?A) e1" if "moves (same_sent sent) m" "?A e1" for m :: "('a, 'c) meth" and e1
    using snt.wp_moves [OF that(1), of e1] that(2) by (simp add: same_sent_def)
  note parts = redirect_parts_keep [OF assms(5)] and k = writes_to_keeps [OF assms(5)]
  obtain q e1 where q: "choose_answer net https_port e = (q, e1)" by fastforce
  have e1: "sent e1 = sent e" "q = redirect_outcome https_port (script e)"
    using parts(1) [of https_port] choose_answer_outcome [OF assms(4), of https_port e] q by (auto simp: moves_def same_sent_def) (metis snd_conv)
  let ?after = "bindM (getsM (net_can_write_eof net)) (\<lambda>can. bindM (if can then net_write_eof net else ret ()) (\<lambda>_. discard_rest net))"
  have rest: "wp ?after (\<lambda>_. ?A) (\<lambda>_. ?A) e2" if "?A e2" for e2
    by (rule keep [OF _ that]) (intro snt.intros k parts)
  have one: "wp (bindM (write_answer net now status location) (\<lambda>_. ?after)) (\<lambda>_. ?A) (\<lambda>_. ?A) e1"
    if "q = Inr (Some (status, location))" for now status location
    unfolding wp_bind [of "write_answer net now status location"]
  proof (rule wp_mono [OF write_answer_wp [OF assms(5)]], goal_cases)
    case (1 x e2)
    with that e1 show ?case by (intro rest) (auto simp: answered_def)
  next
    case (2 x e2)
    with that e1 show ?case by (auto simp: answered_def)
  qed
  let ?m = "bindM (choose_answer net https_port) (\<lambda>answer.
          case answer of
            None \<Rightarrow> ret ()
          | Some (status, location) \<Rightarrow> bindM (getsM date) (\<lambda>now. bindM (write_answer net now status location) (\<lambda>_. ?after)))"
  have "wp ?m (\<lambda>_. ?A) (\<lambda>_. ?A) e"
  proof (cases q)
    case (Inl x)
    with q have "?m e = (Inl x, e1)" by (simp add: bindM_def [of "choose_answer net https_port"])
    with e1(1) show ?thesis by (simp add: wp_def answered_def)
  next
    case (Inr a)
    with q have "wp ?m (\<lambda>_. ?A) (\<lambda>_. ?A) e = wp (case a of None \<Rightarrow> ret ()
          | Some (status, location) \<Rightarrow> bindM (getsM date) (\<lambda>now. bindM (write_answer net now status location) (\<lambda>_. ?after))) (\<lambda>_. ?A) (\<lambda>_. ?A) e1"
      by (simp add: wp_def bindM_def [of "choose_answer net https_port"])
    moreover have "?A e1" using e1 by (simp add: answered_def)
    ultimately show ?thesis using one Inr
      by (auto simp: wp_return wp_access wp_bind [of "getsM f" for f] split: option.split)
  qed
  then have "wp (handleM ?m (\<lambda>e. if is_OSError e then ret () else raise e)) (\<lambda>_. ?A) (\<lambda>_. ?A) e"
    unfolding wp_handle by (rule wp_mono) (auto simp: wp_return)
  then show ?thesis unfolding redirect_connection_def wp_finally
    by (rule wp_mono) (auto intro: wp_mono [OF close])
qed

section \<open>A small client\<close>

text \<open>A client that follows a script; what it is sent, and whether it is closed.\<close>

definition script_net :: "(io_event list \<times> bytes \<times> bool) net_api" where
  "script_net =
     \<lparr>net_read = (\<lambda>_ (es, sent, closed). case es of
         [] \<Rightarrow> (Inl (CancelledError True), ([], sent, closed))
       | Chunk c # es \<Rightarrow> (Inr c, (es, sent, closed))
       | Fail x # es \<Rightarrow> (Inl (if x = CancelledError True then TimeoutError else x), (es, sent, closed))),
      net_readexactly = (\<lambda>_. raise IncompleteReadError), net_write = (\<lambda>d (es, sent, closed). (Inr (), (es, sent @ d, closed))),
      net_drain = ret (), net_can_write_eof = (\<lambda>_. True), net_write_eof = ret (), net_is_closing = (\<lambda>(_, _, closed). closed),
      net_close = modifyM (\<lambda>(es, sent, _). (es, sent, True)), net_wait_closed = ret (), net_abort = modifyM (\<lambda>(es, sent, _). (es, sent, True)),
      bio_write = (\<lambda>_. ret ()), bio_pending = (\<lambda>_. False), bio_read = ret [], ssl_do_handshake = ret (), ssl_read = (\<lambda>_. ret []),
      ssl_write = (\<lambda>_. ret ()), ssl_unwrap = ret (), ssl_version = (\<lambda>_. None), ssl_alpn = (\<lambda>_. None)\<rparr>"

text \<open>An exception of the script that looks like the expiry of a timeout is read as \<open>TimeoutError\<close>.\<close>

definition script_of :: "io_event list \<times> bytes \<times> bool \<Rightarrow> io_event list" where
  "script_of e = map (\<lambda>v. if v = Fail (CancelledError True) then Fail TimeoutError else v) (fst e)"

lemma script_laws:
  "closes script_net (\<lambda>e. snd (snd e))" "ends (net_close script_net)" "ends (net_wait_closed script_net)" "plays script_net script_of"
  "writes_to script_net (\<lambda>e. fst (snd e))"
  by (auto simp: closes_def plays_def writes_to_def script_of_def script_net_def ends_def wp_def ret_def modifyM_def
    split: list.split io_event.split prod.splits)

section \<open>Properties\<close>

text \<open>C11. A connection to the redirect service is answered at most once and always closed. Whatever the client sends and whatever
  fails: the bytes written are none, or exactly the encoded response for the outcome that \<open>redirect_outcome\<close> gives
  for the chunks the client sent; and the connection ends closed or aborted.\<close>

theorem redirect_answers_once_and_closes:
  assumes "closes net over" and "ends (net_close net)" and "ends (net_wait_closed net)" and "plays net script" and "writes_to net sent"
    and "redirect_connection net date https_port e = (r, e')" and "r \<noteq> Inl Diverges"
  shows "over e' \<and> (sent e' = sent e \<or>
    (\<exists>now status location data. redirect_outcome https_port (script e) = Inr (Some (status, location)) \<and>
       answer_bytes now status location = Inr data \<and> sent e' = sent e @ data))"
  using redirect_connection_wp [OF assms(1-5), of date https_port e] assms(6,7) unfolding answered_def by (cases r) (auto simp: wp_def)

theorem redirect_answers_once_and_closes_witness:
  "\<exists>e'. redirect_connection script_net (\<lambda>_. ''now'') 443 ([], [], False) = (Inr (), e') \<and> snd (snd e') \<and> fst (snd e') \<noteq> []"
proof -
  have h: "read_head_from script_net ([], sent, closed) = (Inl (CancelledError True), ([], sent, closed))" for sent closed
    unfolding read_head_from_def by (rule loopM_unfold(1)) (simp add: bindM_def script_net_def)
  have d: "discard_rest script_net ([], sent, closed) = (Inl TimeoutError, ([], sent, closed))" for sent closed
    unfolding discard_rest_def with_timeout_def handleM_def
    by (subst loopM_unfold(1) [where e = "CancelledError True" and ?s1.0 = "([], sent, closed)"]) (simp_all add: bindM_def script_net_def raise_def)
  have "\<forall>l \<in> set (response_lines ''now'' 408 None). text_line l"
    by (rule response_lines_text [of 443]) (simp_all add: outcome_ok_def text_line_def)
  from encode_response [OF this] obtain data where data: "answer_bytes ''now'' 408 None = Inr data" "data \<noteq> []"
    by (simp add: HEAD_END_def)
  have "choose_answer script_net 443 ([], [], False) = (Inr (Some (408, None)), ([], [], False))"
    by (simp add: choose_answer_def with_timeout_def handleM_def bindM_def h raise_def ret_def)
  moreover have "write_answer script_net ''now'' 408 None ([], [], False) = (Inr (), ([], data, False))"
    by (simp add: write_answer_def with_timeout_def handleM_def bindM_def liftR_def data(1)) (simp add: script_net_def ret_def)
  moreover have "redirect_close script_net ([], data, False) = (Inr (), ([], data, True))"
    by (simp add: redirect_close_def with_timeout_def handleM_def bindM_def script_net_def modifyM_def ret_def)
  moreover have "net_can_write_eof script_net e" "net_write_eof script_net e = (Inr (), e)" for e by (simp_all add: script_net_def ret_def)
  ultimately have r: "redirect_connection script_net (\<lambda>_. ''now'') 443 ([], [], False) = (Inr (), ([], data, True))"
    by (simp add: redirect_connection_def finallyM_def handleM_def bindM_def tryM_def liftR_def ret_def getsM_def d)
  from redirect_answers_once_and_closes [OF script_laws r] r data(2) show ?thesis by auto
qed

end
