(* ===== verification/Logs.thy ===== *)
theory Logs
  imports Encodings
begin

text \<open>
  \<open>solvetls/logs.py\<close> and \<open>constants.py\<close>: client text in log lines, and the settings from the process
  environment. Environment variables are taken as Latin-1 text.
\<close>

section \<open>Log text\<close>

definition MAX_LOGGED_TEXT :: nat where "MAX_LOGGED_TEXT = 128"

text \<open>\<open>str.encode("unicode_escape")\<close>, one code point.\<close>

definition unicode_escape :: "nat \<Rightarrow> string" where
  "unicode_escape c =
     (if c = 0x5C then [CHR 0x5C, CHR 0x5C]
      else if c = 0x09 then [CHR 0x5C, CHR ''t'']
      else if c = 0x0A then [CHR 0x5C, CHR ''n'']
      else if c = 0x0D then [CHR 0x5C, CHR ''r'']
      else if 0x20 \<le> c \<and> c < 0x7F then [char_of c]
      else if c < 0x100 then [CHR 0x5C, CHR ''x''] @ zfill 2 (hex_nat c)
      else if c < 0x10000 then [CHR 0x5C, CHR ''u''] @ zfill 4 (hex_nat c)
      else [CHR 0x5C, CHR ''U''] @ zfill 8 (hex_nat c))"

definition loggable :: "ustr option \<Rightarrow> string" where
  "loggable text_value =
     (case text_value of
        None \<Rightarrow> ''-''
      | Some v \<Rightarrow>
          if v = [] then ''-''
          else let escaped = concat (map unicode_escape (take MAX_LOGGED_TEXT v)) in
            if length v > MAX_LOGGED_TEXT then escaped @ ''...'' else escaped)"

section \<open>Settings\<close>

text \<open>\<open>int(value)\<close> on Latin-1 text: surrounding white space, a sign, digits with single underscores between
  them, and the limit on the number of digits. \<open>None\<close> stands for \<open>ValueError\<close>.\<close>

definition py_space :: "char \<Rightarrow> bool" where
  "py_space c \<longleftrightarrow> (let n = of_char c :: nat in 9 \<le> n \<and> n \<le> 13 \<or> 28 \<le> n \<and> n \<le> 32 \<or> n = 133 \<or> n = 160)"

definition py_strip :: "string \<Rightarrow> string" where
  "py_strip s = rev (dropWhile py_space (rev (dropWhile py_space s)))"

fun digit_groups :: "string \<Rightarrow> bool" where
  "digit_groups [] = False"
| "digit_groups [c] = is_digit c"
| "digit_groups (c # d # s) = (is_digit c \<and> (if d = CHR ''_'' then digit_groups s else digit_groups (d # s)))"

definition py_digits :: "string \<Rightarrow> nat option" where
  "py_digits s =
     (if digit_groups s then
        let ds = filter is_digit s in if length ds > 4300 then None else Some (dec_val ds)
      else None)"

definition py_int :: "string \<Rightarrow> int option" where
  "py_int s =
     (case py_strip s of
        [] \<Rightarrow> None
      | c # ds \<Rightarrow>
          if c = CHR ''-'' then map_option (\<lambda>n. - int n) (py_digits ds)
          else if c = CHR ''+'' then map_option int (py_digits ds)
          else map_option int (py_digits (c # ds)))"

text \<open>\<open>Inl\<close> is \<open>SystemExit\<close> with its message.\<close>

definition parse_port :: "string \<Rightarrow> string \<Rightarrow> string + nat" where
  "parse_port name text_value =
     (let message = ''Cannot start solvetls: '' @ name @ '' must be an integer between 0 and 65535.'' in
      case py_int text_value of
        None \<Rightarrow> Inl message
      | Some port \<Rightarrow> if \<not> (0 \<le> port \<and> port \<le> 65535) then Inl message else Inr (nat port))"

definition LEVEL_NAMES :: "string list" where
  "LEVEL_NAMES = [''CRITICAL'', ''DEBUG'', ''ERROR'', ''FATAL'', ''INFO'', ''NOTSET'', ''WARN'', ''WARNING'']"

text \<open>\<open>str.upper\<close> on ASCII letters; no other letter has a capital form inside a level name.\<close>

definition upper_ascii :: "string \<Rightarrow> string" where
  "upper_ascii s = map (\<lambda>c. let n = of_char c :: nat in if 97 \<le> n \<and> n \<le> 122 then char_of (n - 32) else c) s"

record app_settings =
  host_ip :: string
  https_port :: nat
  http_port :: "nat option"
  cert_path :: string
  key_path :: string
  mongodb_url :: string
  log_level :: string

definition getenv :: "(string \<Rightarrow> string option) \<Rightarrow> string \<Rightarrow> string \<Rightarrow> string" where
  "getenv env name fallback = (case env name of None \<Rightarrow> fallback | Some v \<Rightarrow> v)"

definition load_settings :: "(string \<Rightarrow> string option) \<Rightarrow> string + app_settings" where
  "load_settings env =
     (case parse_port ''SOLVETLS_PORT'' (getenv env ''SOLVETLS_PORT'' ''443'') of
        Inl m \<Rightarrow> Inl m
      | Inr port \<Rightarrow>
          let plain_port = getenv env ''SOLVETLS_HTTP_PORT'' ''80'' in
          (case (if plain_port \<noteq> [] then map_sum id Some (parse_port ''SOLVETLS_HTTP_PORT'' plain_port) else Inr None) of
             Inl m \<Rightarrow> Inl m
           | Inr plain \<Rightarrow>
               let level = upper_ascii (getenv env ''SOLVETLS_LOG_LEVEL'' ''INFO'') in
               if level \<notin> set LEVEL_NAMES
               then Inl (''Cannot start solvetls: SOLVETLS_LOG_LEVEL must be one of '' @ join_with '', '' LEVEL_NAMES @ ''.'')
               else Inr \<lparr>host_ip = getenv env ''SOLVETLS_HOST'' ''0.0.0.0'', https_port = port, http_port = plain,
                         cert_path = getenv env ''SOLVETLS_CERT'' ''certs/fullchain.pem'',
                         key_path = getenv env ''SOLVETLS_KEY'' ''certs/privkey.pem'',
                         mongodb_url = getenv env ''SOLVETLS_MONGODB_URL'' [], log_level = level\<rparr>))"

section \<open>What a log line can contain\<close>

definition printable :: "char \<Rightarrow> bool" where
  "printable c \<longleftrightarrow> 0x20 \<le> (of_char c :: nat) \<and> of_char c < (0x7F :: nat)"

lemma hex_digit_printable: "d < 16 \<Longrightarrow> printable (hex_digit d)"
  by (auto simp: printable_def hex_digit_def)

lemma hex_nat_printable: "c \<in> set (hex_nat n) \<Longrightarrow> printable c"
proof (induction n rule: hex_nat.induct)
  case (1 n)
  then show ?case by (cases "n < 16") (auto simp: hex_nat.simps [of n] hex_digit_printable)
qed

lemma length_hex_nat: "n < 16 ^ k \<Longrightarrow> 0 < k \<Longrightarrow> length (hex_nat n) \<le> k"
proof (induction n arbitrary: k rule: hex_nat.induct)
  case (1 n)
  show ?case
  proof (cases "n < 16")
    case False
    with "1.prems" obtain j where k: "k = Suc j" "0 < j" by (cases k) (auto, cases "k - 1", auto)
    with "1.prems" have "n div 16 < 16 ^ j" by (simp add: less_mult_imp_div_less mult.commute)
    with "1.IH" [OF False] k show ?thesis using False by (simp add: hex_nat.simps [of n])
  qed (use "1.prems" in \<open>simp add: hex_nat.simps [of n]\<close>)
qed

lemma zfill_printable: "c \<in> set (zfill w (hex_nat n)) \<Longrightarrow> printable c"
  by (auto simp: zfill_def hex_nat_printable) (simp add: printable_def)

lemma escape_literals: "printable CHR 0x5C" "printable CHR ''t''" "printable CHR ''n''" "printable CHR ''r''" "printable CHR ''x''"
  "printable CHR ''u''" "printable CHR ''U''" "printable CHR ''-''" "printable CHR ''.''"
  by (simp_all add: printable_def)

lemma unicode_escape_printable: "c \<in> set (unicode_escape n) \<Longrightarrow> printable c"
  unfolding unicode_escape_def
  by (simp only: set_simps set_append insert_iff empty_iff Un_iff split: if_splits)
    (auto simp: escape_literals zfill_printable, simp add: printable_def)

lemma length_unicode_escape: "n < 0x110000 \<Longrightarrow> length (unicode_escape n) \<le> 10"
proof -
  assume n: "n < 0x110000"
  have 2: "length (hex_nat n) \<le> 2" if "n < 0x100" using that length_hex_nat [of n 2] by simp
  have 4: "length (hex_nat n) \<le> 4" if "n < 0x10000" using that length_hex_nat [of n 4] by simp
  have 8: "length (hex_nat n) \<le> 8" using n length_hex_nat [of n 8] by simp
  show ?thesis unfolding unicode_escape_def using 2 4 8 by (simp add: length_zfill)
qed

section \<open>Properties\<close>

text \<open>C38. No log injection: whatever text a client sends, what is logged of it is printable ASCII, so that it
  cannot break a line or forge one, it is not empty, and it has a bounded length.\<close>

theorem loggable_safe:
  assumes "\<forall>v. t = Some v \<longrightarrow> (\<forall>c \<in> set v. c < 0x110000)"
  shows "(\<forall>c \<in> set (loggable t). printable c) \<and> loggable t \<noteq> [] \<and> length (loggable t) \<le> 10 * MAX_LOGGED_TEXT + 3"
proof (cases "t = None \<or> t = Some []")
  case True
  then show ?thesis by (auto simp: loggable_def escape_literals)
next
  case False
  then obtain v where v: "t = Some v" "v \<noteq> []" by (cases t) auto
  let ?e = "concat (map unicode_escape (take MAX_LOGGED_TEXT v))"
  have bound: "length (concat (map unicode_escape xs)) \<le> 10 * length xs" if "\<forall>c \<in> set xs. c < 0x110000" for xs
    using that by (induction xs) (auto dest: length_unicode_escape)
  have l: "length ?e \<le> 10 * MAX_LOGGED_TEXT"
    using bound [of "take MAX_LOGGED_TEXT v"] assms v(1) min.cobounded2 [of "length v" MAX_LOGGED_TEXT]
    by (fastforce dest: in_set_takeD)
  have "unicode_escape c \<noteq> []" for c by (simp add: unicode_escape_def)
  then have ne: "?e \<noteq> []" using v(2) by (cases v) (auto simp: MAX_LOGGED_TEXT_def)
  have p: "\<forall>c \<in> set ?e. printable c" by (auto intro: unicode_escape_printable)
  show ?thesis using l ne p by (auto simp: loggable_def v Let_def escape_literals)
qed

theorem loggable_safe_witness:
  "list_all printable (loggable (Some [71, 10, 0x1F600])) \<and> length (loggable (Some [71, 10, 0x1F600])) \<le> 10 * MAX_LOGGED_TEXT + 3"
  using loggable_safe [of "Some [71, 10, 0x1F600]"] by (simp add: list_all_iff)

text \<open>The settings are safe to start with: ports that were read from the environment are ports, the redirect
  service is off exactly when its variable is set and empty, and the log level is one the library knows.\<close>

theorem settings_valid:
  assumes "load_settings env = Inr s"
  shows "https_port s \<le> 65535 \<and> (\<forall>p. http_port s = Some p \<longrightarrow> p \<le> 65535) \<and>
    (http_port s = None \<longleftrightarrow> env ''SOLVETLS_HTTP_PORT'' = Some []) \<and> log_level s \<in> set LEVEL_NAMES"
proof -
  have p: "parse_port n x = Inr k \<Longrightarrow> k \<le> 65535" for n x k
    by (auto simp: parse_port_def Let_def split: option.splits if_splits)
  let ?plain = "getenv env ''SOLVETLS_HTTP_PORT'' ''80''" and ?level = "upper_ascii (getenv env ''SOLVETLS_LOG_LEVEL'' ''INFO'')"
  obtain port where 1: "parse_port ''SOLVETLS_PORT'' (getenv env ''SOLVETLS_PORT'' ''443'') = Inr port"
    using assms unfolding load_settings_def by (cases "parse_port ''SOLVETLS_PORT'' (getenv env ''SOLVETLS_PORT'' ''443'')") simp_all
  obtain plain where 2: "(if ?plain \<noteq> [] then map_sum id Some (parse_port ''SOLVETLS_HTTP_PORT'' ?plain) else Inr None) = Inr plain"
    using assms unfolding load_settings_def 1 Let_def
    by (cases "if ?plain \<noteq> [] then map_sum id Some (parse_port ''SOLVETLS_HTTP_PORT'' ?plain) else Inr None") simp_all
  have 3: "?level \<in> set LEVEL_NAMES" "https_port s = port" "http_port s = plain" "log_level s = ?level"
    using assms unfolding load_settings_def 1 Let_def sum.case 2 by (simp_all split: if_split_asm) auto
  have "plain = None \<longleftrightarrow> ?plain = []" "plain = Some k \<Longrightarrow> k \<le> 65535" for k
    using 2 p by (cases "parse_port ''SOLVETLS_HTTP_PORT'' ?plain"; auto split: if_split_asm)+
  moreover have "?plain = [] \<longleftrightarrow> env ''SOLVETLS_HTTP_PORT'' = Some []" by (simp add: getenv_def split: option.split)
  ultimately show ?thesis using 3 p [OF 1] by simp
qed

theorem settings_valid_witness:
  "\<exists>s. load_settings (\<lambda>n. if n = ''SOLVETLS_PORT'' then Some '' 8_443 '' else None) = Inr s \<and> https_port s = 8443 \<and> https_port s \<le> 65535"
proof -
  let ?env = "\<lambda>n. if n = ''SOLVETLS_PORT'' then Some '' 8_443 '' else None"
  have "parse_port ''SOLVETLS_PORT'' '' 8_443 '' = Inr 8443" "parse_port ''SOLVETLS_HTTP_PORT'' ''80'' = Inr 80"
    "upper_ascii ''INFO'' \<in> set LEVEL_NAMES" by code_simp+
  then obtain s where s: "load_settings ?env = Inr s" "https_port s = 8443"
    by (auto simp: load_settings_def getenv_def Let_def)
  from settings_valid [OF s(1)] s show ?thesis by auto
qed

end
