(* ===== verification/Startup.thy ===== *)
theory Startup
  imports Storage Logs
begin

text \<open>
  \<open>main.py\<close>: the server object, the signal handler, the store, the server, and the order in which they are undone. The server's
  coroutines, modelled as the steps of \<open>Lifecycle\<close>, are operations of the environment here: nothing is
  assumed of them. The saved SYN packet of \<open>solvetls/tcpip/syn.py\<close> is in the last section.
\<close>

section \<open>The program\<close>

text \<open>\<open>ma_construct\<close> is \<open>SolveTLS(cert_file, key_file)\<close>; \<open>ma_add_signal\<close> is false when the loop cannot install a handler.\<close>

datatype construction = Constructed | CertificateNotFound | CertificateNotReadable | ConstructionFailed exn

record 'm main_api =
  ma_construct :: "string \<Rightarrow> string \<Rightarrow> construction"
  ma_add_signal :: "'m \<Rightarrow> bool \<times> 'm"
  ma_remove_signal :: "('m, unit) meth"
  ma_start :: "string \<Rightarrow> nat \<Rightarrow> nat option \<Rightarrow> ('m, unit) meth"
  ma_serve_forever :: "('m, unit) meth"
  ma_close :: "('m, unit) meth"

record ('m, 'c, 'd) program =
  pr_env :: 'm
  pr_storage :: "('c, 'd) storage"
  pr_signal :: bool

datatype main_result = SystemExit string | Ended "exn + unit"

definition on_server :: "('m, 'a) meth \<Rightarrow> (('m, 'c, 'd) program, 'a) meth" where
  "on_server m s = (case m (pr_env s) of (r, e) \<Rightarrow> (r, s\<lparr>pr_env := e\<rparr>))"

definition on_store :: "(('c, 'd) storage, 'a) meth \<Rightarrow> (('m, 'c, 'd) program, 'a) meth" where
  "on_store m s = (case m (pr_storage s) of (r, t) \<Rightarrow> (r, s\<lparr>pr_storage := t\<rparr>))"

definition add_signal_handler :: "'m main_api \<Rightarrow> (('m, 'c, 'd) program, unit) meth" where
  "add_signal_handler api s = (case ma_add_signal api (pr_env s) of (installed, e) \<Rightarrow> (Inr (), s\<lparr>pr_env := e, pr_signal := installed\<rparr>))"

definition serve_program :: "'m main_api \<Rightarrow> ('c, 'd) db_api \<Rightarrow> app_settings \<Rightarrow> (('m, 'c, 'd) program, unit) meth" where
  "serve_program api db settings =
     finallyM
       (bindM (add_signal_handler api) (\<lambda>_.
        bindM (on_store (init_storage db (mongodb_url settings))) (\<lambda>_.
        bindM (on_server (ma_start api (host_ip settings) (https_port settings) (http_port settings))) (\<lambda>_.
        on_server (ma_serve_forever api)))))
       (finallyM (on_server (ma_close api))
         (bindM (on_store (close_storage db)) (\<lambda>_.
          bindM (getsM pr_signal) (\<lambda>signal_installed.
          if signal_installed then on_server (ma_remove_signal api) else ret ()))))"

definition newline :: string where "newline = [CHR 0x0A]"

definition cannot_start :: "string \<Rightarrow> string \<Rightarrow> app_settings \<Rightarrow> string" where
  "cannot_start problem advice settings =
     ''Cannot start solvetls: '' @ problem @ newline @ ''Certificate: '' @ cert_path settings @ newline @
     ''Private key: '' @ key_path settings @ newline @ advice @ newline @ ''See README.md (Certificates) for setup.''"

definition main_program :: "'m main_api \<Rightarrow> ('c, 'd) db_api \<Rightarrow> app_settings \<Rightarrow> ('m, 'c, 'd) program \<Rightarrow> main_result \<times> ('m, 'c, 'd) program" where
  "main_program api db settings s =
     (case ma_construct api (cert_path settings) (key_path settings) of
        CertificateNotFound \<Rightarrow>
          (SystemExit (cannot_start ''TLS certificate or private key not found.''
             ''Provide these files or set SOLVETLS_CERT and SOLVETLS_KEY.'' settings), s)
      | CertificateNotReadable \<Rightarrow>
          (SystemExit (cannot_start ''TLS certificate or private key is not readable.''
             ''Grant the server user read access to these files.'' settings), s)
      | ConstructionFailed e \<Rightarrow> (Ended (Inl e), s)
      | Constructed \<Rightarrow> (case serve_program api db settings s of (r, s') \<Rightarrow> (Ended r, s')))"

section \<open>The saved SYN packet\<close>

text \<open>The two socket options, each either set or read, or refused with \<open>OSError\<close>.\<close>

record 'k sock_api =
  so_setsockopt :: "nat \<Rightarrow> nat \<Rightarrow> 'k \<Rightarrow> bool \<times> 'k"
  so_getsockopt :: "nat \<Rightarrow> nat \<Rightarrow> 'k \<Rightarrow> bytes option \<times> 'k"

definition TCP_SAVE_SYN :: nat where "TCP_SAVE_SYN = 27"
definition TCP_SAVED_SYN :: nat where "TCP_SAVED_SYN = 28"
definition SYN_BUFFER_SIZE :: nat where "SYN_BUFFER_SIZE = 256"

definition enable_save_syn :: "bool \<Rightarrow> 'k sock_api \<Rightarrow> 'k \<Rightarrow> bool \<times> 'k" where
  "enable_save_syn supported api sock = (if \<not> supported then (False, sock) else so_setsockopt api TCP_SAVE_SYN 1 sock)"

definition read_saved_syn :: "bool \<Rightarrow> 'k sock_api \<Rightarrow> 'k option \<Rightarrow> bytes option \<times> 'k option" where
  "read_saved_syn supported api sock =
     (case sock of
        None \<Rightarrow> (None, None)
      | Some k \<Rightarrow>
          if \<not> supported then (None, sock)
          else (case so_getsockopt api TCP_SAVED_SYN SYN_BUFFER_SIZE k of
                  (None, k') \<Rightarrow> (None, Some k')
                | (Some data, k') \<Rightarrow> (if data = [] then None else Some data, Some k')))"

lemma read_saved_syn_result:
  assumes "read_saved_syn supported api sock = (packet, sock')"
  shows "packet \<noteq> Some []" and "\<not> supported \<Longrightarrow> packet = None \<and> sock' = sock"
  using assms by (auto simp: read_saved_syn_def split: option.splits if_splits prod.splits)

section \<open>Cleaning up\<close>

lemma wp_server [wp_simps]:
  "wp (on_server m) Q E s = wp m (\<lambda>x e. Q x (s\<lparr>pr_env := e\<rparr>)) (\<lambda>x e. E x (s\<lparr>pr_env := e\<rparr>)) (pr_env s)"
  by (auto simp: wp_def on_server_def split: prod.splits sum.splits)

lemma wp_store [wp_simps]:
  "wp (on_store m) Q E s = wp m (\<lambda>x t. Q x (s\<lparr>pr_storage := t\<rparr>)) (\<lambda>x t. E x (s\<lparr>pr_storage := t\<rparr>)) (pr_storage s)"
  by (auto simp: wp_def on_store_def split: prod.splits sum.splits)

text \<open>An operation of the server, whatever it does, keeps what is true of the store.\<close>

lemma server_keeps: "P (pr_storage s) \<Longrightarrow> wp (on_server m) (\<lambda>_ s'. P (pr_storage s')) (\<lambda>_ s'. P (pr_storage s')) s"
  by (auto simp: wp_def on_server_def split: prod.splits sum.splits)

lemma serve_program_closes:
  fixes s :: "('m, 'c, 'd) program"
  assumes "tracks db opened closed" and "owned opened closed (pr_storage s)"
  shows "wp (serve_program api db settings) (\<lambda>_ s'. owned opened closed (pr_storage s') \<and> \<not> st_enabled (pr_storage s'))
     (\<lambda>x s'. x = Diverges \<or> owned opened closed (pr_storage s') \<and> \<not> st_enabled (pr_storage s')) s"
proof -
  let ?P = "owned opened closed" and ?C = "\<lambda>t. owned opened closed t \<and> \<not> st_enabled t"
  have close: "wp (bindM (on_store (close_storage db)) (\<lambda>_. bindM (getsM pr_signal) (\<lambda>i. if i then on_server (ma_remove_signal api) else ret ())))
      (\<lambda>_ s'. ?C (pr_storage s')) (\<lambda>_ s'. ?C (pr_storage s')) s1" if "?P (pr_storage s1)" for s1
    unfolding wp_bind wp_store
    by (rule wp_mono [OF close_storage_owned [OF assms(1) that]]) (auto simp: wp_access wp_return intro!: server_keeps [where P = ?C])
  have final: "wp (finallyM (on_server (ma_close api))
         (bindM (on_store (close_storage db)) (\<lambda>_. bindM (getsM pr_signal) (\<lambda>i. if i then on_server (ma_remove_signal api) else ret ()))))
      (\<lambda>_ s'. ?C (pr_storage s')) (\<lambda>x s'. x = Diverges \<or> ?C (pr_storage s')) s1" if "?P (pr_storage s1)" for s1
    unfolding wp_finally by (rule wp_mono [OF server_keeps [where P = ?P, OF that]]) (auto intro: wp_mono [OF close])
  have run: "wp (bindM (on_server m) (\<lambda>_. on_server n)) (\<lambda>_ s'. ?P (pr_storage s')) (\<lambda>_ s'. ?P (pr_storage s')) s1" if "?P (pr_storage s1)"
    for m n :: "('m, unit) meth" and s1 :: "('m, 'c, 'd) program"
    unfolding wp_bind by (rule wp_mono [OF server_keeps [where P = ?P, OF that]]) (auto intro!: server_keeps [where P = ?P])
  have body: "wp (bindM (add_signal_handler api) (\<lambda>_. bindM (on_store (init_storage db url)) (\<lambda>_. bindM (on_server m) (\<lambda>_. on_server n))))
      (\<lambda>_ s'. ?P (pr_storage s')) (\<lambda>x s'. ?P (pr_storage s') \<or> x = Diverges) s" for url and m n :: "('m, unit) meth"
  proof -
    obtain b e where a: "ma_add_signal api (pr_env s) = (b, e)" by fastforce
    have "wp (on_store (init_storage db url)) (\<lambda>_ s'. ?P (pr_storage s')) (\<lambda>x s'. ?P (pr_storage s') \<or> x = Diverges) (s\<lparr>pr_env := e, pr_signal := b\<rparr>)"
      unfolding wp_store by (rule wp_mono [OF init_storage_wp [OF assms(1)]]) (use assms(2) in auto)
    then have "wp (bindM (on_store (init_storage db url)) (\<lambda>_. bindM (on_server m) (\<lambda>_. on_server n)))
        (\<lambda>_ s'. ?P (pr_storage s')) (\<lambda>x s'. ?P (pr_storage s') \<or> x = Diverges) (s\<lparr>pr_env := e, pr_signal := b\<rparr>)"
      unfolding wp_bind [of "on_store n" for n] by (rule wp_mono) (auto intro: wp_mono [OF run])
    then show ?thesis by (simp add: wp_def bindM_def [of "add_signal_handler api"] add_signal_handler_def a)
  qed
  show ?thesis unfolding serve_program_def wp_finally [of "bindM m n" for m n]
    by (rule wp_mono [OF body]) (auto intro: wp_mono [OF final])
qed

section \<open>Properties\<close>

text \<open>C10. The program closes the store on every way out: however the start, the service or the close of the server ends, by an
  error or by a cancellation, every database client that was opened has been closed, exactly once, and the store is
  disabled, when the program ends.\<close>

theorem main_closes_storage:
  assumes "tracks db opened closed" and "owned opened closed (pr_storage s)" and "\<not> st_enabled (pr_storage s)"
    and "main_program api db settings s = (r, s')" and "r \<noteq> Ended (Inl Diverges)"
  shows "opened (st_env (pr_storage s')) = closed (st_env (pr_storage s')) \<and> \<not> st_enabled (pr_storage s')"
proof -
  have "owned opened closed (pr_storage s') \<and> \<not> st_enabled (pr_storage s')"
    using serve_program_closes [OF assms(1,2), of api settings] assms(2-5)
    by (auto simp: main_program_def wp_def split: construction.splits prod.splits sum.splits)
  then show ?thesis by (auto simp: owned_def split: option.splits)
qed

text \<open>A server that serves one request of the operator to stop.\<close>

definition small_main :: "nat main_api" where
  "small_main = \<lparr>ma_construct = (\<lambda>_ _. Constructed), ma_add_signal = (\<lambda>n. (True, n)), ma_remove_signal = ret (), ma_start = (\<lambda>_ _ _. ret ()),
     ma_serve_forever = raise (CancelledError False), ma_close = ret ()\<rparr>"

definition small_settings_of :: "string \<Rightarrow> app_settings" where
  "small_settings_of url = \<lparr>host_ip = ''0.0.0.0'', https_port = 443, http_port = Some 80, cert_path = ''a'', key_path = ''b'', mongodb_url = url, log_level = ''INFO''\<rparr>"

theorem main_closes_storage_witness:
  "\<exists>r s'. main_program small_main small_db (small_settings_of ''mongodb://a'') \<lparr>pr_env = 0, pr_storage = small_store False, pr_signal = False\<rparr> = (Ended r, s') \<and>
     r \<noteq> Inl Diverges \<and> fst (st_env (pr_storage s')) = snd (st_env (pr_storage s'))"
proof -
  let ?s = "\<lparr>pr_env = 0, pr_storage = small_store False, pr_signal = False\<rparr>"
  obtain s' where r: "main_program small_main small_db (small_settings_of ''mongodb://a'') ?s = (Ended (Inl (RuntimeError ''no database'')), s')"
    by (simp add: main_program_def serve_program_def small_main_def small_settings_of_def finallyM_def tryM_def bindM_def add_signal_handler_def on_store_def
      on_server_def init_storage_def close_storage_def open_storage_def close_db_client_def close_with_timeout_def suppress_errors_def
      with_timeout_def handleM_def on_db_def getsM_def modifyM_def ret_def raise_def liftR_def small_db_def small_store_def)
  from main_closes_storage [OF small_db_tracks _ _ r] small_store_owned [of False] r show ?thesis by (auto simp: small_store_def)
qed

end
