(* ===== verification/Report.thy ===== *)
theory Report
  imports Connection Fingerprints Syn
begin

text \<open>
  \<open>solvetls/report.py\<close>: the report about a connection, a dictionary that is sent to the client and stored.
  A key that is written once is appended to its dictionary.
\<close>

section \<open>Values of payloads\<close>

text \<open>The Python values inside a frame payload: a \<open>PData\<close> is a dataclass with its fields in order, a \<open>PJson\<close> is
  a value that JSON has as well.\<close>

datatype pyval =
    PBytes bytes
  | PDict "(nat \<times> pyval) list"
  | PSeq "pyval list"
  | PData "(string \<times> pyval) list"
  | PJson json

definition pnat :: "nat \<Rightarrow> pyval" where "pnat n = PJson (jnat n)"
definition pbool :: "bool \<Rightarrow> pyval" where "pbool b = PJson (JBool b)"

fun plain_value :: "pyval \<Rightarrow> json" where
  "plain_value (PBytes value) = jhex value"
| "plain_value (PDict items) = JObj (map (\<lambda>(key, item). (str_nat key, plain_value item)) items)"
| "plain_value (PSeq items) = JList (map plain_value items)"
| "plain_value (PData fs) = JObj (map (\<lambda>(name, item). (name, plain_value item)) fs)"
| "plain_value (PJson value) = value"

definition priority_fields :: "priority_info \<Rightarrow> (string \<times> pyval) list" where
  "priority_fields p = [(''exclusive'', pbool (exclusive p)), (''dependency'', pnat (dependency p)), (''weight'', pnat (weight p))]"

fun payload_fields :: "payload \<Rightarrow> (string \<times> pyval) list" where
  "payload_fields (DataPayload d es p) = [(''data'', PBytes d), (''end_stream'', pbool es), (''padded'', pbool p)]"
| "payload_fields (HeadersPayload b pr es eh p) =
     [(''header_block'', PBytes b), (''priority'', (case pr of None \<Rightarrow> PJson JNull | Some i \<Rightarrow> PData (priority_fields i))),
      (''end_stream'', pbool es), (''end_headers'', pbool eh), (''padded'', pbool p)]"
| "payload_fields (PriorityPayload i) = priority_fields i"
| "payload_fields (RstStreamPayload c) = [(''error_code'', pnat c)]"
| "payload_fields (SettingsPayload a ss es) =
     [(''ack'', pbool a), (''settings'', (case ss of None \<Rightarrow> PJson JNull | Some d \<Rightarrow> PDict (map (\<lambda>(k, v). (k, pnat v)) d))),
      (''entries'', PSeq (map (\<lambda>(k, v). PSeq [pnat k, pnat v]) es))]"
| "payload_fields (PushPromisePayload i b eh p) =
     [(''promised_stream_id'', pnat i), (''header_block'', PBytes b), (''end_headers'', pbool eh), (''padded'', pbool p)]"
| "payload_fields (PingPayload d a) = [(''data'', PBytes d), (''ack'', pbool a)]"
| "payload_fields (GoawayPayload l c d) = [(''last_stream_id'', pnat l), (''error_code'', pnat c), (''debug_data'', PBytes d)]"
| "payload_fields (WindowUpdatePayload n) = [(''increment'', pnat n)]"
| "payload_fields (ContinuationPayload b eh) = [(''header_block'', PBytes b), (''end_headers'', pbool eh)]"
| "payload_fields (AltSvcPayload og v) = [(''origin'', PBytes og), (''field_value'', PBytes v)]"
| "payload_fields (OriginPayload os) = [(''origins'', PSeq (map PBytes os))]"
| "payload_fields (PriorityUpdatePayload i v) = [(''prioritized_stream_id'', pnat i), (''priority_field_value'', PBytes v)]"
| "payload_fields (UnknownPayload t b e c) =
     [(''unknown_type'', pnat t), (''raw_payload'', PBytes b), (''parse_error'', PJson (jopt jstr e)), (''error_code'', PJson (jopt jnat c))]"

text \<open>A list comprehension whose element expression may raise.\<close>

primrec mapR :: "('a \<Rightarrow> exn + 'b) \<Rightarrow> 'a list \<Rightarrow> exn + 'b list" where
  "mapR f [] = Inr []"
| "mapR f (x # xs) = bindR (f x) (\<lambda>y. bindR (mapR f xs) (\<lambda>ys. Inr (y # ys)))"

section \<open>HTTP/2\<close>

definition FRAME_FLAG_NAMES :: "(nat \<times> string list) list" where
  "FRAME_FLAG_NAMES =
     [(FT_DATA, [''END_STREAM'', ''PADDED'']), (FT_HEADERS, [''END_STREAM'', ''END_HEADERS'', ''PADDED'', ''PRIORITY'']),
      (FT_SETTINGS, [''ACK'']), (FT_PUSH_PROMISE, [''END_HEADERS'', ''PADDED'']), (FT_PING, [''ACK'']),
      (FT_CONTINUATION, [''END_HEADERS''])]"

definition flag_names :: "frame_header \<Rightarrow> string list" where
  "flag_names h =
     filter (\<lambda>name. fh_flags h AND the (map_of FrameFlags name) \<noteq> 0)
       (case map_of FRAME_FLAG_NAMES (fh_type h) of None \<Rightarrow> [] | Some names \<Rightarrow> names)"

definition frame_payload :: "payload \<Rightarrow> dict" where
  "frame_payload p =
     fold dict_pop [''end_stream'', ''end_headers'', ''padded'', ''ack'']
       (map (\<lambda>(name, item). (name, plain_value item)) (payload_fields p))"

definition frame_report :: "parsed_frame \<Rightarrow> dict" where
  "frame_report frame =
     describe (fh_type (pf_header frame)) (Some FrameType) @
     [(''flags'', jnat (fh_flags (pf_header frame))),
      (''flag_names'', JList (map jstr (flag_names (pf_header frame)))),
      (''stream_id'', jnat (fh_stream_id (pf_header frame))),
      (''length'', jnat (fh_length (pf_header frame))),
      (''payload'', JObj (frame_payload (pf_payload frame))),
      (''raw'', jhex (pf_raw frame))]"

definition setting_report :: "nat \<Rightarrow> nat \<Rightarrow> dict" where
  "setting_report identifier setting =
     (let entry = describe identifier (Some SettingsIdentifier);
          entry = (if identifier \<le> 0xFFFF \<and> identifier AND 0x0F0F = 0x0A0A
                   then dict_of (entry @ [(''grease'', JBool True)]) else entry)
      in entry @ [(''setting'', jnat setting)])"

definition field_report :: "(field_value \<times> field_value) list \<Rightarrow> json" where
  "field_report headers = JList (map (\<lambda>(key, field). JList [jstr (as_text key), jstr (as_text field)]) headers)"

abbreviation byte_fields :: "(bytes \<times> bytes) list \<Rightarrow> (field_value \<times> field_value) list" where
  "byte_fields \<equiv> map (\<lambda>(k, v). (Bytes k, Bytes v))"

abbreviation text_fields :: "(string \<times> string) list \<Rightarrow> (field_value \<times> field_value) list" where
  "text_fields \<equiv> map (\<lambda>(k, v). (Str k, Str v))"

definition http2_report :: "http2_capture option \<Rightarrow> exn + dict" where
  "http2_report capture =
     bindR (build_akamai_fingerprint capture) (\<lambda>report.
     Inr (case capture of
         None \<Rightarrow> report
       | Some c \<Rightarrow>
           report @
           (case cap_initial_settings c of None \<Rightarrow> []
            | Some ss \<Rightarrow> [(''settings'', JList (map (\<lambda>(i, v). JObj (setting_report i v)) ss))]) @
           (case cap_headers c of None \<Rightarrow> [] | Some hs \<Rightarrow> [(''headers'', field_report (byte_fields hs))]) @
           (if cap_trailers c \<noteq> [] then [(''trailers'', field_report (byte_fields (cap_trailers c)))] else []) @
           [(''frames'', JList (map (\<lambda>f. JObj (frame_report f)) (cap_frames c)))]))"

section \<open>Request, TLS and TCP\<close>

definition format_address :: "(string \<times> nat) option \<Rightarrow> string option" where
  "format_address name =
     (case name of None \<Rightarrow> None
      | Some (host, port) \<Rightarrow>
          Some (if CHR '':'' \<in> set host then ''['' @ host @ '']:'' @ str_nat port else host @ '':'' @ str_nat port))"

definition header_of :: "(field_value \<times> field_value) list option \<Rightarrow> string \<Rightarrow> string option" where
  "header_of headers name =
     (case find (\<lambda>(key, _). lower (as_text key) = name) (case headers of None \<Rightarrow> [] | Some hs \<Rightarrow> hs) of
        None \<Rightarrow> None | Some (_, field) \<Rightarrow> Some (as_text field))"

definition request_headers :: "('h, 'e) client \<Rightarrow> (field_value \<times> field_value) list option" where
  "request_headers c =
     (case cl_http2 c of
        Some capture \<Rightarrow> map_option byte_fields (cap_headers capture)
      | None \<Rightarrow> map_option (\<lambda>r. text_fields (r_headers r)) (cl_http1 c))"

definition request_method :: "('h, 'e) client \<Rightarrow> string option" where
  "request_method c =
     (case cl_http2 c of
        Some capture \<Rightarrow> header_of (map_option byte_fields (cap_headers capture)) '':method''
      | None \<Rightarrow> map_option r_method (cl_http1 c))"

definition request_path :: "('h, 'e) client \<Rightarrow> string option" where
  "request_path c =
     (case cl_http2 c of
        Some capture \<Rightarrow> header_of (map_option byte_fields (cap_headers capture)) '':path''
      | None \<Rightarrow> map_option r_path (cl_http1 c))"

definition routing_path :: "('h, 'e) client \<Rightarrow> exn + string option" where
  "routing_path c =
     (case request_path c of
        None \<Rightarrow> Inr None
      | Some target \<Rightarrow>
          if target = [] \<or> request_method c = Some ''CONNECT'' then Inr None
          else if cl_http_version c = Some ''HTTP/2.0'' \<or> starts_with ''/'' target \<or> target = ''*''
          then Inr (Some (takeWhile (\<lambda>x. x \<noteq> CHR ''?'') target))
          else bindR (split_absolute_uri target) (\<lambda>parsed. Inr (Some (if sr_path parsed = [] then ''/'' else sr_path parsed))))"

definition user_agent :: "('h, 'e) client \<Rightarrow> string option" where
  "user_agent c = header_of (request_headers c) ''user-agent''"

definition extension_report :: "extension \<Rightarrow> exn + json" where
  "extension_report x =
     bindR (decode_extension (ext_type x) (ext_data x)) (\<lambda>decoded.
     Inr (JObj (describe (ext_type x) (Some ExtensionType) @
       [(''length'', jnat (length (ext_data x))), (''decoded'', jopt JObj decoded), (''data'', jhex (ext_data x))])))"

definition tls_report :: "client_hello option \<Rightarrow> exn + json" where
  "tls_report client_hello =
     (case client_hello of
        None \<Rightarrow> Inr JNull
      | Some h \<Rightarrow>
          bindR (mapR extension_report (ch_extensions h)) (\<lambda>extensions.
          Inr (JObj (build_ja3 (Some h) @
            [(''ja4'', jopt jstr (build_ja4 (Some h))),
             (''version'', JObj (describe (ch_version h) (Some TLSVersion))),
             (''random'', jhex (ch_random h)),
             (''session_id'', jhex (ch_session_id h)),
             (''cipher_suites'', JList (map (\<lambda>x. JObj (describe x (Some CipherSuite))) (ch_cipher_suites h))),
             (''compression_methods'', JList (map jnat (ch_compression_methods h))),
             (''extensions'', JList extensions)]))))"

definition http1_report :: "('h, 'e) client \<Rightarrow> dict" where
  "http1_report c =
     [(''method'', jopt jstr (map_option r_method (cl_http1 c))),
      (''path'', jopt jstr (map_option r_path (cl_http1 c))),
      (''headers'', field_report (text_fields (case cl_http1 c of None \<Rightarrow> [] | Some r \<Rightarrow> r_headers r)))] @
     (case cl_http1_raw_head c of None \<Rightarrow> [] | Some raw_head \<Rightarrow> [(''raw_head'', jhex raw_head)])"

definition tcpip_report :: "('h, 'e) client \<Rightarrow> exn + dict" where
  "tcpip_report c =
     bindR (parse_syn (cl_syn_packet c)) (\<lambda>parsed.
     Inr (case parsed of
         Some (entry # entries) \<Rightarrow> entry # entries
       | _ \<Rightarrow>
           [(''cap_length'', JNull),
            (''dst_port'', jopt (\<lambda>s. jnat (snd s)) (cl_sockname c)),
            (''src_port'', jopt (\<lambda>p. jnat (snd p)) (cl_peername c)),
            (''ip'', JObj [(''id'', JNull), (''ttl'', JNull),
               (''ip_version'', jnat (case cl_peername c of Some (host, _) \<Rightarrow> if CHR '':'' \<in> set host then 6 else 4 | None \<Rightarrow> 4)),
               (''dst_ip'', jopt (\<lambda>s. jstr (fst s)) (cl_sockname c)),
               (''src_ip'', jopt (\<lambda>p. jstr (fst p)) (cl_peername c))]),
            (''tcp'', JObj [(''ack'', JNull), (''checksum'', JNull), (''seq'', JNull), (''window'', JNull)])]))"

section \<open>The report\<close>

definition SOURCE_URL :: string where "SOURCE_URL = ''https://github.com/solvefixed/solvetls''"

definition protocol_report :: "('h, 'e) client \<Rightarrow> exn + dict" where
  "protocol_report c =
     (if cl_http_version c = Some ''HTTP/2.0'' then bindR (http2_report (cl_http2 c)) (\<lambda>d. Inr [(''http2'', JObj d)])
      else if cl_http_version c = Some ''HTTP/1.1'' then Inr [(''http1'', JObj (http1_report c))]
      else Inr [])"

definition build_report :: "('h, 'e) client \<Rightarrow> exn + dict" where
  "build_report c =
     bindR (tls_report (cl_client_hello c)) (\<lambda>tls_part.
     bindR (protocol_report c) (\<lambda>protocol.
     bindR (tcpip_report c) (\<lambda>tcpip.
     Inr ([(''source'', jstr SOURCE_URL),
           (''ip'', jopt jstr (format_address (cl_peername c))),
           (''http_version'', jopt jstr (cl_http_version c)),
           (''method'', jopt jstr (request_method c)),
           (''user_agent'', jopt jstr (user_agent c)),
           (''tls'', tls_part)] @ protocol @ [(''tcpip'', JObj tcpip)]))))"

end
