(* ===== verification/Json.thy ===== *)
theory Json
  imports Naming Utf8
begin

text \<open>
  \<open>json.dumps(value, indent=2)\<close> of the Python library, which writes the reports: ASCII text with every
  other character escaped, one entry per line. The text determines the value.
\<close>

unbundle bit_operations_syntax

section \<open>Model\<close>

definition json_u :: "nat \<Rightarrow> string" where
  "json_u v = [CHR 0x5C, CHR ''u''] @ hex04 v"

definition json_escape :: "nat \<Rightarrow> string" where
  "json_escape c =
     (if c = 0x5C then [CHR 0x5C, CHR 0x5C]
      else if c = 0x22 then [CHR 0x5C, CHR 0x22]
      else if c = 0x0A then [CHR 0x5C, CHR ''n'']
      else if c = 0x0D then [CHR 0x5C, CHR ''r'']
      else if c = 0x09 then [CHR 0x5C, CHR ''t'']
      else if c = 0x0C then [CHR 0x5C, CHR ''f'']
      else if c = 0x08 then [CHR 0x5C, CHR ''b'']
      else if 0x20 \<le> c \<and> c \<le> 0x7E then [char_of c]
      else if c < 0x10000 then json_u c
      else let n = c - 0x10000 in json_u (0xD800 OR (n div 1024) AND 0x3FF) @ json_u (0xDC00 OR n AND 0x3FF))"

definition json_string :: "ustr \<Rightarrow> string" where
  "json_string s = CHR 0x22 # concat (map json_escape s) @ [CHR 0x22]"

definition json_newline :: "nat \<Rightarrow> string" where
  "json_newline level = CHR 0x0A # replicate (2 * level) CHR '' ''"

fun dumps :: "nat \<Rightarrow> json \<Rightarrow> string" where
  "dumps level JNull = ''null''"
| "dumps level (JBool b) = (if b then ''true'' else ''false'')"
| "dumps level (JNum n) = str_int n"
| "dumps level (JStr s) = json_string s"
| "dumps level (JList items) =
     (if items = [] then ''[]''
      else ''['' @ join_with '','' (map (\<lambda>item. json_newline (Suc level) @ dumps (Suc level) item) items) @ json_newline level @ '']'')"
| "dumps level (JObj items) =
     (if items = [] then ''{}''
      else ''{'' @ join_with '','' (map (\<lambda>(key, item). json_newline (Suc level) @ json_string (codes key) @ '': '' @ dumps (Suc level) item) items) @
             json_newline level @ ''}'')"

section \<open>The text of a string\<close>

lemma replicate_small: "replicate 2 x = [x, x]" "replicate 3 x = [x, x, x]"
  by (simp_all add: eval_nat_numeral)

lemma hex04_digits: "v < 65536 \<Longrightarrow> hex04 v = map hex_digit [v div 4096, v div 256 mod 16, v div 16 mod 16, v mod 16]"
proof -
  assume v: "v < 65536"
  have z: "hex_digit 0 = CHR ''0''" by code_simp
  have d: "v div 16 div 16 = v div 256" "v div 256 div 16 = v div 4096" by (simp_all add: div_mult2_eq [symmetric])
  note h = hex_nat.simps [of v] hex_nat.simps [of "v div 16"] hex_nat.simps [of "v div 256"] hex_nat.simps [of "v div 4096"]
  consider "v < 16" | "16 \<le> v" "v < 256" | "256 \<le> v" "v < 4096" | "4096 \<le> v" by linarith
  then show ?thesis
  proof cases
    case 1
    then have "hex_nat v = [hex_digit v]" "v div 16 = 0" "v div 256 = 0" "v div 4096 = 0" "v mod 16 = v" by (simp_all add: h)
    then show ?thesis by (simp add: hex04_def zfill_def z replicate_small)
  next
    case 2
    then have e: "v div 16 < 16" "v div 256 = 0" "v div 4096 = 0" "\<not> v < 16" by auto
    then have "hex_nat v = [hex_digit (v div 16), hex_digit (v mod 16)]" using h(1,2) by simp
    with e show ?thesis by (simp add: hex04_def zfill_def z replicate_small)
  next
    case 3
    then have e: "v div 256 < 16" "v div 4096 = 0" "\<not> v < 16" "\<not> v div 16 < 16" by auto
    then have "hex_nat v = [hex_digit (v div 256), hex_digit (v div 16 mod 16), hex_digit (v mod 16)]" using h(1-3) d by simp
    with e show ?thesis by (simp add: hex04_def zfill_def z)
  next
    case 4
    then have e: "v div 4096 < 16" "\<not> v < 16" "\<not> v div 16 < 16" "\<not> v div 256 < 16" using v by auto
    then have "hex_nat v = [hex_digit (v div 4096), hex_digit (v div 256 mod 16), hex_digit (v div 16 mod 16), hex_digit (v mod 16)]"
      using h d by simp
    then show ?thesis by (simp add: hex04_def zfill_def)
  qed
qed

definition hex_quad :: "string \<Rightarrow> nat" where
  "hex_quad s = foldl (\<lambda>a c. a * 16 + hex_val c) 0 (take 4 s)"

lemma hex_quad: "v < 65536 \<Longrightarrow> hex_quad (hex04 v @ r) = v" "v < 65536 \<Longrightarrow> length (hex04 v) = 4"
proof -
  assume v: "v < 65536"
  then have "v div 4096 < 16" by auto
  moreover have "((v div 4096 * 16 + v div 256 mod 16) * 16 + v div 16 mod 16) * 16 + v mod 16 = v"
  proof -
    have a: "v div 4096 * 16 + v div 256 mod 16 = v div 256" using div_mult_mod_eq [of "v div 256" 16] by (simp add: div_mult2_eq [symmetric])
    have b: "v div 256 * 16 + v div 16 mod 16 = v div 16" using div_mult_mod_eq [of "v div 16" 16] by (simp add: div_mult2_eq [symmetric])
    show ?thesis unfolding a b by simp
  qed
  ultimately show "hex_quad (hex04 v @ r) = v" by (simp add: hex_quad_def hex04_digits [OF v])
  show "length (hex04 v) = 4" by (simp add: hex04_digits [OF v])
qed

text \<open>Reading back one character.\<close>

definition unescape :: "string \<Rightarrow> nat \<times> string" where
  "unescape s =
     (if hd s \<noteq> CHR 0x5C then (of_char (hd s), tl s)
      else if s ! 1 \<noteq> CHR ''u'' then
        (let c = s ! 1 in
         if c = CHR ''n'' then 10 else if c = CHR ''r'' then 13 else if c = CHR ''t'' then 9
         else if c = CHR ''f'' then 12 else if c = CHR ''b'' then 8 else of_char c, drop 2 s)
      else let v = hex_quad (drop 2 s) in
        if 0xD800 \<le> v \<and> v < 0xDC00
        then ((v - 0xD800) * 1024 + (hex_quad (drop 8 s) - 0xDC00) + 0x10000, drop 12 s) else (v, drop 6 s))"

lemma low_bits: "m < 1024 \<Longrightarrow> (k * 1024) OR m = k * 1024 + (m :: nat)"
proof -
  assume m: "m < 1024"
  have "k * 1024 = push_bit 10 k" by (simp add: push_bit_eq_mult)
  moreover have "take_bit 10 m = m" using m by (simp add: take_bit_nat_eq_self_iff)
  ultimately have "(k * 1024) AND m = 0" by (metis bit_eqI bit_and_iff bit_push_bit_iff bit_take_bit_iff bit_0_eq bot_apply bot_bool_def not_le)
  then show ?thesis by (simp add: disjunctive_add_eq_or)
qed

lemma surrogates:
  fixes n :: nat
  assumes "n < 0x100000"
  shows "0xD800 OR (n div 1024) AND 0x3FF = 0xD800 + n div 1024" "0xDC00 OR n AND 0x3FF = 0xDC00 + n mod 1024"
proof -
  have m: "k AND 0x3FF = k mod 1024" for k :: nat using take_bit_eq_mask [of 10 k] by (simp add: take_bit_eq_mod mask_eq_exp_minus_1)
  have "n div 1024 < 1024" using assms by auto
  then show "0xD800 OR (n div 1024) AND 0x3FF = 0xD800 + n div 1024" "0xDC00 OR n AND 0x3FF = 0xDC00 + n mod 1024"
    using low_bits [of "n div 1024" 54] low_bits [of "n mod 1024" 55] by (simp_all add: m)
qed

lemma json_u_unescape:
  "v < 65536 \<Longrightarrow> \<not> (0xD800 \<le> v \<and> v < 0xDC00) \<Longrightarrow> unescape (json_u v @ r) = (v, r)"
  "v < 65536 \<Longrightarrow> w < 65536 \<Longrightarrow> 0xD800 \<le> v \<Longrightarrow> v < 0xDC00 \<Longrightarrow>
     unescape (json_u v @ json_u w @ r) = ((v - 0xD800) * 1024 + (w - 0xDC00) + 0x10000, r)"
proof -
  have l: "take 4 (hex04 u @ x) = hex04 u" "drop 4 (hex04 u @ x) = x" if "u < 65536" for u x using hex_quad(2) [OF that] by simp_all
  have d: "drop 2 (json_u u @ x) = hex04 u @ x" "drop 6 (json_u u @ x) = x" if "u < 65536" for u x
    using l [OF that] by (simp_all add: json_u_def)
  have h: "hd (json_u u @ x) = CHR 0x5C" "(json_u u @ x) ! 1 = CHR ''u''" for u x by (simp_all add: json_u_def)
  show "v < 65536 \<Longrightarrow> \<not> (0xD800 \<le> v \<and> v < 0xDC00) \<Longrightarrow> unescape (json_u v @ r) = (v, r)"
    unfolding unescape_def h by (simp add: d hex_quad(1) Let_def del: drop_append)
  assume v: "v < 65536" "w < 65536" "0xD800 \<le> v" "v < 0xDC00"
  have "drop 8 (json_u v @ json_u w @ r) = drop 2 (drop 6 (json_u v @ json_u w @ r))"
    "drop 12 (json_u v @ json_u w @ r) = drop 6 (drop 6 (json_u v @ json_u w @ r))" by (simp_all del: drop_append)
  then have "drop 8 (json_u v @ json_u w @ r) = hex04 w @ r" "drop 12 (json_u v @ json_u w @ r) = r"
    using v(1,2) by (simp_all only: d)
  with v show "unescape (json_u v @ json_u w @ r) = ((v - 0xD800) * 1024 + (w - 0xDC00) + 0x10000, r)"
    unfolding unescape_def h by (simp add: d hex_quad(1) Let_def del: drop_append)
qed

lemma json_escape_unescape: "scalar c \<Longrightarrow> unescape (json_escape c @ r) = (c, r)"
proof -
  assume sc: "scalar c"
  consider "c < 0x20 \<or> c = 0x5C \<or> c = 0x22" | "0x20 \<le> c" "c \<le> 0x7E" "c \<noteq> 0x5C" "c \<noteq> 0x22" | "0x7E < c" "c < 0x10000" | "0x10000 \<le> c" by linarith
  then show ?thesis
  proof cases
    case 1
    show ?thesis
    proof (cases "c \<in> {0x5C, 0x22, 0x0A, 0x0D, 0x09, 0x0C, 0x08}")
      case True
      then show ?thesis by (elim insertE emptyE) (simp_all add: json_escape_def unescape_def)
    next
      case False
      with 1 have "json_escape c = json_u c" by (simp add: json_escape_def)
      with 1 False json_u_unescape(1) [of c r] show ?thesis by simp
    qed
  next
    case 2
    have "char_of c \<noteq> CHR 0x5C"
    proof
      assume "char_of c = CHR 0x5C"
      then have "(of_char (char_of c) :: nat) = of_char (CHR 0x5C)" by simp
      with 2 show False by simp
    qed
    then show ?thesis using 2 by (simp add: json_escape_def unescape_def)
  next
    case 3
    then have "\<not> (0xD800 \<le> c \<and> c < 0xDC00)" using sc by (auto simp: scalar_def)
    then show ?thesis using json_u_unescape(1) [of c r] 3 by (simp add: json_escape_def)
  next
    case 4
    let ?n = "c - 0x10000"
    have n: "?n < 0x100000" using sc 4 by (auto simp: scalar_def)
    then have "?n div 1024 < 1024" "?n mod 1024 < 1024" by auto
    with 4 show ?thesis by (simp add: json_escape_def surrogates [OF n] json_u_unescape(2) Let_def)
  qed
qed


lemma json_escape_head: "json_escape c \<noteq> [] \<and> hd (json_escape c) \<noteq> CHR 0x22"
proof -
  have "char_of c \<noteq> CHR 0x22" if "c \<noteq> 0x22" "c \<le> 0x7E"
  proof
    assume "char_of c = CHR 0x22"
    then have "(of_char (char_of c) :: nat) = of_char (CHR 0x22)" by simp
    with that show False by simp
  qed
  then show ?thesis by (simp add: json_escape_def json_u_def Let_def)
qed

lemma json_chars_inject:
  "list_all scalar s \<Longrightarrow> list_all scalar s' \<Longrightarrow>
    concat (map json_escape s) @ CHR 0x22 # r = concat (map json_escape s') @ CHR 0x22 # r' \<Longrightarrow> s = s' \<and> r = r'"
proof (induction s arbitrary: s')
  case Nil
  then show ?case using json_escape_head by (cases s') (auto, metis hd_append2 list.sel(1))
next
  case (Cons c s)
  obtain c' t where s': "s' = c' # t" using Cons.prems json_escape_head by (cases s') (auto, metis hd_append2 list.sel(1))
  have "unescape (json_escape c @ concat (map json_escape s) @ CHR 0x22 # r) = unescape (json_escape c' @ concat (map json_escape t) @ CHR 0x22 # r')"
    using Cons.prems(3) s' by simp
  then have "c = c'" "concat (map json_escape s) @ CHR 0x22 # r = concat (map json_escape t) @ CHR 0x22 # r'"
    using Cons.prems(1,2) s' by (simp_all add: json_escape_unescape)
  with Cons.IH [of t] Cons.prems s' show ?case by simp
qed

lemma json_string_inject:
  "list_all scalar s \<Longrightarrow> list_all scalar s' \<Longrightarrow> json_string s @ r = json_string s' @ r' \<Longrightarrow> s = s' \<and> r = r'"
  using json_chars_inject [of s s' r r'] by (simp add: json_string_def)

section \<open>The text of a value\<close>

text \<open>Strings of Unicode scalar values.\<close>

fun json_ok :: "json \<Rightarrow> bool" where
  "json_ok (JStr s) \<longleftrightarrow> list_all scalar s"
| "json_ok (JList items) \<longleftrightarrow> (\<forall>item \<in> set items. json_ok item)"
| "json_ok (JObj items) \<longleftrightarrow> (\<forall>(key, item) \<in> set items. json_ok item)"
| "json_ok _ \<longleftrightarrow> True"

definition stops :: "string \<Rightarrow> bool" where
  "stops r \<longleftrightarrow> r = [] \<or> \<not> is_digit (hd r)"

lemma stops_simps [simp]: "stops []" "stops (CHR 0x0A # r)" "stops (CHR '','' # r)"
  by (simp_all add: stops_def is_digit_def)

lemma codes_scalar: "list_all scalar (codes s)"
proof -
  have "scalar (of_char c)" for c
    using nat_of_char_less_256 [of c] by (simp add: scalar_def del: nat_of_char_less_256)
  then show ?thesis by (simp add: codes_def list_all_iff)
qed

lemma str_int_inject:
  assumes "str_int n @ r = str_int n' @ r'" "stops r" "stops r'"
  shows "n = n' \<and> r = r'"
proof -
  have t: "takeWhile is_digit (str_nat k @ x) = str_nat k" "dropWhile is_digit (str_nat k @ x) = x" if "stops x" for k x
    using that str_nat_digits [of _ k] by (cases x; auto simp: stops_def takeWhile_append dropWhile_append)+
  have m: "str_nat k @ x \<noteq> CHR ''-'' # y" "CHR ''-'' # y \<noteq> str_nat k @ x" for k x y
    using str_nat_digits [of "CHR ''-''" k] by (cases "str_nat k"; auto simp: is_digit_def)+
  have same: "a = b \<and> r = r'" if "str_nat a @ r = str_nat b @ r'" for a b
    using that t [OF assms(2), of a] t [OF assms(3), of b] by (metis str_nat_inject)
  show ?thesis
  proof (cases "n < 0")
    case True
    then have "n' < 0" using assms(1) m by (auto simp: str_int_def split: if_splits)
    with True show ?thesis using assms(1) same [of "nat (- n)" "nat (- n')"] by (auto simp: str_int_def)
  next
    case False
    then have "\<not> n' < 0" using assms(1) m by (auto simp: str_int_def split: if_splits)
    with False show ?thesis using assms(1) same [of "nat n" "nat n'"] by (auto simp: str_int_def)
  qed
qed

text \<open>The first character tells the kind of value.\<close>

fun json_kind :: "json \<Rightarrow> nat" where
  "json_kind (JList _) = 0" | "json_kind (JObj _) = 1" | "json_kind (JStr _) = 2" | "json_kind JNull = 3"
| "json_kind (JBool b) = (if b then 4 else 5)" | "json_kind (JNum _) = 6"

definition char_kind :: "char \<Rightarrow> nat" where
  "char_kind c = (if c = CHR ''['' then 0 else if c = CHR ''{'' then 1 else if c = CHR 0x22 then 2 else if c = CHR ''n'' then 3
     else if c = CHR ''t'' then 4 else if c = CHR ''f'' then 5 else 6)"

lemma char_kind_literals:
  "char_kind CHR ''['' = 0" "char_kind CHR ''{'' = 1" "char_kind CHR 0x22 = 2" "char_kind CHR ''n'' = 3" "char_kind CHR ''t'' = 4"
  "char_kind CHR ''f'' = 5" "char_kind CHR ''-'' = 6"
  by (simp_all add: char_kind_def)

lemma char_kind_digit: "is_digit c \<Longrightarrow> char_kind c = 6"
proof -
  assume d: "is_digit c"
  have n: "\<not> is_digit CHR ''[''" "\<not> is_digit CHR ''{''" "\<not> is_digit CHR 0x22" "\<not> is_digit CHR ''n''" "\<not> is_digit CHR ''t''" "\<not> is_digit CHR ''f''"
    by code_simp+
  have "c \<noteq> CHR ''[''" "c \<noteq> CHR ''{''" "c \<noteq> CHR 0x22" "c \<noteq> CHR ''n''" "c \<noteq> CHR ''t''" "c \<noteq> CHR ''f''"
    using d by (rule contrapos_pn, simp only: n not_False_eq_True)+
  then show "char_kind c = 6" by (simp only: char_kind_def if_False)
qed

lemma dumps_head: "dumps l j \<noteq> [] \<and> char_kind (hd (dumps l j)) = json_kind j"
proof (cases j)
  case (JNum n)
  have "char_kind (hd (str_nat k)) = 6" for k by (rule char_kind_digit, rule str_nat_digits [of _ k]) simp
  with JNum show ?thesis by (simp add: str_int_def char_kind_literals)
qed (simp_all add: char_kind_literals json_string_def)

lemma items_inject:
  assumes "\<And>x y r r'. x \<in> set xs \<Longrightarrow> y \<in> set ys \<Longrightarrow> stops r \<Longrightarrow> stops r' \<Longrightarrow> g x @ r = g y @ r' \<Longrightarrow> x = y \<and> r = r'"
    and "xs \<noteq> []" "ys \<noteq> []"
    and "join_with '','' (map g xs) @ CHR 0x0A # r = join_with '','' (map g ys) @ CHR 0x0A # r'"
  shows "xs = ys \<and> r = r'"
  using assms
proof (induction xs arbitrary: ys)
  case (Cons x xs)
  obtain y ys' where ys: "ys = y # ys'" using Cons.prems(3) by (cases ys) auto
  define rest where "rest zs q = (if zs = [] then CHR 0x0A # q else CHR '','' # join_with '','' (map g zs) @ CHR 0x0A # q)" for zs q
  have join: "join_with '','' (map g (z # zs)) @ CHR 0x0A # q = g z @ rest zs q" for z zs q
    by (cases zs) (simp_all add: rest_def)
  have "x = y \<and> rest xs r = rest ys' r'"
    by (rule Cons.prems(1)) (use Cons.prems(4) in \<open>simp_all add: ys join rest_def [of xs] rest_def [of ys'] del: list.map\<close>)
  then have xy: "x = y" "xs = [] \<longleftrightarrow> ys' = []" "xs = [] \<Longrightarrow> r = r'"
    "xs \<noteq> [] \<Longrightarrow> join_with '','' (map g xs) @ CHR 0x0A # r = join_with '','' (map g ys') @ CHR 0x0A # r'"
    by (auto simp: rest_def split: if_splits)
  show ?case
  proof (cases "xs = []")
    case False
    have "xs = ys' \<and> r = r'"
    proof (rule Cons.IH [OF _ False _ xy(4) [OF False]])
      fix u w q q' assume "u \<in> set xs" "w \<in> set ys'" "stops q" "stops q'" "g u @ q = g w @ q'"
      then show "u = w \<and> q = q'" using Cons.prems(1) [of u w q q'] ys by simp
    qed (use False xy(2) in simp)
    with xy(1) ys show ?thesis by simp
  qed (use xy ys in simp)
qed simp


lemma join_newline:
  "xs \<noteq> [] \<Longrightarrow> \<exists>t. join_with sep (map (\<lambda>x. json_newline l @ g x) xs) @ q = CHR 0x0A # t"
  by (cases xs rule: remdups_adj.cases) (auto simp: json_newline_def)

lemma dumps_empty:
  "xs \<noteq> [] \<Longrightarrow> dumps l (JList xs) @ r \<noteq> ''[]'' @ r'"
  "ys \<noteq> [] \<Longrightarrow> dumps l (JObj ys) @ r \<noteq> ''{}'' @ r'"
  using join_newline [of xs "'',''" "Suc l" "dumps (Suc l)" "json_newline l @ '']'' @ r"]
    join_newline [of ys "'',''" "Suc l" "\<lambda>(key, item). json_string (codes key) @ '': '' @ dumps (Suc l) item" "json_newline l @ ''}'' @ r"]
  by (auto simp: case_prod_unfold)

lemma dumps_prefix:
  "json_ok j \<Longrightarrow> json_ok j' \<Longrightarrow> stops r \<Longrightarrow> stops r' \<Longrightarrow> dumps l j @ r = dumps l j' @ r' \<Longrightarrow> j = j' \<and> r = r'"
proof (induction l j arbitrary: j' r r' rule: dumps.induct)
  case (1 l)
  then have "json_kind j' = 3" using dumps_head [of l j'] by (metis hd_append2 dumps.simps(1) dumps_head json_kind.simps(4))
  with 1 show ?case by (cases j') (auto split: if_splits)
next
  case (2 l b)
  have "json_kind j' = json_kind (JBool b)" using "2.prems"(5) dumps_head by (metis hd_append2)
  with 2 show ?case by (cases j') (auto split: if_splits)
next
  case (3 l n)
  have "json_kind j' = json_kind (JNum n)" using "3.prems"(5) dumps_head by (metis hd_append2)
  then obtain n' where "j' = JNum n'" by (cases j') (auto split: if_splits)
  with "3.prems" str_int_inject [of n r n' r'] show ?case by simp
next
  case (4 l s)
  have "json_kind j' = json_kind (JStr s)" using "4.prems"(5) dumps_head by (metis hd_append2)
  then obtain s' where "j' = JStr s'" by (cases j') (auto split: if_splits)
  with "4.prems" json_string_inject [of s s' r r'] show ?case by simp
next
  case (5 l xs)
  have "json_kind j' = json_kind (JList xs)" using "5.prems"(5) dumps_head by (metis hd_append2)
  then obtain ys where j': "j' = JList ys" by (cases j') (auto split: if_splits)
  let ?g = "\<lambda>x. json_newline (Suc l) @ dumps (Suc l) x"
  show ?case
  proof (cases "xs = [] \<or> ys = []")
    case True
    then have "xs = [] \<and> ys = []" using "5.prems"(5) dumps_empty(1) unfolding j' by (metis dumps.simps(5))
    then show ?thesis using "5.prems"(5) by (simp add: j')
  next
    case False
    have "xs = ys \<and> replicate (2 * l) CHR '' '' @ '']'' @ r = replicate (2 * l) CHR '' '' @ '']'' @ r'"
    proof (rule items_inject [of xs ys ?g])
      fix x y q q' assume "x \<in> set xs" "y \<in> set ys" "stops q" "stops q'" "?g x @ q = ?g y @ q'"
      then show "x = y \<and> q = q'" using "5.IH" [of x y q q'] False "5.prems"(1,2) j' by simp
    qed (use False "5.prems"(5) in \<open>simp_all add: j' json_newline_def\<close>)
    then show ?thesis using j' by simp
  qed
next
  case (6 l xs)
  have "json_kind j' = json_kind (JObj xs)" using "6.prems"(5) dumps_head by (metis hd_append2)
  then obtain ys where j': "j' = JObj ys" by (cases j') (auto split: if_splits)
  let ?g = "\<lambda>(key, item). json_newline (Suc l) @ json_string (codes key) @ '': '' @ dumps (Suc l) item"
  show ?case
  proof (cases "xs = [] \<or> ys = []")
    case True
    then have "xs = [] \<and> ys = []" using "6.prems"(5) dumps_empty(2) unfolding j' by (metis dumps.simps(6))
    then show ?thesis using "6.prems"(5) by (simp add: j')
  next
    case False
    have "xs = ys \<and> replicate (2 * l) CHR '' '' @ ''}'' @ r = replicate (2 * l) CHR '' '' @ ''}'' @ r'"
    proof (rule items_inject [of xs ys ?g])
      fix x y q q' assume a: "x \<in> set xs" "y \<in> set ys" "stops q" "stops q'" "?g x @ q = ?g y @ q'"
      obtain k v k' v' where xy: "x = (k, v)" "y = (k', v')" by (cases x; cases y) auto
      have "json_string (codes k) @ '': '' @ dumps (Suc l) v @ q = json_string (codes k') @ '': '' @ dumps (Suc l) v' @ q'"
        using a(5) by (simp add: xy)
      from json_string_inject [OF codes_scalar codes_scalar this]
      have "k = k'" "dumps (Suc l) v @ q = dumps (Suc l) v' @ q'" by (simp_all add: inj_codes)
      then show "x = y \<and> q = q'" using "6.IH" [of x k v v' q q'] False "6.prems"(1,2) j' a xy by auto
    qed (use False "6.prems"(5) in \<open>simp_all add: j' json_newline_def\<close>)
    then show ?thesis using j' by simp
  qed
qed

lemma dumps_inject: "json_ok j \<Longrightarrow> json_ok j' \<Longrightarrow> dumps l j = dumps l j' \<Longrightarrow> j = j'"
  using dumps_prefix [of j j' "[]" "[]" l] by simp

end
