(* ===== verification/Server.thy ===== *)
theory Server
  imports Report Json Storage
begin

text \<open>
  \<open>solvetls/server.py\<close>, the part that serves one client: the answer to a request, the report slots, the
  error codes, and what is closed and stored. The tasks of the other clients and the clock are part of
  the environment: \<open>wd_slots\<close> is the number of report slots the other tasks hold, \<open>wd_date\<close> is
  \<open>formatdate(usegmt=True)\<close>. \<open>wd_connect\<close> stands for the calls the constructor of \<open>ClientConnection\<close> makes: the
  names of the two ends, the saved SYN packet and \<open>wrap_bio\<close>, any of which may raise.
\<close>

section \<open>State\<close>

record ('h, 'e, 'c, 'd) world =
  wd_h2 :: "'h h2_api"
  wd_net :: "'e net_api"
  wd_db :: "('c, 'd) db_api"
  wd_date :: "'e \<Rightarrow> string"
  wd_slots :: "'e \<Rightarrow> nat"
  wd_connect :: "('e, (string \<times> nat) option \<times> (string \<times> nat) option \<times> bytes option) meth"

text \<open>\<open>wk_slot\<close>: the client is in \<open>_report_clients\<close>.\<close>

record ('h, 'e, 'c, 'd) worker =
  wk_client :: "('h, 'e) client"
  wk_slot :: bool
  wk_storage :: "('c, 'd) storage"

definition on_client :: "(('h, 'e) client, 'a) meth \<Rightarrow> (('h, 'e, 'c, 'd) worker, 'a) meth" where
  "on_client m s = (case m (wk_client s) of (r, c) \<Rightarrow> (r, s\<lparr>wk_client := c\<rparr>))"

definition on_storage :: "(('c, 'd) storage, 'a) meth \<Rightarrow> (('h, 'e, 'c, 'd) worker, 'a) meth" where
  "on_storage m s = (case m (wk_storage s) of (r, t) \<Rightarrow> (r, s\<lparr>wk_storage := t\<rparr>))"

abbreviation wk_env :: "('h, 'e, 'c, 'd) worker \<Rightarrow> 'e" where
  "wk_env s \<equiv> tl_env (cl_tls (wk_client s))"

definition FAVICON_PATH :: string where "FAVICON_PATH = ''/favicon.ico''"
definition REPORT_HEADERS :: "(string \<times> string) list" where
  "REPORT_HEADERS = [(''content-type'', ''application/json''), (''cache-control'', ''no-store'')]"
definition MAX_CLIENTS :: nat where "MAX_CLIENTS = 32"
definition MAX_REPORTS :: nat where "MAX_REPORTS = 4"

section \<open>The answer\<close>

definition http1_expectation_failed :: "('h, 'e) client \<Rightarrow> exn + bool" where
  "http1_expectation_failed c =
     (let headers = (case cl_http1 c of None \<Rightarrow> [] | Some r \<Rightarrow> r_headers r) in
      case parse_expectations (map (\<lambda>(_, field). Str field) (filter (\<lambda>(name, _). lower name = ''expect'') headers)) of
        Inr expectations \<Rightarrow> Inr (list_ex (\<lambda>v. v \<noteq> ''100-continue'') expectations)
      | Inl e \<Rightarrow> if is_ValueError e then Inr True else Inl e)"

definition response_policy :: "('h, 'e) client \<Rightarrow> exn + nat \<times> string option" where
  "response_policy c =
     bindR (routing_path c) (\<lambda>path.
     if path = Some FAVICON_PATH then Inr (204, None)
     else bindR (http1_expectation_failed c) (\<lambda>expectation_failed.
       if expectation_failed \<or> (case cl_http2 c of None \<Rightarrow> False | Some capture \<Rightarrow> cap_expectation_failed capture)
       then Inr (417, Some ''Unsupported expectation'')
       else if request_method c = Some ''CONNECT'' then Inr (501, Some ''CONNECT tunnels are not supported'')
       else Inr (200, None)))"

definition answer :: "('h, 'e, 'c, 'd) world \<Rightarrow> bytes \<Rightarrow> (string \<times> string) list option \<Rightarrow> nat \<Rightarrow> (('h, 'e, 'c, 'd) worker, unit) meth" where
  "answer w content headers status_code =
     bindM (getsM (\<lambda>s. wd_date w (wk_env s))) (\<lambda>date.
     on_client (send_client_response (wd_h2 w) (wd_net w) date content headers status_code))"

definition json_content :: "dict \<Rightarrow> bytes" where
  "json_content report = encode_utf8 (dumps 0 (JObj report))"

definition send_json :: "('h, 'e, 'c, 'd) world \<Rightarrow> dict \<Rightarrow> nat \<Rightarrow> (('h, 'e, 'c, 'd) worker, nat) meth" where
  "send_json w report status_code =
     (let content = json_content report in
      bindM (answer w content (Some REPORT_HEADERS) status_code) (\<lambda>_. ret (length content)))"

definition take_slot :: "('h, 'e, 'c, 'd) world \<Rightarrow> (('h, 'e, 'c, 'd) worker, bool) meth" where
  "take_slot w =
     bindM (getsM wk_slot) (\<lambda>slot.
     if slot then ret True
     else bindM (getsM (\<lambda>s. wd_slots w (wk_env s))) (\<lambda>taken.
       if taken \<ge> MAX_REPORTS then ret False
       else bindM (modifyM (\<lambda>s. s\<lparr>wk_slot := True\<rparr>)) (\<lambda>_. ret True)))"

definition report_with :: "string option \<Rightarrow> ('h, 'e) client \<Rightarrow> exn + dict" where
  "report_with error c =
     bindR (build_report c) (\<lambda>report.
     Inr (case error of None \<Rightarrow> report | Some m \<Rightarrow> if m = [] then report else report @ [(''error'', jstr m)]))"

definition send_report :: "('h, 'e, 'c, 'd) world \<Rightarrow> nat \<Rightarrow> string option \<Rightarrow> (('h, 'e, 'c, 'd) worker, nat \<times> nat \<times> dict option) meth" where
  "send_report w status error =
     bindM (take_slot w) (\<lambda>slot.
     if \<not> slot
     then bindM (answer w [] (Some [(''cache-control'', ''no-store'')]) 503) (\<lambda>_. ret (503, 0, None))
     else bindM (getsM (\<lambda>s. report_with error (wk_client s))) (\<lambda>built.
          bindM (liftR built) (\<lambda>report.
          bindM (send_json w report status) (\<lambda>content_length.
          ret (status, content_length, Some report)))))"

text \<open>The \<open>try\<close> block of \<open>_serve_client\<close>; its value is \<open>report_to_save\<close>. The log line at its end changes nothing.\<close>

definition serve_request :: "('h, 'e, 'c, 'd) world \<Rightarrow> (('h, 'e, 'c, 'd) worker, dict option) meth" where
  "serve_request w =
     bindM (on_client (do_tls_handshake (wd_net w))) (\<lambda>_.
     bindM (on_client (handle_http (wd_h2 w) (wd_net w))) (\<lambda>_.
     bindM (getsM (\<lambda>s. response_policy (wk_client s))) (\<lambda>policy.
     bindM (liftR policy) (\<lambda>(status, error).
     if status = 204 then bindM (answer w [] None status) (\<lambda>_. ret None)
     else bindM (send_report w status error) (\<lambda>(_, _, report). ret report)))))"

section \<open>Errors\<close>

fun is_SSLError :: "exn \<Rightarrow> bool" where
  "is_SSLError (SSLError _) = True"
| "is_SSLError SSLWantReadError = True"
| "is_SSLError SSLWantWriteError = True"
| "is_SSLError _ = False"

fun is_ConnectionError :: "exn \<Rightarrow> bool" where
  "is_ConnectionError (ConnectionResetError _) = True"
| "is_ConnectionError (PyConnectionError _) = True"
| "is_ConnectionError _ = False"

text \<open>The \<open>except\<close> clauses: the error code for the close of an HTTP/2 connection and \<open>report_to_save\<close>.\<close>

definition send_error_report :: "('h, 'e, 'c, 'd) world \<Rightarrow> string \<Rightarrow> nat \<Rightarrow> (('h, 'e, 'c, 'd) worker, dict option) meth" where
  "send_error_report w message status =
     handleM (bindM (send_report w status (Some message)) (\<lambda>(_, _, report). ret report))
       (\<lambda>e. if is_ConnectionError e \<or> e = TimeoutError \<or> is_SSLError e then ret None else raise e)"

definition serve_error :: "('h, 'e, 'c, 'd) world \<Rightarrow> exn \<Rightarrow> (('h, 'e, 'c, 'd) worker, nat \<times> dict option) meth" where
  "serve_error w e =
     (case e of
        HTTP1Error message status \<Rightarrow> bindM (send_error_report w message status) (\<lambda>report. ret (NO_ERROR, report))
      | ProtocolError _ code \<Rightarrow> ret (code, None)
      | FrameParsingError _ code \<Rightarrow> ret (code, None)
      | ValueError _ \<Rightarrow> ret (PROTOCOL_ERROR, None)
      | PyHPACKError _ \<Rightarrow> ret (COMPRESSION_ERROR, None)
      | CancelledError _ \<Rightarrow> raise e
      | Diverges \<Rightarrow> raise e
      | _ \<Rightarrow> if is_SSLError e \<or> is_ConnectionError e \<or> e = TimeoutError then ret (NO_ERROR, None)
            else ret (INTERNAL_ERROR, None))"

definition serve_guarded :: "('h, 'e, 'c, 'd) world \<Rightarrow> (('h, 'e, 'c, 'd) worker, nat \<times> dict option) meth" where
  "serve_guarded w = handleM (bindM (serve_request w) (\<lambda>report. ret (NO_ERROR, report))) (serve_error w)"

definition serve_client :: "('h, 'e, 'c, 'd) world \<Rightarrow> (('h, 'e, 'c, 'd) worker, unit) meth" where
  "serve_client w =
     bindM (tryM (serve_guarded w)) (\<lambda>r.
     if r = Inl Diverges then raise Diverges
     else bindM (on_client (close_client (wd_h2 w) (wd_net w) (case r of Inr (code, _) \<Rightarrow> code | Inl _ \<Rightarrow> NO_ERROR))) (\<lambda>_.
       case r of
         Inl e \<Rightarrow> raise e
       | Inr (_, report) \<Rightarrow> (case report of None \<Rightarrow> ret () | Some d \<Rightarrow> on_storage (save_fingerprint (wd_db w) d))))"

section \<open>The task of a client\<close>

text \<open>The client of \<open>_handle_client\<close>. Before it is constructed, \<open>wk_client\<close> only carries the environment of the
  connection; the log context that is set from its address changes nothing.\<close>

definition connect :: "('h, 'e, 'c, 'd) world \<Rightarrow> (('h, 'e, 'c, 'd) worker, unit) meth" where
  "connect w s =
     (case on_client (on_tls (on_env (wd_connect w))) s of
        (Inl e, s1) \<Rightarrow> (Inl e, s1)
      | (Inr (peername, sockname, syn_packet), s1) \<Rightarrow>
          (Inr (), s1\<lparr>wk_client := ClientConnection peername sockname syn_packet (wk_env s1)\<rparr>))"

definition handle_client :: "('h, 'e, 'c, 'd) world \<Rightarrow> (('h, 'e, 'c, 'd) worker, unit) meth" where
  "handle_client w =
     bindM (connect w) (\<lambda>_.
     finallyM (serve_client w) (modifyM (\<lambda>s. s\<lparr>wk_slot := False\<rparr>)))"

text \<open>The task that \<open>_accept_client\<close> makes of the handler, with its callback \<open>_client_done\<close>, which closes the writer
  unless it is closing and logs the exception of the task.\<close>

definition writer_done :: "('h, 'e, 'c, 'd) world \<Rightarrow> (('h, 'e, 'c, 'd) worker, unit) meth" where
  "writer_done w =
     bindM (getsM (\<lambda>s. net_is_closing (wd_net w) (wk_env s))) (\<lambda>closing.
     if \<not> closing then on_client (on_tls (on_env (net_close (wd_net w)))) else ret ())"

definition client_task :: "('h, 'e, 'c, 'd) world \<Rightarrow> (('h, 'e, 'c, 'd) worker, unit) meth" where
  "client_task w =
     bindM (tryM (handle_client w)) (\<lambda>r.
     if r = Inl Diverges then raise Diverges else writer_done w)"

end
