(* ===== verification/Report_Correct.thy ===== *)
theory Report_Correct
  imports Report Connection_Correct
begin

text \<open>
  The report is complete: it can always be built, and everything the client sent that was captured can
  be read off it again.
\<close>

section \<open>Injectivity of the parts\<close>

lemma jstr_inject [simp]: "jstr a = jstr b \<longleftrightarrow> a = b"
  by (simp add: jstr_def inj_codes)

lemma jnat_inject [simp]: "jnat a = jnat b \<longleftrightarrow> a = b"
  by (simp add: jnat_def)

lemma jopt_inject:
  assumes "\<And>x y. f x = f y \<Longrightarrow> x = y" and "\<And>x. f x \<noteq> JNull"
  shows "jopt f a = jopt f b \<longleftrightarrow> a = b"
  using assms by (cases a; cases b) (auto dest: sym)

lemma jopt_jstr_inject [simp]: "jopt jstr a = jopt jstr b \<longleftrightarrow> a = b"
  by (rule jopt_inject) (simp_all add: jstr_def inj_codes)

lemma describe_inject: "describe a t @ xs = describe b t' @ ys \<Longrightarrow> a = b"
  by (simp add: describe_def)

lemma describe_inject' [simp]: "describe a t = describe b t \<longleftrightarrow> a = b"
  using describe_inject [of a t "[]" b t "[]"] by auto

lemma map_inject_list: "(\<And>x y. x \<in> set xs \<Longrightarrow> y \<in> set ys \<Longrightarrow> f x = f y \<Longrightarrow> g x = g y) \<Longrightarrow> map f xs = map f ys \<Longrightarrow> map g xs = map g ys"
proof (induction xs arbitrary: ys)
  case (Cons x xs)
  then show ?case by (cases ys) auto
qed auto

lemma field_report_bytes: "field_report (byte_fields a) = field_report (byte_fields b) \<longleftrightarrow> a = b"
proof
  assume "field_report (byte_fields a) = field_report (byte_fields b)"
  then have "map (\<lambda>(k, v). JList [jstr (latin1 k), jstr (latin1 v)]) a = map (\<lambda>(k, v). JList [jstr (latin1 k), jstr (latin1 v)]) b"
    by (simp add: field_report_def case_prod_unfold o_def)
  from map_inject_list [OF _ this, of id] show "a = b" by (simp add: case_prod_unfold prod_eq_iff inj_latin1)
qed simp

lemma frame_report_raw: "frame_report f = frame_report g \<Longrightarrow> pf_raw f = pf_raw g"
proof -
  assume e: "frame_report f = frame_report g"
  have "last (frame_report f) = (''raw'', jhex (pf_raw f))" "last (frame_report g) = (''raw'', jhex (pf_raw g))"
    by (simp_all add: frame_report_def)
  with e show ?thesis by simp
qed

lemma extension_report_inject:
  assumes "extension_report x = Inr j" "extension_report y = Inr j"
  shows "x = y"
proof -
  obtain d e where "describe (ext_type x) (Some ExtensionType) @ [(''length'', jnat (length (ext_data x))), (''decoded'', d), (''data'', jhex (ext_data x))] =
      describe (ext_type y) (Some ExtensionType) @ [(''length'', jnat (length (ext_data y))), (''decoded'', e), (''data'', jhex (ext_data y))]"
    using assms unfolding extension_report_def bindR_eq_Inr by auto
  moreover from describe_inject [OF this] have "ext_type x = ext_type y" .
  ultimately show ?thesis by simp
qed

lemma mapR_Inr: "mapR f xs = Inr ys \<longleftrightarrow> list_all2 (\<lambda>x y. f x = Inr y) xs ys"
  by (induction xs arbitrary: ys) (auto simp: bindR_eq_Inr list_all2_Cons1)

lemma mapR_inject:
  assumes "mapR f xs = Inr zs" "mapR f ys = Inr zs" and "\<And>x y z. f x = Inr z \<Longrightarrow> f y = Inr z \<Longrightarrow> x = y"
  shows "xs = ys"
proof -
  from assms(1,2) have "length xs = length ys" unfolding mapR_Inr by (metis list_all2_lengthD)
  moreover from assms have "xs ! i = ys ! i" if "i < length xs" for i
    using that unfolding mapR_Inr list_all2_conv_all_nth by metis
  ultimately show ?thesis by (rule nth_equalityI)
qed

lemma tls_report_inject:
  assumes "tls_report a = Inr j" "tls_report b = Inr j"
  shows "a = b"
proof (cases a)
  case None
  with assms show ?thesis by (cases b) (auto simp: tls_report_def bindR_eq_Inr)
next
  case (Some h)
  with assms obtain k where k: "b = Some k" by (cases b) (auto simp: tls_report_def bindR_eq_Inr)
  obtain es where es: "mapR extension_report (ch_extensions h) = Inr es" "mapR extension_report (ch_extensions k) = Inr es"
    and r: "ch_version h = ch_version k" "ch_random h = ch_random k" "ch_session_id h = ch_session_id k"
      "map (\<lambda>x. JObj (describe x (Some CipherSuite))) (ch_cipher_suites h) = map (\<lambda>x. JObj (describe x (Some CipherSuite))) (ch_cipher_suites k)"
      "map jnat (ch_compression_methods h) = map jnat (ch_compression_methods k)"
    using assms unfolding Some k tls_report_def bindR_eq_Inr option.case by (auto simp: build_ja3_def)
  have "ch_extensions h = ch_extensions k" by (rule mapR_inject [OF es extension_report_inject])
  moreover have "ch_cipher_suites h = ch_cipher_suites k" using map_inject_list [OF _ r(4), of id] by simp
  moreover have "ch_compression_methods h = ch_compression_methods k" using map_inject_list [OF _ r(5), of id] by simp
  ultimately show ?thesis using r(1-3) Some k by simp
qed


section \<open>The report always exists\<close>

lemma mapR_total: "(\<And>x. x \<in> set xs \<Longrightarrow> \<exists>y. f x = Inr y) \<Longrightarrow> \<exists>ys. mapR f xs = Inr ys"
  by (induction xs) (auto, metis bindR_simps(2))

lemma extension_report_total: "\<exists>j. extension_report x = Inr j"
  using decode_extension_meets_spec [of "ext_type x" "ext_data x"] by (auto simp: extension_report_def)

lemma tls_report_total: "\<exists>j. tls_report h = Inr j"
proof (cases h)
  case (Some k)
  obtain es where "mapR extension_report (ch_extensions k) = Inr es"
    using mapR_total [of "ch_extensions k" extension_report] extension_report_total by auto
  with Some show ?thesis by (simp add: tls_report_def)
qed (simp add: tls_report_def)

lemma http2_report_total:
  assumes "\<And>capture. c = Some capture \<Longrightarrow> list_all typed_frame (cap_frames capture)"
  shows "\<exists>d. http2_report c = Inr d"
proof -
  have "\<exists>d. build_akamai_fingerprint c = Inr d"
  proof (cases c)
    case (Some capture)
    obtain st where "akamai_frames (cap_frames capture) (''00'', False, []) = Inr st"
      using akamai_frames_total [OF assms [OF Some]] by blast
    with Some show ?thesis by (cases st) (simp add: build_akamai_fingerprint_def Let_def)
  qed (simp add: build_akamai_fingerprint_def)
  then show ?thesis by (auto simp: http2_report_def)
qed

lemma build_report_total:
  assumes "\<And>capture. cl_http2 c = Some capture \<Longrightarrow> list_all typed_frame (cap_frames capture)"
  shows "\<exists>r. build_report c = Inr r"
proof -
  obtain t where "tls_report (cl_client_hello c) = Inr t" using tls_report_total by blast
  moreover obtain d where "http2_report (cl_http2 c) = Inr d" using http2_report_total [OF assms] by blast
  moreover obtain y where "parse_syn (cl_syn_packet c) = Inr y" using parse_syn_total by blast
  ultimately show ?thesis by (simp add: build_report_def protocol_report_def tcpip_report_def)
qed

section \<open>What can be read off the report\<close>

definition report_of :: "dict \<Rightarrow> string \<Rightarrow> json" where
  "report_of d k = (case map_of d k of Some j \<Rightarrow> j | None \<Rightarrow> JNull)"

lemma build_report_parts:
  assumes "build_report c = Inr r"
  shows "tls_report (cl_client_hello c) = Inr (report_of r ''tls'')"
    "report_of r ''http_version'' = jopt jstr (cl_http_version c)"
    "report_of r ''ip'' = jopt jstr (format_address (cl_peername c))"
    "report_of r ''method'' = jopt jstr (request_method c)"
    "report_of r ''user_agent'' = jopt jstr (user_agent c)"
    "cl_http_version c = Some ''HTTP/2.0'' \<Longrightarrow> \<exists>d. http2_report (cl_http2 c) = Inr d \<and> report_of r ''http2'' = JObj d"
    "cl_http_version c = Some ''HTTP/1.1'' \<Longrightarrow> report_of r ''http1'' = JObj (http1_report c)"
  using assms unfolding build_report_def protocol_report_def bindR_eq_Inr report_of_def
  by (auto simp: bindR_eq_Inr split: if_splits)

lemma setting_report_inject: "setting_report i v = setting_report i' v' \<Longrightarrow> i = i' \<and> v = v'"
proof -
  assume e: "setting_report i v = setting_report i' v'"
  have 1: "hd (setting_report i v) = (''value'', jnat i)" for i v
    by (simp add: setting_report_def describe_def Let_def dict_of_def)
  have 2: "last (setting_report i v) = (''setting'', jnat v)" for i v
    by (simp add: setting_report_def Let_def)
  from e 1 [of i v] 1 [of i' v'] 2 [of i v] 2 [of i' v'] show ?thesis by simp
qed

lemma map_prod_inject:
  "map (\<lambda>(a, b). f a b) xs = map (\<lambda>(a, b). f a b) ys \<Longrightarrow> (\<And>a b a' b'. f a b = f a' b' \<Longrightarrow> a = a' \<and> b = b') \<Longrightarrow> xs = ys"
  using map_inject_list [of xs ys "\<lambda>(a, b). f a b" id] by (force simp: case_prod_unfold prod_eq_iff)

lemma http2_report_parts:
  assumes "http2_report (Some c) = Inr d"
  shows "map_of d ''frames'' = Some (JList (map (\<lambda>f. JObj (frame_report f)) (cap_frames c)))"
    "map_of d ''headers'' = map_option (\<lambda>hs. field_report (byte_fields hs)) (cap_headers c)"
    "map_of d ''trailers'' = (if cap_trailers c = [] then None else Some (field_report (byte_fields (cap_trailers c))))"
    "map_of d ''settings'' = map_option (\<lambda>ss. JList (map (\<lambda>(i, v). JObj (setting_report i v)) ss)) (cap_initial_settings c)"
proof -
  obtain a where a: "build_akamai_fingerprint (Some c) = Inr a" and d: "d = a @
           (case cap_initial_settings c of None \<Rightarrow> []
            | Some ss \<Rightarrow> [(''settings'', JList (map (\<lambda>(i, v). JObj (setting_report i v)) ss))]) @
           (case cap_headers c of None \<Rightarrow> [] | Some hs \<Rightarrow> [(''headers'', field_report (byte_fields hs))]) @
           (if cap_trailers c \<noteq> [] then [(''trailers'', field_report (byte_fields (cap_trailers c)))] else []) @
           [(''frames'', JList (map (\<lambda>f. JObj (frame_report f)) (cap_frames c)))]"
    using assms by (auto simp: http2_report_def bindR_eq_Inr)
  from a have "map fst a = [''akamai_fingerprint'', ''akamai_fingerprint_hash'']"
    by (auto simp: build_akamai_fingerprint_def bindR_eq_Inr Let_def split: if_splits)
  then have "map_of a k = None" if "k \<in> {''frames'', ''headers'', ''trailers'', ''settings''}" for k
    using that by (auto simp: map_of_eq_None_iff dest: arg_cong [where f = set])
  then show "map_of d ''frames'' = Some (JList (map (\<lambda>f. JObj (frame_report f)) (cap_frames c)))"
    "map_of d ''headers'' = map_option (\<lambda>hs. field_report (byte_fields hs)) (cap_headers c)"
    "map_of d ''trailers'' = (if cap_trailers c = [] then None else Some (field_report (byte_fields (cap_trailers c))))"
    "map_of d ''settings'' = map_option (\<lambda>ss. JList (map (\<lambda>(i, v). JObj (setting_report i v)) ss)) (cap_initial_settings c)"
    by (auto simp: d map_add_def split: option.splits)
qed

definition observed :: "http2_capture \<Rightarrow> bytes list \<times> (nat \<times> nat) list option \<times> (bytes \<times> bytes) list option \<times> (bytes \<times> bytes) list" where
  "observed c = (map pf_raw (cap_frames c), cap_initial_settings c, cap_headers c, cap_trailers c)"

lemma http2_report_inject:
  assumes "http2_report (Some a) = Inr d" "http2_report (Some b) = Inr d"
  shows "observed a = observed b"
proof -
  note p = http2_report_parts [OF assms(1)] and q = http2_report_parts [OF assms(2)]
  have s: "xs = ys" if "map (\<lambda>(i, v). JObj (setting_report i v)) xs = map (\<lambda>(i, v). JObj (setting_report i v)) ys" for xs ys
    using that by (rule map_prod_inject) (rule setting_report_inject, simp)
  have "map frame_report (cap_frames a) = map frame_report (cap_frames b)"
    using p(1) q(1) map_inject_list [of "cap_frames a" "cap_frames b" "\<lambda>f. JObj (frame_report f)" frame_report] by simp
  then have "map pf_raw (cap_frames a) = map pf_raw (cap_frames b)"
    by (rule map_inject_list [rotated]) (rule frame_report_raw)
  moreover have "cap_headers a = cap_headers b"
    using p(2) q(2) by (cases "cap_headers a"; cases "cap_headers b") (auto simp: field_report_bytes)
  moreover have "cap_trailers a = cap_trailers b"
    using p(3) q(3) by (auto simp: field_report_bytes split: if_splits)
  moreover have "cap_initial_settings a = cap_initial_settings b"
    using p(4) q(4) by (cases "cap_initial_settings a"; cases "cap_initial_settings b") (auto intro: s)
  ultimately show ?thesis by (simp add: observed_def)
qed


lemma http2_report_determines:
  assumes "http2_report x = Inr d" "http2_report y = Inr d"
  shows "map_option observed x = map_option observed y"
proof -
  have n: "http2_report None = Inr d \<Longrightarrow> map_of d ''frames'' = None"
    by (auto simp: http2_report_def build_akamai_fingerprint_def)
  have "z = None \<longleftrightarrow> map_of d ''frames'' = None" if "http2_report z = Inr d" for z
    using n http2_report_parts(1) that by (cases z) auto
  then have none: "x = None \<longleftrightarrow> y = None" using assms by simp
  show ?thesis
  proof (cases x)
    case (Some a)
    then obtain b where b: "y = Some b" using none by auto
    show ?thesis using http2_report_inject [of a d b] assms unfolding Some b by simp
  qed (use none in simp)
qed

lemma http1_report_parts:
  "map_of (http1_report c) ''raw_head'' = map_option jhex (cl_http1_raw_head c)"
  "map_of (http1_report c) ''headers'' = Some (field_report (text_fields (case cl_http1 c of None \<Rightarrow> [] | Some r \<Rightarrow> r_headers r)))"
  by (auto simp: http1_report_def split: option.splits)

section \<open>Completeness and faithfulness\<close>

text \<open>A served connection can always be reported, whatever the client sent in its ClientHello, its SYN packet
  and its frames.\<close>

lemma report_always_built:
  assumes "handle_http api net c = (Inr (), c')" and "cl_session c = None"
  shows "\<exists>r. build_report c' = Inr r"
proof (rule build_report_total)
  fix capture assume cap: "cl_http2 c' = Some capture"
  show "list_all typed_frame (cap_frames capture)"
  proof (cases "ssl_alpn net (tl_env (cl_tls c)) = Some ''h2''")
    case True
    from handle_http_http2E [OF assms(1) True] obtain incoming t s1 s2 where
      s: "initialize api (http2_transport net) incoming (HTTP2Session api t) = (Inr (), s1)"
        "receive_request api (http2_transport net) s1 = Some (Inr (), s2)"
      and c': "c' = c\<lparr>cl_http_version := Some ''HTTP/2.0'', cl_session := Some s2, cl_tls := se_transport s2\<rparr>" by metis
    from receive_request_post(1) [OF s] have "list_all typed_frame (cap_frames (se_capture s2))" by (simp add: session_ok_def)
    with cap c' show ?thesis by (simp add: cl_http2_def)
  next
    case False
    obtain t head request where
      "c' = c\<lparr>cl_http_version := Some ''HTTP/1.1'', cl_tls := t, cl_http1_raw_head := Some head, cl_http1 := Some request\<rparr>"
      using handle_http_http1E [OF assms(1) False] by metis
    with assms(2) cap show ?thesis by (simp add: cl_http2_def)
  qed
qed

text \<open>The report loses nothing that was observed: two connections with the same report had the same
  ClientHello, address, protocol, method and user agent; for HTTP/2 the same raw frames in the same order,
  the same initial settings, header fields and trailers; for HTTP/1.1 the same request head, byte for byte.\<close>

lemma report_determines_observation:
  assumes "build_report a = Inr r" and "build_report b = Inr r"
  shows "cl_client_hello a = cl_client_hello b \<and> cl_http_version a = cl_http_version b \<and>
    format_address (cl_peername a) = format_address (cl_peername b) \<and>
    request_method a = request_method b \<and> user_agent a = user_agent b \<and>
    (cl_http_version a = Some ''HTTP/2.0'' \<longrightarrow>
       map_option observed (cl_http2 a) = map_option observed (cl_http2 b)) \<and>
    (cl_http_version a = Some ''HTTP/1.1'' \<longrightarrow> cl_http1_raw_head a = cl_http1_raw_head b)"
proof -
  note p = build_report_parts [OF assms(1)] and q = build_report_parts [OF assms(2)]
  have v: "cl_http_version a = cl_http_version b" using p(2) q(2) by simp
  have "map_option observed (cl_http2 a) = map_option observed (cl_http2 b)" if "cl_http_version a = Some ''HTTP/2.0''"
    using p(6) q(6) that v http2_report_determines by (metis json.inject(5))
  moreover have "cl_http1_raw_head a = cl_http1_raw_head b" if "cl_http_version a = Some ''HTTP/1.1''"
  proof -
    have "http1_report a = http1_report b" using p(7) q(7) that v by simp
    then have "map_option jhex (cl_http1_raw_head a) = map_option jhex (cl_http1_raw_head b)"
      by (metis http1_report_parts(1))
    then show ?thesis by (cases "cl_http1_raw_head a"; cases "cl_http1_raw_head b") auto
  qed
  ultimately show ?thesis using tls_report_inject [OF p(1) q(1)] v p(3-5) q(3-5) by auto
qed


lemma report_of_observation: "build_report (c\<lparr>cl_tls := t\<rparr>) = build_report c"
proof -
  have 1: "cl_http2 (c\<lparr>cl_tls := t\<rparr>) = cl_http2 c" by (simp add: cl_http2_def)
  have "request_method (c\<lparr>cl_tls := t\<rparr>) = request_method c" "user_agent (c\<lparr>cl_tls := t\<rparr>) = user_agent c"
    "http1_report (c\<lparr>cl_tls := t\<rparr>) = http1_report c" "tcpip_report (c\<lparr>cl_tls := t\<rparr>) = tcpip_report c"
    by (simp_all add: request_method_def user_agent_def request_headers_def http1_report_def tcpip_report_def 1
      cong: option.case_cong list.case_cong)
  with 1 show ?thesis by (simp add: build_report_def protocol_report_def)
qed

end
