(* ===== verification/Server_Correct.thy ===== *)
theory Server_Correct
  imports Server Report_Correct
begin

text \<open>
  Serving one client, end to end: what the client is told is what it sent, only what was sent is stored, and
  every connection is closed and gives its report slot back.
\<close>

section \<open>Rules\<close>

lemma wp_client [wp_simps]:
  "wp (on_client m) Q E s = wp m (\<lambda>x c. Q x (s\<lparr>wk_client := c\<rparr>)) (\<lambda>x c. E x (s\<lparr>wk_client := c\<rparr>)) (wk_client s)"
  by (auto simp: wp_def on_client_def split: prod.splits sum.splits)

lemma wp_storage [wp_simps]:
  "wp (on_storage m) Q E s = wp m (\<lambda>x t. Q x (s\<lparr>wk_storage := t\<rparr>)) (\<lambda>x t. E x (s\<lparr>wk_storage := t\<rparr>)) (wk_storage s)"
  by (auto simp: wp_def on_storage_def split: prod.splits sum.splits)

lemma wp_any: "(\<And>x s'. Q x s') \<Longrightarrow> (\<And>x s'. E x s') \<Longrightarrow> wp m Q E s"
  by (simp add: wp_def split: prod.splits sum.splits)

lemma on_client_Inr: "on_client m s = (Inr x, s') \<longleftrightarrow> (\<exists>c. m (wk_client s) = (Inr x, c) \<and> s' = s\<lparr>wk_client := c\<rparr>)"
  by (auto simp: on_client_def split: prod.splits)

section \<open>Closing\<close>

lemma serve_client_closes:
  assumes "closes (wd_net w) over" "bounded_env (wd_net w) queued left" "\<And>code i. ends (h2_close_connection (wd_h2 w) code i)"
  shows "wp (serve_client (w :: ('b, 'a, 'c, 'd) world)) (\<lambda>_ s. over (wk_env s)) (\<lambda>x s. over (wk_env s) \<or> x = Diverges) s"
proof -
  have c: "wp (close_client (wd_h2 w) (wd_net w) code) (\<lambda>_ c. over (tl_env (cl_tls c))) (\<lambda>_ c. over (tl_env (cl_tls c))) c" for code c
    by (rule wp_mono [OF close_client_wp [OF assms]]) auto
  have "wp (if r = Inl Diverges then raise Diverges
     else bindM (on_client (close_client (wd_h2 w) (wd_net w) (case r of Inr (code, _) \<Rightarrow> code | Inl _ \<Rightarrow> NO_ERROR))) (\<lambda>_.
       case r of
         Inl e \<Rightarrow> raise e
       | Inr (_, report) \<Rightarrow> (case report of None \<Rightarrow> ret () | Some d \<Rightarrow> on_storage (save_fingerprint (wd_db w) d))))
      (\<lambda>_ s. over (wk_env s)) (\<lambda>x s. over (wk_env s) \<or> x = Diverges) s1" for r s1
  proof (cases "r = Inl Diverges")
    case False
    have k: "wp (case r of Inl e \<Rightarrow> raise e
       | Inr (_, report) \<Rightarrow> (case report of None \<Rightarrow> ret () | Some d \<Rightarrow> on_storage (save_fingerprint (wd_db w) d)))
       (\<lambda>_ s. over (wk_env s)) (\<lambda>x s. over (wk_env s) \<or> x = Diverges) s2" if "over (wk_env s2)" for s2 :: "('b, 'a, 'c, 'd) worker"
      using that by (auto simp: wp_return wp_storage split: sum.split option.split intro!: wp_any)
    show ?thesis unfolding if_not_P [OF False] wp_bind wp_client by (rule wp_mono [OF c]) (auto intro!: k)
  qed (simp add: wp_return)
  then show ?thesis unfolding serve_client_def wp_bind [of "tryM m" for m] wp_try by - (rule wp_any, assumption, assumption)
qed

text \<open>A failure of the constructor leaves the connection to the callback of the task.\<close>

lemma handle_client_closes:
  assumes "closes (wd_net w) over" "bounded_env (wd_net w) queued left" "\<And>code i. ends (h2_close_connection (wd_h2 w) code i)"
    and "\<not> wk_slot s"
  shows "wp (handle_client w) (\<lambda>_ s. over (wk_env s) \<and> \<not> wk_slot s) (\<lambda>x s. \<not> wk_slot s \<or> x = Diverges) s"
proof -
  have "wp (finallyM (serve_client w) (modifyM (\<lambda>s. s\<lparr>wk_slot := False\<rparr>)))
      (\<lambda>_ s. over (wk_env s) \<and> \<not> wk_slot s) (\<lambda>x s. \<not> wk_slot s \<or> x = Diverges) s1" for s1
    unfolding wp_finally by (rule wp_mono [OF serve_client_closes [OF assms(1-3)]]) (auto simp: wp_access)
  moreover have "wp (connect w) (\<lambda>_ _. True) (\<lambda>_ s. \<not> wk_slot s) s"
    using assms(4) by (auto simp: wp_def connect_def on_client_def split: prod.splits sum.splits)
  ultimately show ?thesis unfolding handle_client_def wp_bind by - (erule wp_mono, simp_all)
qed

lemma writer_done_closes:
  assumes "closes (wd_net w) over" and "\<And>e. fst (net_close (wd_net w) e) = Inr ()"
  shows "wp (writer_done w) (\<lambda>_ s1. over (wk_env s1) \<and> wk_slot s1 = wk_slot s) (\<lambda>_ _. False) s"
proof -
  obtain e where "net_close (wd_net w) (wk_env s) = (Inr (), e)" using assms(2) by (metis prod.collapse)
  with assms(1) show ?thesis
    by (simp add: writer_done_def wp_def bindM_def getsM_def ret_def on_client_def on_tls_def on_env_def closes_def)
qed

lemma client_task_closes:
  assumes "closes (wd_net w) over" "bounded_env (wd_net w) queued left" "\<And>code i. ends (h2_close_connection (wd_h2 w) code i)"
    and "\<And>e. fst (net_close (wd_net w) e) = Inr ()" and "\<not> wk_slot s"
  shows "wp (client_task w) (\<lambda>_ s. over (wk_env s) \<and> \<not> wk_slot s) (\<lambda>x _. x = Diverges) s"
proof -
  have "wp (writer_done w) (\<lambda>_ s. over (wk_env s) \<and> \<not> wk_slot s) (\<lambda>x _. x = Diverges) s1" if "\<not> wk_slot s1" for s1
    by (rule wp_mono [OF writer_done_closes [OF assms(1,4)]]) (use that in auto)
  then show ?thesis unfolding client_task_def wp_bind [of "tryM m" for m] wp_try
    by - (rule wp_mono [OF handle_client_closes [OF assms(1-3,5)]], auto simp: wp_return)
qed

section \<open>What is sent and stored\<close>

definition same_storage :: "('h, 'e, 'c, 'd) worker \<Rightarrow> ('h, 'e, 'c, 'd) worker \<Rightarrow> bool" where
  "same_storage s s' \<longleftrightarrow> wk_storage s' = wk_storage s"

interpretation sto: step_relation "same_storage"
  by unfold_locales (simp_all add: same_storage_def)

lemma storage_client: "moves same_storage (on_client m)"
  by (simp add: moves_def same_storage_def on_client_def split: prod.splits)

lemma storage_slot: "(\<And>s. wk_storage (f s) = wk_storage s) \<Longrightarrow> moves same_storage (modifyM f)"
  by (simp add: moves_def same_storage_def modifyM_def)

lemma storage_lift: "moves same_storage (liftR r)"
  by (simp add: moves_def same_storage_def liftR_def)

lemma storage_answer: "moves same_storage (answer w content headers status)"
  unfolding answer_def by (intro sto.intros storage_client)

lemma storage_report: "moves same_storage (send_report w status error)"
  unfolding send_report_def take_slot_def send_json_def Let_def
  by (intro sto.intros storage_answer storage_slot storage_lift) simp

lemma storage_guarded: "moves same_storage (serve_guarded w)"
  unfolding serve_guarded_def serve_request_def serve_error_def send_error_report_def
  by (intro sto.intros storage_client storage_answer storage_report storage_lift allI)
    (auto split: exn.split intro!: sto.intros storage_report)

lemma send_report_sent:
  assumes "send_report w status error s = (Inr (st, n, Some d), s')"
  shows "\<exists>s1. wk_client s1 = wk_client s \<and> report_with error (wk_client s) = Inr d \<and> send_json w d status s1 = (Inr n, s') \<and> st = status"
proof -
  have slot: "wk_client s1 = wk_client s" if "take_slot w s = (Inr b, s1)" for b s1
    using that by (auto simp: take_slot_def bindM_def getsM_def modifyM_def ret_def split: if_splits)
  obtain s1 where s1: "take_slot w s = (Inr True, s1)" "report_with error (wk_client s1) = Inr d" "send_json w d status s1 = (Inr n, s')" "st = status"
    using assms unfolding send_report_def bindM_eq_Inr
    by (auto simp: getsM_def ret_def liftR_def bindM_eq_Inr split: if_splits)
  with slot show ?thesis by auto
qed

lemma serve_guarded_sent:
  assumes "serve_guarded w s = (Inr (code, Some d), s')"
  shows "\<exists>s1 status n error. report_with error (wk_client s1) = Inr d \<and> send_json w d status s1 = (Inr n, s')"
proof -
  have "\<exists>s0 status error st n. send_report w status error s0 = (Inr (st, n, Some d), s')"
    using assms unfolding serve_guarded_def handleM_def serve_request_def serve_error_def send_error_report_def
    by (auto simp: bindM_eq_Inr bindM_eq_Inl ret_def raise_def handleM_def split: prod.splits sum.splits exn.splits if_splits)
      blast+
  then show ?thesis using send_report_sent by metis
qed


lemma send_json_Inr:
  "send_json w d status s = (Inr n, s') \<longleftrightarrow>
     (\<exists>c. send_client_response (wd_h2 w) (wd_net w) (wd_date w (wk_env s)) (json_content d) (Some REPORT_HEADERS) status (wk_client s) = (Inr (), c) \<and>
        s' = s\<lparr>wk_client := c\<rparr> \<and> n = length (json_content d))"
  by (auto simp: send_json_def answer_def Let_def bindM_eq_Inr getsM_def ret_def on_client_Inr)

lemma serve_request_report:
  assumes "serve_request w s = (Inr (Some d), s')"
  obtains c1 c2 c3 status error date where "do_tls_handshake (wd_net w) (wk_client s) = (Inr (), c1)"
    "handle_http (wd_h2 w) (wd_net w) c1 = (Inr (), c2)" "response_policy c2 = Inr (status, error)" "status \<noteq> 204"
    "report_with error c2 = Inr d"
    "send_client_response (wd_h2 w) (wd_net w) date (json_content d) (Some REPORT_HEADERS) status c2 = (Inr (), c3)" "wk_client s' = c3"
proof -
  obtain c1 c2 status error st n where 1: "do_tls_handshake (wd_net w) (wk_client s) = (Inr (), c1)"
    "handle_http (wd_h2 w) (wd_net w) c1 = (Inr (), c2)" "response_policy c2 = Inr (status, error)" "status \<noteq> 204"
    and r: "send_report w status error (s\<lparr>wk_client := c2\<rparr>) = (Inr (st, n, Some d), s')"
    using assms unfolding serve_request_def
    by (auto simp: bindM_eq_Inr getsM_def ret_def liftR_def on_client_Inr split: if_splits)
  obtain s1 where "wk_client s1 = c2" "report_with error c2 = Inr d" "send_json w d status s1 = (Inr n, s')"
    using send_report_sent [OF r] by auto
  with 1 that show ?thesis unfolding send_json_Inr by auto
qed

lemma response_policy_status: "response_policy c = Inr (status, error) \<Longrightarrow> status \<in> {200, 204, 417, 501}"
  by (auto simp: response_policy_def bindR_eq_Inr split: if_splits)

lemma http2_answer_complete:
  assumes "logs_data api (http2_transport net) led" and "cl_http_version c = Some ''HTTP/2.0''" and "cl_session c = Some s"
    and "send_client_response api net date content headers status c = (Inr (), c')" and "\<not> bodiless status"
  shows "\<exists>i chunks s'. cl_session c' = Some s' \<and> cap_stream_id (se_capture s) = Some i \<and>
    led (h2_of s') = led (h2_of s) @ map (Pair i) chunks \<and> concat (map fst chunks) = content \<and> ends_once chunks"
proof -
  obtain rh s' where r: "send_response api (http2_transport net) content rh status (lend c s) = Some (Inr (), s')"
    and c': "c' = c\<lparr>cl_session := Some s', cl_tls := se_transport s'\<rparr>"
    using assms(2-4) unfolding send_client_response_def Let_def
    by (auto simp: bindM_eq_Inr getsM_def on_session_Inr totalM_Inr lend_def)
  from send_response_complete [OF assms(1) r] assms(5) c' show ?thesis by (auto simp: lend_def)
qed

section \<open>The text of a report\<close>

lemma json_obj [simp]: "json_ok (JObj [])" "json_ok (JObj ((k, j) # d)) \<longleftrightarrow> json_ok j \<and> json_ok (JObj d)"
  "json_ok (JObj (a @ b)) \<longleftrightarrow> json_ok (JObj a) \<and> json_ok (JObj b)"
  by auto

lemma json_map: "(\<And>x. x \<in> set xs \<Longrightarrow> json_ok (g x)) \<Longrightarrow> json_ok (JList (map g xs))"
  by auto

lemma json_filter: "json_ok (JObj d) \<Longrightarrow> json_ok (JObj (filter P d))"
  by auto

declare json_ok.simps(2,3) [simp del]

lemma json_parts [simp]: "json_ok (jstr t)" "json_ok (jnat n)" "json_ok (jhex b)"
  by (simp_all add: jstr_def jnat_def jhex_def codes_scalar)

lemma json_jopt [simp]: "json_ok (jopt jstr v)" "json_ok (jopt jnat n)"
  by (cases v; simp) (cases n; simp)

lemma json_describe [simp]: "json_ok (JObj (describe v t))"
  by (simp add: describe_def split: option.split)

lemma json_described: "json_ok (described E vs)"
  by (auto simp: described_def intro: json_map)

lemma json_report_payload: "json_ok (JObj (report_payload p))"
proof -
  have "json_ok (report_name n)" for n using utf8_replace_scalar by (simp add: report_name_def)
  moreover have "json_ok (report_share n)" for n by (simp add: report_share_def)
  ultimately show ?thesis by (cases p) (simp_all add: json_described json_map)
qed

lemma json_extension: "extension_report x = Inr j \<Longrightarrow> json_ok j"
proof -
  assume "extension_report x = Inr j"
  then obtain res where r: "decode_extension (ext_type x) (ext_data x) = Inr res"
    and j: "j = JObj (describe (ext_type x) (Some ExtensionType) @
       [(''length'', jnat (length (ext_data x))), (''decoded'', jopt JObj res), (''data'', jhex (ext_data x))])"
    by (auto simp: extension_report_def bindR_eq_Inr)
  have "extension_spec (ext_type x) (ext_data x) res" using decode_extension_meets_spec [of "ext_type x" "ext_data x"] r by auto
  then have "json_ok (jopt JObj res)" by (cases res) (auto simp: extension_spec_def json_report_payload)
  then show ?thesis by (simp add: j)
qed

lemma mapR_all: "mapR f xs = Inr ys \<Longrightarrow> (\<And>x y. f x = Inr y \<Longrightarrow> P y) \<Longrightarrow> y \<in> set ys \<Longrightarrow> P y"
  by (induction xs arbitrary: ys) (auto simp: bindR_eq_Inr)

lemma json_tls: "tls_report h = Inr j \<Longrightarrow> json_ok j"
proof (cases h)
  case (Some k)
  assume "tls_report h = Inr j"
  with Some obtain es where es: "mapR extension_report (ch_extensions k) = Inr es"
    and j: "j = JObj (build_ja3 (Some k) @
            [(''ja4'', jopt jstr (build_ja4 (Some k))),
             (''version'', JObj (describe (ch_version k) (Some TLSVersion))),
             (''random'', jhex (ch_random k)),
             (''session_id'', jhex (ch_session_id k)),
             (''cipher_suites'', JList (map (\<lambda>x. JObj (describe x (Some CipherSuite))) (ch_cipher_suites k))),
             (''compression_methods'', JList (map jnat (ch_compression_methods k))),
             (''extensions'', JList es)])"
    by (auto simp: tls_report_def bindR_eq_Inr)
  have "json_ok (JList es)" using mapR_all [OF es, of json_ok] json_extension by (simp add: json_ok.simps(2))
  then show ?thesis by (simp add: j build_ja3_def json_map)
qed (auto simp: tls_report_def)

lemma json_fields: "json_ok (field_report hs)"
  unfolding field_report_def by (rule json_map) (auto simp: json_ok.simps(2) split: prod.split)

lemma json_plain: "json_ok (JObj (map (\<lambda>(name, item). (name, plain_value item)) (payload_fields p)))"
proof -
  have "json_ok (JObj (map (\<lambda>(key, item). (str_nat key, plain_value item)) (map (\<lambda>(k, v). (k, pnat v)) d)))" for d
    by (induction d) (auto simp: pnat_def)
  moreover have "json_ok (plain_value (PSeq (map (\<lambda>(k, v). PSeq [pnat k, pnat v]) es)))" for es
    by (auto simp: pnat_def json_ok.simps(2))
  moreover have "json_ok (plain_value (PSeq (map PBytes os)))" for os by (auto simp: json_ok.simps(2))
  ultimately show ?thesis
    by (cases p) (simp_all add: pnat_def pbool_def priority_fields_def split: option.split)
qed

lemma json_frame: "json_ok (JObj (frame_report f))"
proof -
  have "json_ok (JObj (frame_payload (pf_payload f)))"
    unfolding frame_payload_def dict_pop_def by (simp add: json_filter json_plain)
  then show ?thesis by (simp add: frame_report_def json_map)
qed

lemma json_setting: "json_ok (JObj (setting_report i v))"
  by (simp add: setting_report_def Let_def describe_def dict_of_def)

lemma json_http2: "http2_report c = Inr d \<Longrightarrow> json_ok (JObj d)"
proof -
  have a: "build_akamai_fingerprint c = Inr a \<Longrightarrow> json_ok (JObj a)" for a
    by (auto simp: build_akamai_fingerprint_def bindR_eq_Inr Let_def split: option.splits if_splits)
  have s: "json_ok (JList (map (\<lambda>(i, v). JObj (setting_report i v)) ss))" for ss
    by (rule json_map) (auto simp: json_setting split: prod.split)
  assume "http2_report c = Inr d"
  with a s show ?thesis
    by (cases c) (auto simp: http2_report_def bindR_eq_Inr json_fields json_frame json_map split: option.split)
qed


lemma json_ip: "parse_ipv4 r = (Inr d, r') \<Longrightarrow> json_ok (JObj d)" "parse_ipv6 r = (Inr (Some d), r') \<Longrightarrow> json_ok (JObj d)"
  "parse_tcp r = (Inr d, r') \<Longrightarrow> json_ok (JObj d)"
  by (auto simp: parse_ipv4_def parse_ipv6_def parse_tcp_def bindM_eq_Inr ret_def Let_def split: if_splits)

lemma json_member: "json_ok (JObj d) \<Longrightarrow> map_of d k = Some j \<Longrightarrow> json_ok j"
  by (auto simp: json_ok.simps(3) dest: map_of_SomeD)

lemma json_pop: "json_ok (JObj d) \<Longrightarrow> json_ok (JObj (dict_pop k d))"
  by (simp add: dict_pop_def json_filter)

lemma json_syn: "parse_syn p = Inr (Some d) \<Longrightarrow> json_ok (JObj d)"
proof -
  assume "parse_syn p = Inr (Some d)"
  then obtain bs where "parse_packet bs = Inr (Some d)"
    by (auto simp: parse_syn_def split: option.splits if_splits sum.splits)
  then have "\<exists>ip tcp n r1 r2 r3 r4. (parse_ipv4 r1 = (Inr ip, r2) \<or> parse_ipv6 r1 = (Inr (Some ip), r2)) \<and>
      parse_tcp r3 = (Inr tcp, r4) \<and> syn_report n ip tcp = Inr d"
    unfolding parse_packet_def parses_def Let_def
    by (auto simp: bindM_def ret_def bindR_eq_Inr split: prod.splits sum.splits if_splits option.splits)
  then obtain ip tcp n r1 r2 r3 r4 where i: "parse_ipv4 r1 = (Inr ip, r2) \<or> parse_ipv6 r1 = (Inr (Some ip), r2)"
    and t: "parse_tcp r3 = (Inr tcp, r4)" and d: "syn_report n ip tcp = Inr d" by blast
  have ok: "json_ok (JObj ip)" "json_ok (JObj tcp)" using i t json_ip by blast+
  obtain a b where ab: "map_of tcp ''dst_port'' = Some a" "map_of (dict_pop ''dst_port'' tcp) ''src_port'' = Some b"
    "d = [(''cap_length'', jnat n), (''dst_port'', a), (''src_port'', b), (''ip'', JObj ip),
          (''tcp'', JObj (dict_pop ''src_port'' (dict_pop ''dst_port'' tcp)))]"
    using d by (auto simp: syn_report_def pop_item_def bindR_eq_Inr split: option.splits)
  have "json_ok a" "json_ok b" using json_member [OF ok(2) ab(1)] json_member [OF json_pop [OF ok(2)] ab(2)] .
  with ok show ?thesis by (simp add: ab(3) json_pop)
qed

lemma json_tcpip: "tcpip_report c = Inr d \<Longrightarrow> json_ok (JObj d)"
proof -
  have o: "json_ok (jopt (\<lambda>s. jnat (snd s)) v)" "json_ok (jopt (\<lambda>s. jstr (fst s)) v')" for v v' by (cases v; simp) (cases v'; simp)
  assume "tcpip_report c = Inr d"
  then obtain p where p: "parse_syn (cl_syn_packet c) = Inr p" and d: "tcpip_report c = Inr d" by (auto simp: tcpip_report_def bindR_eq_Inr)
  show ?thesis
  proof (cases "p = None \<or> p = Some []")
    case True
    with p d o show ?thesis by (auto simp: tcpip_report_def)
  next
    case False
    then obtain x xs where "p = Some (x # xs)" by (cases p; cases "the p") auto
    with p d json_syn show ?thesis by (auto simp: tcpip_report_def)
  qed
qed

lemma json_report: "build_report c = Inr r \<Longrightarrow> json_ok (JObj r)"
proof -
  assume "build_report c = Inr r"
  then obtain t q p where parts: "tls_report (cl_client_hello c) = Inr t" "protocol_report c = Inr q" "tcpip_report c = Inr p"
    and r: "r = [(''source'', jstr SOURCE_URL), (''ip'', jopt jstr (format_address (cl_peername c))),
       (''http_version'', jopt jstr (cl_http_version c)), (''method'', jopt jstr (request_method c)),
       (''user_agent'', jopt jstr (user_agent c)), (''tls'', t)] @ q @ [(''tcpip'', JObj p)]"
    by (auto simp: build_report_def bindR_eq_Inr)
  have "json_ok (JObj (http1_report c))" by (simp add: http1_report_def json_fields split: option.split)
  then have "json_ok (JObj q)" using parts(2) json_http2 by (auto simp: protocol_report_def bindR_eq_Inr split: if_splits)
  with parts(1,3) json_tls json_tcpip r show ?thesis by simp
qed

lemma encode_utf8_inject: "encode_utf8 a = encode_utf8 b \<longleftrightarrow> a = b"
  by (metis codes_scalar encode_utf8_def inj_codes utf8_replace_text)

lemma json_content_inject: "json_ok (JObj a) \<Longrightarrow> json_ok (JObj b) \<Longrightarrow> json_content a = json_content b \<Longrightarrow> a = b"
  using dumps_inject [of "JObj a" "JObj b" 0] by (simp add: json_content_def encode_utf8_inject)

section \<open>Every request has an answer\<close>

lemma expectation_total: "\<exists>b. http1_expectation_failed c = Inr b"
proof -
  have "is_ValueError e" if "parse_expectations vs = Inl e" for vs e
    using that by (auto simp: parse_expectations_def bindR_def parse_http_list_spec list_spec_def split: sum.splits option.splits)
  then show ?thesis by (auto simp: http1_expectation_failed_def Let_def split: sum.split)
qed

lemma policy_total: "\<exists>p. routing_path c = Inr p \<Longrightarrow> \<exists>status error. response_policy c = Inr (status, error)"
  using expectation_total [of c] by (auto simp: response_policy_def)

lemma target_path:
  assumes "validate_target m t = Inr ()" and "m \<noteq> ''CONNECT''" "\<not> starts_with ''/'' t" "t \<noteq> ''*''"
  shows "\<exists>p. split_absolute_uri t = Inr p"
  using assms by (auto simp: validate_target_def validate_absolute_def bindR_eq_Inr split: if_splits sum.splits)

lemma handled_request_answered:
  assumes "handle_http api net c = (Inr (), c')" and "cl_session c = None"
  shows "\<exists>status error report. response_policy c' = Inr (status, error) \<and> status \<in> {200, 204, 417, 501} \<and> report_with error c' = Inr report"
proof -
  have "\<exists>p. routing_path c' = Inr p"
  proof (cases "ssl_alpn net (tl_env (cl_tls c)) = Some ''h2''")
    case True
    have "cl_http_version c' = Some ''HTTP/2.0''" using handle_http_http2E [OF assms(1) True] by (metis client.select_convs(4) client.surjective client.update_convs(4,8,9))
    then show ?thesis by (simp add: routing_path_def split: option.split)
  next
    case False
    obtain head request t where r: "parse_request head = Inr request"
      and c': "c' = c\<lparr>cl_http_version := Some ''HTTP/1.1'', cl_tls := t, cl_http1_raw_head := Some head, cl_http1 := Some request\<rparr>"
      using handle_http_http1E [OF assms(1) False] by metis
    have v: "validate_target (r_method request) (r_path request) = Inr ()"
      using parse_requestD [OF r] parse_linesD parse_request_lineD(3) by metis
    have "request_path c' = Some (r_path request)" "request_method c' = Some (r_method request)"
      using assms(2) by (simp_all add: request_path_def request_method_def cl_http2_def c')
    with target_path [OF v] show ?thesis by (auto simp: routing_path_def)
  qed
  from policy_total [OF this] obtain status error where p: "response_policy c' = Inr (status, error)" by blast
  obtain r where "build_report c' = Inr r" using report_always_built [OF assms] by blast
  then have "\<exists>report. report_with error c' = Inr report" by (simp add: report_with_def)
  with p response_policy_status [OF p] show ?thesis by blast
qed

end
