(* ===== verification/Server_Results.thy ===== *)
theory Server_Results
  imports Server_Correct
begin

text \<open>
  The properties of the server's handling of one client, and the run of a whole small connection, from the
  ClientHello to the stored report, that shows their hypotheses can hold.
\<close>

section \<open>A small connection\<close>

subsection \<open>The handshake\<close>

text \<open>Before the handshake only the records are read.\<close>

definition same_talk :: "talk tls \<Rightarrow> talk tls \<Rightarrow> bool" where
  "same_talk s s' \<longleftrightarrow> fst (tl_env s') = fst (tl_env s) \<and> fst (snd (tl_env s')) = fst (snd (tl_env s)) \<and>
     fst (snd (snd (tl_env s'))) = fst (snd (snd (tl_env s)))"

interpretation tlk: step_relation same_talk
  by unfold_locales (auto simp: same_talk_def)

lemma talk_exactly: "moves same_talk (read_exactly (talk_net alpn) n)"
  unfolding read_exactly_def
proof (intro tlk.intros)
  show "moves same_talk (on_env (net_readexactly (talk_net alpn) n))"
    by (auto simp: moves_def same_talk_def on_env_def talk_net_def split: prod.splits if_splits)
qed

lemma talk_write: "moves same_talk (on_env (net_write (talk_net alpn) d))" "moves same_talk (on_env (net_drain (talk_net alpn)))"
  by (auto simp: moves_def same_talk_def on_env_def talk_net_def ret_def split: prod.splits)

lemma talk_alert: "moves same_talk (send_plaintext_alert (talk_net alpn) d)"
  unfolding send_plaintext_alert_def
  by (intro tlk.intros talk_write tlk.update) (auto simp: same_talk_def)

lemma talk_hello: "moves same_talk (read_client_hello (talk_net alpn))"
  unfolding read_client_hello_def read_records_def check_record_header_def check_message_def
  by (auto intro!: tlk.intros tlk.loop talk_exactly talk_alert simp: Let_def split: sum.split list.split)

lemma small_handshake:
  "do_tls_handshake (talk_net ''h2'') (small_client todo) =
     (Inr (), (small_client todo)\<lparr>cl_client_hello := Some sample_hello, cl_tls := tls_of (todo, [], False, [])\<rparr>)"
proof -
  let ?t = "tls_of (todo, [], False, enc_records sample_records)"
  obtain e where r: "read_client_hello (talk_net ''h2'') ?t = (Inr (enc_records sample_records, sample_hello), ?t\<lparr>tl_env := e\<rparr>)"
    "snd (snd (snd e)) = []"
    using read_client_hello_complete [OF talk_laws(4) [of "''h2''"] _ sample_records_ok, where s = ?t and after = "[]"] by (auto simp: tls_of_def)
  have "same_talk ?t (?t\<lparr>tl_env := e\<rparr>)" using talk_hello [of "''h2''"] r(1) unfolding moves_def by (metis snd_conv)
  then have e: "?t\<lparr>tl_env := e\<rparr> = tls_of (todo, [], False, [])" using r(2) by (cases e) (auto simp: same_talk_def tls_of_def)
  have s: "has_shared_alpn sample_hello = Inr True" by code_simp
  have h: "handshake_loop (talk_net ''h2'') n t = (Inr (), t)" for n t
    unfolding handshake_loop_def
    by (rule loopM_unfold(2)) (simp add: bindM_def tryM_def on_env_def talk_net_def ret_def)
  have b: "on_env (bio_write (talk_net ''h2'') d) t = (Inr (), t)" for d and t :: "talk tls" by (simp add: on_env_def talk_net_def ret_def)
  show ?thesis
    by (simp add: do_tls_handshake_def with_timeout_def handleM_def bindM_def on_tls_def r(1) e modifyM_def liftR_def s b h talk_outgoing)
qed

subsection \<open>The answer\<close>

lemma small_send_content:
  "offset \<le> length content \<Longrightarrow>
     \<exists>l'. send_content small_api tr 1 content offset (small_answered l t) = Some (Inr (), small_answered l' t)"
proof (induction "length content - offset" arbitrary: offset l rule: less_induct)
  case less
  show ?case
  proof (cases "offset < length content")
    case True
    let ?n = "min (offset + 2) (length content)"
    have "send_chunk small_api tr 1 content offset (small_answered l t) =
        (Inr ?n, small_answered (l @ [(1, slice content offset ?n, ?n = length content)]) t)"
      by (simp add: send_chunk_def small_answered_def small_defs small_ops)
    from send_content_turn [OF this True] less(1) [of ?n] True show ?thesis by auto
  qed (auto simp: send_content.simps)
qed

lemma small_answers:
  assumes "bodiless status = False"
  shows "\<exists>l. send_response small_api tr content hs status (small_request t) = Some (Inr (), small_answered l t)"
proof -
  have "start_response small_api tr content hs status (small_request t) = (Inr 1, small_answered [] t)" for hs
    by (simp add: start_response_def small_answered_def small_defs small_ops)
  with small_send_content [of 0 content tr "[]" t] assms show ?thesis
    by (simp add: send_response_def prepare_response_def Let_def)
qed

subsection \<open>The whole connection\<close>

text \<open>A store that keeps what is inserted; the server of the examples, whose report slots are free.\<close>

definition log_db :: "(nat, dict list) db_api" where
  "log_db = \<lparr>db_connect = (\<lambda>_. ret 0), db_init_beanie = (\<lambda>_. ret ()), db_close = (\<lambda>_. ret ()),
     db_insert = (\<lambda>d e. (Inr (), e @ [d])), db_cancelled = (\<lambda>_. False)\<rparr>"

definition small_world :: "((nat \<times> bytes \<times> bool) list, talk, nat, dict list) world" where
  "small_world = \<lparr>wd_h2 = small_api, wd_net = talk_net ''h2'', wd_db = log_db, wd_date = (\<lambda>_. ''Thu, 01 Jan 1970 00:00:00 GMT''), wd_slots = (\<lambda>_. 0),
     wd_connect = ret (None, None, None)\<rparr>"

definition small_worker :: "bytes option list \<Rightarrow> ((nat \<times> bytes \<times> bool) list, talk, nat, dict list) worker" where
  "small_worker todo = \<lparr>wk_client = small_client todo, wk_slot = False, wk_storage = \<lparr>st_enabled = True, st_client = Some 0, st_env = []\<rparr>\<rparr>"

definition small_served :: "((nat \<times> bytes \<times> bool) list, talk) client" where
  "small_served = (let t = tls_of ([], (HTTP2_PREFACE @ small_settings) @ small_headers, False, []) in
     (small_client small_data)\<lparr>cl_client_hello := Some sample_hello, cl_http_version := Some ''HTTP/2.0'',
       cl_session := Some (small_request t), cl_tls := t\<rparr>)"

lemma small_world_simps [simp]:
  "wd_h2 small_world = small_api" "wd_net small_world = talk_net ''h2''" "wd_db small_world = log_db" "wd_slots small_world e = 0"
  "wk_client (small_worker todo) = small_client todo" "wk_slot (small_worker todo) = False"
  "wk_storage (small_worker todo) = \<lparr>st_enabled = True, st_client = Some 0, st_env = []\<rparr>"
  by (simp_all add: small_world_def small_worker_def)

lemma small_handled_client:
  "handle_http small_api (talk_net ''h2'') ((small_client small_data)\<lparr>cl_client_hello := Some sample_hello, cl_tls := tls_of (small_data, [], False, [])\<rparr>) =
     (Inr (), small_served)"
  by (subst small_handled [where x = "(False, [])"]) (simp_all add: small_served_def Let_def ClientConnection_def)

lemma small_policy: "response_policy small_served = Inr (200, None)"
proof -
  have "cl_http2 small_served = Some (HTTP2Capture\<lparr>cap_frames := [settings_frame, headers_frame], cap_initial_settings := Some [(3, 100)],
     cap_stream_id := Some 1, cap_headers := Some sample_fields\<rparr>)" "cl_http_version small_served = Some ''HTTP/2.0''" "cl_http1 small_served = None"
    by (simp_all add: small_served_def Let_def cl_http2_def small_request_def small_session_def HTTP2Session_def HTTP2Capture_def ClientConnection_def)
  moreover have "header_of (Some (byte_fields sample_fields)) '':path'' = Some ''/''" "header_of (Some (byte_fields sample_fields)) '':method'' = Some ''GET''" by code_simp+
  moreover have "parse_expectations [] = Inr []" by code_simp
  ultimately show ?thesis
    by (simp add: response_policy_def routing_path_def request_path_def request_method_def FAVICON_PATH_def http1_expectation_failed_def HTTP2Capture_def)
qed

lemma small_serve_request:
  "\<exists>d l. serve_request small_world (small_worker small_data) = (Inr (Some d), (small_worker small_data)\<lparr>wk_slot := True,
     wk_client := small_served\<lparr>cl_session := Some (small_answered l (cl_tls small_served))\<rparr>\<rparr>) \<and> report_with None small_served = Inr d"
proof -
  obtain d where d: "report_with None small_served = Inr d"
    using handled_request_answered [OF small_handled_client] small_policy by (auto simp: ClientConnection_def)
  let ?t = "cl_tls small_served"
  have s: "cl_session small_served = Some (small_request ?t)" "cl_http_version small_served = Some ''HTTP/2.0''"
    by (simp_all add: small_served_def Let_def)
  have l: "lend small_served (small_request ?t) = small_request ?t" "se_transport (small_answered l ?t) = ?t" for l
    by (simp_all add: lend_def small_answered_def small_request_def small_session_def HTTP2Session_def)
  have "\<exists>l. send_client_response small_api (talk_net ''h2'') date content headers 200 small_served =
      (Inr (), small_served\<lparr>cl_session := Some (small_answered l ?t)\<rparr>)" for date content headers
  proof -
    obtain l where r: "send_response small_api (http2_transport (talk_net ''h2'')) content
        (Some (dict_of ((''date'', date) # dict_of (map (\<lambda>(name, value). (lower name, value)) (case headers of None \<Rightarrow> [] | Some h \<Rightarrow> h)))))
        200 (small_request ?t) = Some (Inr (), small_answered l ?t)"
      by (rule exE [OF small_answers [of 200]]) (simp add: bodiless_def)
    have "send_client_response small_api (talk_net ''h2'') date content headers 200 small_served =
        (Inr (), small_served\<lparr>cl_session := Some (small_answered l ?t), cl_tls := ?t\<rparr>)"
      by (simp add: send_client_response_def Let_def with_timeout_def handleM_def bindM_def getsM_def s on_session_def totalM_def l r)
    then show ?thesis by (auto intro!: exI [of _ l])
  qed
  then obtain l where "send_client_response small_api (talk_net ''h2'') (wd_date small_world (tl_env ?t)) (json_content d) (Some REPORT_HEADERS) 200 small_served =
      (Inr (), small_served\<lparr>cl_session := Some (small_answered l ?t)\<rparr>)" by blast
  with d small_handled_client small_policy show ?thesis
    by (intro exI [of _ d] exI [of _ l])
      (simp add: serve_request_def bindM_def on_client_def small_handshake getsM_def liftR_def ret_def send_report_def take_slot_def modifyM_def
        MAX_REPORTS_def send_json_def answer_def Let_def)
qed

lemma handshake_hello:
  assumes "exact_stream net rest" and "do_tls_handshake net c = (Inr (), c1)"
  shows "\<exists>rs body extra hello after. rest (tl_env (cl_tls c)) = enc_records rs @ after \<and> wf_records rs \<and>
    payloads rs = enc_message body @ extra \<and> parses parse_client_hello body = Inr hello \<and> cl_client_hello c1 = Some hello"
proof -
  obtain raw hello t where r: "read_client_hello net (cl_tls c) = (Inr (raw, hello), t)" and c1: "cl_client_hello c1 = Some hello"
    using assms(2) unfolding do_tls_handshake_def with_timeout_def
    by (auto simp: handleM_def bindM_eq_Inr on_tls_Inr modifyM_def liftR_def raise_def split: prod.splits sum.splits if_splits)
  from read_client_hello_sound [OF assms(1) r] c1 show ?thesis by blast
qed

text \<open>An insertion adds the document or, when it fails, may add nothing.\<close>

definition logs_inserts :: "('c, 'd) db_api \<Rightarrow> ('d \<Rightarrow> dict list) \<Rightarrow> bool" where
  "logs_inserts db ins \<longleftrightarrow> (\<forall>d e. ins (snd (db_insert db d e)) = ins e \<or> ins (snd (db_insert db d e)) = ins e @ [d])"

section \<open>The report and its error\<close>

abbreviation the_default :: "'a \<Rightarrow> 'a option \<Rightarrow> 'a" where
  "the_default x v \<equiv> (case v of None \<Rightarrow> x | Some y \<Rightarrow> y)"

lemma report_keys: "build_report c = Inr r \<Longrightarrow> map_of r ''error'' = None"
  by (auto simp: build_report_def protocol_report_def bindR_eq_Inr split: if_splits)

lemma filter_keys: "map_of r k = None \<Longrightarrow> filter (\<lambda>x. fst x \<noteq> k) r = r"
  by (induction r) (auto split: if_splits)

lemma report_with_parts:
  assumes "report_with m c = Inr d"
  shows "build_report c = Inr (filter (\<lambda>x. fst x \<noteq> ''error'') d)" and "json_ok (JObj d)"
    and "the_default [] m = (case map_of d ''error'' of Some (JStr t) \<Rightarrow> map (\<lambda>x. char_of x) t | _ \<Rightarrow> [])"
proof -
  obtain r where r: "build_report c = Inr r" and d: "d = (if the_default [] m = [] then r else r @ [(''error'', jstr (the m))])"
    using assms by (cases m) (auto simp: report_with_def bindR_eq_Inr split: if_splits)
  note k = report_keys [OF r]
  show "build_report c = Inr (filter (\<lambda>x. fst x \<noteq> ''error'') d)" using r filter_keys [OF k] by (simp add: d)
  show "json_ok (JObj d)" using json_report [OF r] by (simp add: d)
  show "the_default [] m = (case map_of d ''error'' of Some (JStr t) \<Rightarrow> map (\<lambda>x. char_of x) t | _ \<Rightarrow> [])"
    using k by (simp add: d jstr_def codes_def o_def map_add_def split: option.split)
qed

section \<open>Properties\<close>

text \<open>C1. A client that speaks HTTP/2 is told what it sent. If the \<open>try\<close> block of \<open>_serve_client\<close> ends with a
  report, then: the ClientHello of the report was parsed from the handshake records at the start of the TCP
  stream; the plaintext of the connection is the preface, the raw bytes of the reported frames in order, and
  a rest that is not a whole frame: it is shorter than a frame header, or than the frame its header announces; and the data that h2 was given, on the stream of the request and
  in this order, is the JSON text of the report, all of it, with \<open>END_STREAM\<close> at its end and only there.\<close>

theorem http2_client_is_told_what_it_sent:
  assumes "exact_stream (wd_net w) rest" and "logs_plaintext (wd_net w) plain"
    and "logs_data (wd_h2 w) (http2_transport (wd_net w)) led"
    and "do_tls_handshake (wd_net w) (wk_client s) = (Inr (), c1)" and "ssl_alpn (wd_net w) (tl_env (cl_tls c1)) = Some ''h2''"
    and "serve_request w s = (Inr (Some d), s')"
  shows "\<exists>c2 capture t error i chunks u rs body extra hello after.
    report_with error c2 = Inr d \<and> cl_client_hello c2 = Some hello \<and> cl_http2 c2 = Some capture \<and>
    rest (wk_env s) = enc_records rs @ after \<and> payloads rs = enc_message body @ extra \<and> parses parse_client_hello body = Inr hello \<and>
    cl_session c2 = Some t \<and>
    plain (tl_env (cl_tls c2)) = plain (tl_env (cl_tls c1)) @ HTTP2_PREFACE @ concat (map pf_raw (cap_frames capture)) @ se_buffer t \<and>
    (length (se_buffer t) < FRAME_HEADER_SIZE \<or> length (se_buffer t) < FRAME_HEADER_SIZE + be_nat (take 3 (se_buffer t))) \<and>
    cl_session (wk_client s') = Some u \<and> cap_stream_id capture = Some i \<and>
    led (h2_of u) = led (h2_of t) @ map (Pair i) chunks \<and> concat (map fst chunks) = json_content d \<and> ends_once chunks"
proof -
  obtain c2 c3 status error date where h: "handle_http (wd_h2 w) (wd_net w) c1 = (Inr (), c2)"
    and p: "response_policy c2 = Inr (status, error)" "status \<noteq> 204" and d: "report_with error c2 = Inr d"
    and r: "send_client_response (wd_h2 w) (wd_net w) date (json_content d) (Some REPORT_HEADERS) status c2 = (Inr (), c3)" "wk_client s' = c3"
    using serve_request_report [OF assms(6)] assms(4) by (metis Pair_inject)
  obtain t capture where c: "cl_session c2 = Some t" "cl_http2 c2 = Some capture" "cl_http_version c2 = Some ''HTTP/2.0''"
    "plain (tl_env (cl_tls c2)) = plain (tl_env (cl_tls c1)) @ HTTP2_PREFACE @ concat (map pf_raw (cap_frames capture)) @ se_buffer t"
    "length (se_buffer t) < FRAME_HEADER_SIZE \<or> length (se_buffer t) < FRAME_HEADER_SIZE + be_nat (take 3 (se_buffer t))"
    using handle_http_captures [OF assms(2,5) h] unfolding incomplete_frame_def by blast
  have "\<not> bodiless status" using response_policy_status [OF p(1)] p(2) by (auto simp: bodiless_def)
  from http2_answer_complete [OF assms(3) c(3,1) r(1) this] obtain i chunks u where a: "cl_session c3 = Some u"
    "cap_stream_id (se_capture t) = Some i" "led (h2_of u) = led (h2_of t) @ map (Pair i) chunks" "concat (map fst chunks) = json_content d" "ends_once chunks"
    by blast
  have "cl_client_hello c2 = cl_client_hello c1" by (rule handle_http_http2E [OF h assms(5)]) simp
  with handshake_hello [OF assms(1,4)] obtain rs body extra hello after where "cl_client_hello c2 = Some hello"
    "rest (wk_env s) = enc_records rs @ after" "payloads rs = enc_message body @ extra" "parses parse_client_hello body = Inr hello" by auto
  moreover have "capture = se_capture t" using c by (simp add: cl_http2_def)
  ultimately show ?thesis using c a d r(2)
    by (intro exI [of _ c2] exI [of _ capture] exI [of _ t] exI [of _ error] exI [of _ i] exI [of _ chunks] exI [of _ u] exI [of _ rs]
      exI [of _ body] exI [of _ extra] exI [of _ hello] exI [of _ after]) simp
qed

lemma small_data_logged: "logs_data small_api (http2_transport (talk_net ''h2'')) id"
  using small_logs(2) by (auto simp: logs_data_def env_keeps_def meth_keeps_def small_api_def)

theorem http2_client_is_told_what_it_sent_witness:
  "\<exists>d s' error (c2 :: ((nat \<times> bytes \<times> bool) list, talk) client) chunks. serve_request small_world (small_worker small_data) = (Inr (Some d), s') \<and> report_with error c2 = Inr d \<and>
     concat (map fst chunks) = json_content d \<and> ends_once chunks"
proof -
  obtain d s' where r: "serve_request small_world (small_worker small_data) = (Inr (Some d), s')" using small_serve_request by blast
  have h: "do_tls_handshake (wd_net small_world) (wk_client (small_worker small_data)) =
      (Inr (), (small_client small_data)\<lparr>cl_client_hello := Some sample_hello, cl_tls := tls_of (small_data, [], False, [])\<rparr>)"
    by (simp add: small_handshake)
  have l: "exact_stream (wd_net small_world) (\<lambda>e. snd (snd (snd e)))" "logs_plaintext (wd_net small_world) (\<lambda>e. fst (snd e))"
    "logs_data (wd_h2 small_world) (http2_transport (wd_net small_world)) id" by (simp_all add: talk_laws small_data_logged)
  have "ssl_alpn (wd_net small_world) e = Some ''h2''" for e by (simp add: talk_net_def)
  from http2_client_is_told_what_it_sent [OF l h this r] show ?thesis by - (elim exE conjE, intro exI conjI, rule r, assumption+)
qed

text \<open>C4. Only what the client was told is stored: serving a client adds at most one document to the store, and it is
  a report that was built for this connection and sent, whole, as the response to it. No failure on any path
  leads to a document that was not sent.\<close>

theorem only_sent_reports_are_stored:
  assumes "logs_inserts (wd_db w) ins" and "serve_client w s = (r, s')"
  shows "ins (st_env (wk_storage s')) = ins (st_env (wk_storage s)) \<or>
    (\<exists>d code s1 s2 error status n. ins (st_env (wk_storage s')) = ins (st_env (wk_storage s)) @ [d] \<and>
       serve_guarded w s = (Inr (code, Some d), s2) \<and> report_with error (wk_client s1) = Inr d \<and> send_json w d status s1 = (Inr n, s2))"
proof -
  obtain g s2 where g: "serve_guarded w s = (g, s2)" by (cases "serve_guarded w s")
  have k: "wk_storage s2 = wk_storage s" using storage_guarded [of w] g unfolding moves_def same_storage_def by (metis snd_conv)
  have i: "ins (st_env (snd (save_fingerprint (wd_db w) d t))) \<in> {ins (st_env t), ins (st_env t) @ [d]}" for d t
    using assms(1) unfolding logs_inserts_def save_fingerprint_def suppress_errors_def with_timeout_def
    by (auto simp: bindM_def getsM_def ret_def raise_def handleM_def on_db_def split: prod.splits sum.splits) (metis snd_conv)+
  show ?thesis
  proof (cases "\<exists>code d. g = Inr (code, Some d)")
    case True
    then obtain code d where gd: "g = Inr (code, Some d)" by blast
    obtain s1 status n error where sent: "report_with error (wk_client s1) = Inr d" "send_json w d status s1 = (Inr n, s2)"
      using serve_guarded_sent [of w s code d s2] g gd by blast
    have "ins (st_env (wk_storage s')) \<in> {ins (st_env (wk_storage s2)), ins (st_env (wk_storage s2)) @ [d]}"
      using assms(2) i [of d "wk_storage s2"] by (auto simp: serve_client_def bindM_def tryM_def g gd on_client_def on_storage_def split: prod.splits sum.splits)
    with sent g gd k show ?thesis by (auto 4 4)
  next
    case False
    then have "wk_storage s' = wk_storage s2"
      using assms(2) by (auto simp: serve_client_def bindM_def tryM_def g on_client_def ret_def raise_def split: prod.splits sum.splits option.splits if_splits)
    with k show ?thesis by simp
  qed
qed

theorem only_sent_reports_are_stored_witness:
  "\<exists>r s' d. serve_client small_world (small_worker small_data) = (r, s') \<and> report_with None small_served = Inr d \<and>
     (st_env (wk_storage s') = [] \<or> st_env (wk_storage s') = [d])"
proof -
  obtain d s1 where d: "serve_request small_world (small_worker small_data) = (Inr (Some d), s1)" "report_with None small_served = Inr d"
    using small_serve_request by blast
  then have g: "serve_guarded small_world (small_worker small_data) = (Inr (NO_ERROR, Some d), s1)"
    by (simp add: serve_guarded_def handleM_def bindM_def ret_def)
  obtain r s' where r: "serve_client small_world (small_worker small_data) = (r, s')" by (cases "serve_client small_world (small_worker small_data)")
  have "logs_inserts (wd_db small_world) id" by (simp add: logs_inserts_def log_db_def)
  from only_sent_reports_are_stored [OF this r] g d(2) r show ?thesis by auto
qed

text \<open>C5. Whatever a client sends and whatever fails - the constructor of its connection, the handler, or a
  cancellation - whenever the task of the client and its callback are done, the TCP connection is closed or
  aborted and the client holds no report slot. The task does not fail; it is only assumed that closing a
  \<open>StreamWriter\<close> does not raise and that the calls made while closing return.\<close>

theorem handle_client_releases:
  assumes "closes (wd_net w) over" and "bounded_env (wd_net w) queued left" and "\<And>code i. ends (h2_close_connection (wd_h2 w) code i)"
    and "\<And>e. fst (net_close (wd_net w) e) = Inr ()" and "\<not> wk_slot s" and "client_task w s = (r, s')" and "r \<noteq> Inl Diverges"
  shows "r = Inr () \<and> over (wk_env s') \<and> \<not> wk_slot s'"
  using client_task_closes [OF assms(1-5)] assms(6,7) by (cases r) (auto simp: wp_def)

theorem handle_client_releases_witness:
  "(\<exists>s'. client_task small_world (small_worker small_data) = (Inr (), s') \<and> fst (snd (snd (wk_env s'))) \<and> \<not> wk_slot s') \<and>
   (\<exists>s'. client_task (small_world\<lparr>wd_connect := raise (SSLError ''wrap_bio'')\<rparr>) (small_worker small_data) = (Inr (), s') \<and>
      fst (snd (snd (wk_env s'))) \<and> \<not> wk_slot s')"
proof
  obtain d s1 where d: "serve_request small_world (small_worker small_data) = (Inr (Some d), s1)"
    using small_serve_request by blast
  then have g: "serve_guarded small_world (small_worker small_data) = (Inr (NO_ERROR, Some d), s1)"
    by (simp add: serve_guarded_def handleM_def bindM_def ret_def)
  have n: "connect small_world (small_worker small_data) = (Inr (), small_worker small_data)"
    by (simp add: connect_def on_client_def on_tls_def on_env_def ret_def small_world_def small_worker_def tls_of_def)
  have c: "closes (wd_net small_world) (\<lambda>e. fst (snd (snd e)))" "bounded_env (wd_net small_world) (\<lambda>_. 0) (\<lambda>_. 0)"
    "ends (h2_close_connection (wd_h2 small_world) code i)" "fst (net_close (wd_net small_world) e) = Inr ()" for code i e
    by (simp_all add: talk_laws small_api_def ends_simple) (simp add: talk_net_def modifyM_def)
  obtain q c1 where q: "close_client small_api (talk_net ''h2'') 0 (wk_client s1) = (q, c1)" by fastforce
  have "q \<noteq> Inl Diverges" using close_client_wp [OF c(1-3), of 0 "wk_client s1"] q by (auto simp: wp_def)
  moreover have "save_fingerprint log_db d t = (Inr (), if st_enabled t then t\<lparr>st_env := st_env t @ [d]\<rparr> else t)" for t
    by (simp add: save_fingerprint_def bindM_def getsM_def ret_def suppress_errors_def with_timeout_def handleM_def on_db_def log_db_def)
  moreover from calculation(2) have "\<exists>s2. serve_client small_world (small_worker small_data) = (q, s2)"
    by (cases q) (auto simp: serve_client_def bindM_def tryM_def g on_client_def on_storage_def raise_def q)
  ultimately have h: "fst (handle_client small_world (small_worker small_data)) \<noteq> Inl Diverges"
    by (auto simp: handle_client_def n finallyM_def bindM_def tryM_def modifyM_def liftR_def)
  obtain r s' where r: "client_task small_world (small_worker small_data) = (r, s')" by (cases "client_task small_world (small_worker small_data)")
  have "r \<noteq> Inl Diverges"
    using r h by (auto simp: client_task_def bindM_def tryM_def writer_done_def getsM_def ret_def on_client_def on_tls_def on_env_def
        talk_net_def modifyM_def split: prod.splits if_splits)
  from handle_client_releases [OF c _ r this] r
  show "\<exists>s'. client_task small_world (small_worker small_data) = (Inr (), s') \<and> fst (snd (snd (wk_env s'))) \<and> \<not> wk_slot s'" by auto
  let ?w = "small_world\<lparr>wd_connect := raise (SSLError ''wrap_bio'')\<rparr>"
  obtain r1 s2 where r1: "client_task ?w (small_worker small_data) = (r1, s2)" by (cases "client_task ?w (small_worker small_data)")
  have "r1 \<noteq> Inl Diverges"
    using r1 by (auto simp: client_task_def handle_client_def connect_def bindM_def tryM_def writer_done_def getsM_def ret_def raise_def
        on_client_def on_tls_def on_env_def talk_net_def modifyM_def split: prod.splits if_splits)
  from handle_client_releases [of ?w "\<lambda>e. fst (snd (snd e))" "\<lambda>_. 0" "\<lambda>_. 0", OF _ _ _ _ _ r1 this] c r1
  show "\<exists>s'. client_task ?w (small_worker small_data) = (Inr (), s') \<and> fst (snd (snd (wk_env s'))) \<and> \<not> wk_slot s'" by auto
qed

text \<open>C2. The text of a response tells everything that was observed: if two connections are answered with the same
  bytes, they had the same ClientHello, address, protocol, method and user agent and the same error; for HTTP/2
  the same raw frames in the same order, the same initial settings, header fields and trailers; for HTTP/1.1
  the same request head, byte for byte.\<close>

theorem response_determines_observation:
  assumes "report_with m a = Inr d" and "report_with n b = Inr e" and "json_content d = json_content e"
  shows "cl_client_hello a = cl_client_hello b \<and> cl_http_version a = cl_http_version b \<and>
    format_address (cl_peername a) = format_address (cl_peername b) \<and>
    request_method a = request_method b \<and> user_agent a = user_agent b \<and>
    (cl_http_version a = Some ''HTTP/2.0'' \<longrightarrow> map_option observed (cl_http2 a) = map_option observed (cl_http2 b)) \<and>
    (cl_http_version a = Some ''HTTP/1.1'' \<longrightarrow> cl_http1_raw_head a = cl_http1_raw_head b) \<and>
    the_default [] m = the_default [] n"
proof -
  note p = report_with_parts [OF assms(1)] and q = report_with_parts [OF assms(2)]
  have "d = e" by (rule json_content_inject [OF p(2) q(2) assms(3)])
  with report_determines_observation [OF p(1), of b] p(3) q(1,3) show ?thesis by simp
qed

theorem response_determines_observation_witness:
  "\<exists>d. report_with None small_served = Inr d \<and> report_with None (small_served\<lparr>cl_tls := tls_of ([], [], True, [])\<rparr>) = Inr d \<and>
     map_option observed (cl_http2 small_served) = map_option observed (cl_http2 (small_served\<lparr>cl_tls := tls_of ([], [], True, [])\<rparr>))"
proof -
  obtain d where d: "report_with None small_served = Inr d" using small_serve_request by blast
  have e: "report_with None (small_served\<lparr>cl_tls := tls_of ([], [], True, [])\<rparr>) = Inr d"
    using d by (simp add: report_with_def report_of_observation)
  have "cl_http_version small_served = Some ''HTTP/2.0''" by (simp add: small_served_def Let_def)
  with response_determines_observation [OF d e] d e show ?thesis by auto
qed

text \<open>C9. Every request that \<open>handle_http\<close> accepts has an answer: the choice of the status does not fail, whatever the
  target and the \<open>Expect\<close> fields are, it is one of four codes, and the report with its error can be built,
  whatever the ClientHello, the SYN packet and the frames are.\<close>

theorem accepted_request_is_answerable:
  assumes "handle_http api net c = (Inr (), c')" and "cl_session c = None"
  shows "\<exists>status error report. response_policy c' = Inr (status, error) \<and> status \<in> {200, 204, 417, 501} \<and> report_with error c' = Inr report"
  by (rule handled_request_answered [OF assms])

theorem accepted_request_is_answerable_witness:
  "\<exists>report. response_policy small_served = Inr (200, None) \<and> report_with None small_served = Inr report"
  using accepted_request_is_answerable [OF small_handled_client] small_policy by (auto simp: ClientConnection_def)

end
