(* ===== verification/Lifecycle.thy ===== *)
theory Lifecycle
  imports Server
begin

text \<open>
  \<open>solvetls/server.py\<close>, the server as a whole: the table of clients, the report slots, and the start and the
  shutdown of the listeners. Every operation is cut at its \<open>await\<close>s into the parts that run without interruption;
  each part is a function on the state, and \<open>step\<close> lets the parts of all the running operations follow each other in
  any order. What the network, the clients' handlers and the callers do is not determined: they may connect, finish, fail, call
  and cancel at any time.
\<close>

section \<open>State\<close>

text \<open>\<open>_shutdown\<close> after its creation: before its first part, while it waits for the clients with a timeout, while it waits for the
  cancelled ones, while it waits for the listeners, and at its end. It holds its local variables \<open>servers\<close> and \<open>clients\<close>.
  \<open>ShutFailed\<close> is a task that is done before it has reset the listeners: cancelled before its first part or while it waits in its
  \<open>finally\<close> block, or failed in \<open>wait_closed\<close>.\<close>

datatype shutdown = ShutCreated | ShutWaiting "nat list" "nat list" | ShutGathering "nat list" "nat list" | ShutServers "nat list" | ShutDone | ShutFailed

text \<open>A call of \<open>_start\<close> that holds \<open>_lifecycle_lock\<close>: it waits for the HTTPS listener, for the HTTP listener, for either to
  serve, or for the rollback. No other operation holds the lock over an \<open>await\<close>.\<close>

datatype starting = StartServer "nat option" | StartHttp | StartServing | StartHttpServing | StartRollback

text \<open>Listeners, tasks and their connections are numbers. The first eight fields are those of the object; \<open>sv_start\<close> is the holder of
  the lock. A call of \<open>serve_forever\<close> keeps its local \<open>listeners\<close> beside its entry of \<open>_serving\<close>. \<open>sv_sockets\<close> are the listeners with open sockets, \<open>sv_running\<close> the handlers that are not done,
  \<open>sv_cancelled\<close> the tasks that \<open>_shutdown\<close> has cancelled, and \<open>sv_open\<close> the connections whose writer is not closing. \<open>sv_redirects\<close> is set
  when there has been a redirect listener: only such a listener calls \<open>_accept_client\<close> with \<open>redirect\<close>.\<close>

record server =
  sv_server :: "nat option"
  sv_http_server :: "nat option"
  sv_https_ports :: "(nat \<times> nat) list"
  sv_clients :: "nat list"
  sv_report_clients :: "nat list"
  sv_serving :: "(nat \<times> nat list) list"
  sv_close_task :: "shutdown option"
  sv_closing :: bool
  sv_start :: "starting option"
  sv_sockets :: "nat list"
  sv_running :: "nat list"
  sv_open :: "nat list"
  sv_cancelled :: "nat list"
  sv_redirects :: bool
  sv_next :: nat

definition SolveTLS :: server where
  "SolveTLS = \<lparr>sv_server = None, sv_http_server = None, sv_https_ports = [], sv_clients = [], sv_report_clients = [], sv_serving = [],
     sv_close_task = None, sv_closing = False, sv_start = None, sv_sockets = [], sv_running = [], sv_open = [],
     sv_cancelled = [], sv_redirects = False, sv_next = 0\<rparr>"

abbreviation without :: "'a list \<Rightarrow> 'a \<Rightarrow> 'a list" where
  "without xs x \<equiv> filter (\<lambda>y. y \<noteq> x) xs"

abbreviation option_list :: "'a option \<Rightarrow> 'a list" where
  "option_list v \<equiv> (case v of None \<Rightarrow> [] | Some x \<Rightarrow> [x])"

section \<open>Clients\<close>

text \<open>What becomes of a connection: refused while closing, refused for want of room, or a task. \<open>AcceptFailed\<close> is the
  \<open>StopIteration\<close> of an empty table of ports: no task is made, and nobody closes the writer.\<close>

datatype accepted = WriterClosed | WriterAborted | AcceptFailed | Serving "nat option"

definition https_port_for :: "(nat \<times> nat) list \<Rightarrow> nat \<Rightarrow> nat option" where
  "https_port_for ports family =
     (case ports of [] \<Rightarrow> None
      | (_, first) # _ \<Rightarrow> Some (case map_of ports family of Some port \<Rightarrow> port | None \<Rightarrow> first))"

definition accept_client :: "nat option \<Rightarrow> server \<Rightarrow> accepted \<times> server" where
  "accept_client redirect s =
     (if sv_closing s then (WriterClosed, s)
      else if length (sv_clients s) \<ge> MAX_CLIENTS then (WriterAborted, s)
      else
        let task = sv_next s;
            s1 = s\<lparr>sv_clients := sv_clients s @ [task], sv_running := task # sv_running s, sv_open := task # sv_open s, sv_next := task + 1\<rparr>
        in case redirect of
             None \<Rightarrow> (Serving None, s1)
           | Some family \<Rightarrow>
               (case https_port_for (sv_https_ports s) family of
                  None \<Rightarrow> (AcceptFailed, s\<lparr>sv_open := task # sv_open s, sv_next := task + 1\<rparr>)
                | Some port \<Rightarrow> (Serving (Some port), s1)))"

text \<open>A running handler: it asks for a slot at the start of \<open>_send_report\<close>, it closes its connection, and it ends, by itself
  or cancelled, when \<open>_handle_client\<close> has given the slot back.\<close>

definition take_report :: "nat \<Rightarrow> server \<Rightarrow> bool \<times> server" where
  "take_report task s =
     (if task \<in> set (sv_report_clients s) then (True, s)
      else if length (sv_report_clients s) \<ge> MAX_REPORTS then (False, s)
      else (True, s\<lparr>sv_report_clients := sv_report_clients s @ [task]\<rparr>))"

definition close_writer :: "nat \<Rightarrow> server \<Rightarrow> server" where
  "close_writer task s = s\<lparr>sv_open := without (sv_open s) task\<rparr>"

definition handler_done :: "nat \<Rightarrow> server \<Rightarrow> server" where
  "handler_done task s =
     s\<lparr>sv_report_clients := without (sv_report_clients s) task, sv_running := without (sv_running s) task\<rparr>"

definition client_done :: "nat \<Rightarrow> server \<Rightarrow> server" where
  "client_done task s = close_writer task (s\<lparr>sv_clients := without (sv_clients s) task\<rparr>)"

section \<open>Shutdown\<close>

definition shutdown_begin :: "server \<Rightarrow> server" where
  "shutdown_begin s =
     (let servers = option_list (sv_server s) @ option_list (sv_http_server s) in
      s\<lparr>sv_sockets := filter (\<lambda>x. x \<notin> set servers) (sv_sockets s), sv_close_task := Some (ShutWaiting servers (sv_clients s))\<rparr>)"

text \<open>After the wait: the connections of the clients that are not done are aborted and their tasks cancelled.\<close>

definition shutdown_cancel :: "nat list \<Rightarrow> nat list \<Rightarrow> server \<Rightarrow> server" where
  "shutdown_cancel servers clients s =
     s\<lparr>sv_open := filter (\<lambda>t. \<not> (t \<in> set clients \<and> t \<in> set (sv_running s))) (sv_open s),
       sv_cancelled := filter (\<lambda>t. t \<in> set (sv_running s)) clients @ sv_cancelled s,
       sv_close_task := Some (ShutGathering servers clients)\<rparr>"

text \<open>A gathered task is done, and the callbacks registered before \<open>gather\<close> have run.\<close>

definition gathered :: "nat list \<Rightarrow> server \<Rightarrow> bool" where
  "gathered clients s = list_all (\<lambda>t. t \<notin> set (sv_running s) \<and> t \<notin> set (sv_clients s)) clients"

definition shutdown_end :: "server \<Rightarrow> server" where
  "shutdown_end s = s\<lparr>sv_server := None, sv_http_server := None, sv_close_task := Some ShutDone\<rparr>"

definition shutdown_failed :: "server \<Rightarrow> server" where
  "shutdown_failed s = s\<lparr>sv_close_task := Some ShutFailed\<rparr>"

text \<open>\<open>_close\<close>: \<open>expected_server\<close> is the listener of a call of \<open>serve_forever\<close> that ends.\<close>

definition close_server :: "nat option \<Rightarrow> server \<Rightarrow> server" where
  "close_server expected_server s =
     (if expected_server \<noteq> None \<and> sv_server s \<noteq> expected_server then s
      else if sv_close_task s = None then s\<lparr>sv_closing := True, sv_close_task := Some ShutCreated\<rparr>
      else s)"

section \<open>Start\<close>

definition start_enter :: "nat option \<Rightarrow> server \<Rightarrow> exn + server" where
  "start_enter http_port s =
     (if sv_server s \<noteq> None \<or> sv_http_server s \<noteq> None \<or> sv_close_task s \<notin> {None, Some ShutDone, Some ShutFailed}
      then Inl (RuntimeError ''Server is already started or still closing'')
      else Inr (s\<lparr>sv_close_task := None, sv_closing := False, sv_start := Some (StartServer http_port)\<rparr>))"

text \<open>The HTTPS listener exists; its sockets are pairs of an address family and a port.\<close>

definition start_https :: "nat option \<Rightarrow> (nat \<times> nat) list \<Rightarrow> server \<Rightarrow> server" where
  "start_https http_port sockets s =
     s\<lparr>sv_server := Some (sv_next s), sv_sockets := sv_next s # sv_sockets s, sv_next := sv_next s + 1,
       sv_https_ports := dict_of sockets, sv_start := Some (if http_port \<noteq> None then StartHttp else StartServing)\<rparr>"

definition start_http :: "server \<Rightarrow> server" where
  "start_http s =
     s\<lparr>sv_http_server := Some (sv_next s), sv_sockets := sv_next s # sv_sockets s, sv_next := sv_next s + 1, sv_redirects := True,
       sv_start := Some StartServing\<rparr>"

definition start_served :: "server \<Rightarrow> server" where
  "start_served s = s\<lparr>sv_start := (if sv_start s = Some StartServing \<and> sv_http_server s \<noteq> None then Some StartHttpServing else None)\<rparr>"

definition start_failed :: "server \<Rightarrow> server" where
  "start_failed s = s\<lparr>sv_closing := True, sv_close_task := Some ShutCreated, sv_start := Some StartRollback\<rparr>"

definition start_leave :: "server \<Rightarrow> server" where
  "start_leave s = s\<lparr>sv_start := None\<rparr>"

section \<open>Serving\<close>

definition serve_enter :: "server \<Rightarrow> exn + server" where
  "serve_enter s =
     (case sv_server s of
        None \<Rightarrow> Inl (RuntimeError ''start() must run first'')
      | Some server \<Rightarrow>
          if server \<in> fst ` set (sv_serving s) then Inl (RuntimeError ''serve_forever() is already running'')
          else Inr (s\<lparr>sv_serving := (server, server # option_list (sv_http_server s)) # sv_serving s\<rparr>))"

text \<open>The inner \<open>finally\<close>: a cancelled \<open>asyncio.Server.serve_forever\<close> closes its listener.\<close>

definition serve_leave :: "nat \<times> nat list \<Rightarrow> server \<Rightarrow> server" where
  "serve_leave serving s =
     (case serving of (server, listeners) \<Rightarrow>
        s\<lparr>sv_sockets := filter (\<lambda>x. x \<notin> set listeners) (sv_sockets s), sv_serving := filter (\<lambda>v. fst v \<noteq> server) (sv_serving s)\<rparr>)"

section \<open>Steps\<close>

inductive step :: "server \<Rightarrow> server \<Rightarrow> bool" where
  accept: "redirect = None \<or> sv_redirects s \<Longrightarrow> accept_client redirect s = (r, s') \<Longrightarrow> step s s'"
| slot: "task \<in> set (sv_running s) \<Longrightarrow> take_report task s = (b, s') \<Longrightarrow> step s s'"
| close_own: "task \<in> set (sv_running s) \<Longrightarrow> step s (close_writer task s)"
| handler: "task \<in> set (sv_running s) \<Longrightarrow> step s (handler_done task s)"
| finished: "task \<in> set (sv_clients s) \<Longrightarrow> task \<notin> set (sv_running s) \<Longrightarrow> step s (client_done task s)"
| close: "sv_start s = None \<Longrightarrow> step s (close_server None s)"
| stop: "sv_close_task s = Some ShutCreated \<Longrightarrow> step s (shutdown_begin s)"
| cancel: "sv_close_task s = Some (ShutWaiting servers clients) \<Longrightarrow> step s (shutdown_cancel servers clients s)"
| gather: "sv_close_task s = Some (ShutGathering servers clients) \<Longrightarrow> gathered clients s \<Longrightarrow>
    step s (s\<lparr>sv_close_task := Some (ShutServers servers)\<rparr>)"
| stopped: "sv_close_task s = Some (ShutServers servers) \<Longrightarrow> step s (shutdown_end s)"
| broken: "sv_close_task s = Some ShutCreated \<or> sv_close_task s = Some (ShutGathering servers clients) \<or> sv_close_task s = Some (ShutServers servers) \<Longrightarrow>
    step s (shutdown_failed s)"
| enter: "sv_start s = None \<Longrightarrow> start_enter http_port s = Inr s' \<Longrightarrow> step s s'"
| unbound: "sv_start s = Some (StartServer http_port) \<Longrightarrow> step s (start_leave s)"
| https: "sv_start s = Some (StartServer http_port) \<Longrightarrow> sockets \<noteq> [] \<Longrightarrow> step s (start_https http_port sockets s)"
| http: "sv_start s = Some StartHttp \<Longrightarrow> step s (start_http s)"
| served: "sv_start s \<in> {Some StartServing, Some StartHttpServing} \<Longrightarrow> step s (start_served s)"
| failed: "sv_start s \<in> {Some StartHttp, Some StartServing, Some StartHttpServing} \<Longrightarrow> step s (start_failed s)"
| rolled: "sv_start s = Some StartRollback \<Longrightarrow> step s (start_leave s)"
| serve: "serve_enter s = Inr s' \<Longrightarrow> step s s'"
| serve_close: "serving \<in> set (sv_serving s) \<Longrightarrow> sv_start s = None \<Longrightarrow> step s (close_server (Some (fst serving)) s)"
| serve_end: "serving \<in> set (sv_serving s) \<Longrightarrow> step s (serve_leave serving s)"

definition reachable :: "server \<Rightarrow> bool" where
  "reachable s \<longleftrightarrow> step\<^sup>*\<^sup>* SolveTLS s"

end
