(* ===== verification/Lifecycle_Correct.thy ===== *)
theory Lifecycle_Correct
  imports Lifecycle
begin

text \<open>
  The server in every state it can reach: the bounds on clients and reports, the listeners and connections that a shutdown
  leaves behind (none), what it does to the clients that do not end in time, and the ports of a redirect.
\<close>

section \<open>Invariants of the steps\<close>

locale inductive_invariant =
  fixes init :: "'s" and next_state :: "'s \<Rightarrow> 's \<Rightarrow> bool" and inv :: "'s \<Rightarrow> bool"
  assumes starts: "inv init" and keeps: "inv s \<Longrightarrow> next_state s s' \<Longrightarrow> inv s'"
begin

lemma along: "next_state\<^sup>*\<^sup>* s s' \<Longrightarrow> inv s \<Longrightarrow> inv s'"
  by (induction rule: rtranclp_induct) (auto intro: keeps)

lemma reached: "next_state\<^sup>*\<^sup>* init s \<Longrightarrow> inv s"
  using along starts by blast

end

lemmas lifecycle_defs = accept_client_def take_report_def close_writer_def handler_done_def client_done_def shutdown_begin_def
  shutdown_cancel_def shutdown_end_def shutdown_failed_def close_server_def start_enter_def start_https_def start_http_def start_served_def
  start_failed_def start_leave_def serve_enter_def serve_leave_def

text \<open>The table of clients: its size, the slots, and that running handlers and open connections are in it.\<close>

definition clients_ok :: "server \<Rightarrow> bool" where
  "clients_ok s \<longleftrightarrow>
     length (sv_clients s) \<le> MAX_CLIENTS \<and> length (sv_report_clients s) \<le> MAX_REPORTS \<and>
     set (sv_report_clients s) \<subseteq> set (sv_running s) \<and> set (sv_running s) \<subseteq> set (sv_clients s) \<and>
     set (sv_open s) \<subseteq> set (sv_clients s)"

text \<open>The listeners: \<open>owned_sockets\<close> holds as long as they serve. After the grace period every handler that still runs is
  cancelled and its connection aborted.\<close>

abbreviation owned_sockets :: "server \<Rightarrow> bool" where
  "owned_sockets s \<equiv> set (sv_sockets s) \<subseteq> set (option_list (sv_server s)) \<union> set (option_list (sv_http_server s))"

definition shutdown_ok :: "server \<Rightarrow> bool" where
  "shutdown_ok s \<longleftrightarrow> (sv_closing s \<longleftrightarrow> sv_close_task s \<noteq> None) \<and>
     (case sv_close_task s of
        None \<Rightarrow> owned_sockets s
      | Some ShutCreated \<Rightarrow> owned_sockets s
      | Some (ShutWaiting _ clients) \<Rightarrow> sv_sockets s = [] \<and> set (sv_clients s) \<subseteq> set clients
      | Some (ShutGathering _ clients) \<Rightarrow> sv_sockets s = [] \<and> set (sv_clients s) \<subseteq> set clients \<and>
          set (sv_running s) \<subseteq> set (sv_cancelled s) \<and> set (sv_running s) \<inter> set (sv_open s) = {}
      | Some (ShutServers _) \<Rightarrow> sv_sockets s = [] \<and> sv_clients s = []
      | Some ShutDone \<Rightarrow> sv_sockets s = [] \<and> sv_clients s = [] \<and> sv_server s = None \<and> sv_http_server s = None
      | Some ShutFailed \<Rightarrow> owned_sockets s)"

definition start_ok :: "server \<Rightarrow> bool" where
  "start_ok s \<longleftrightarrow> (sv_http_server s \<noteq> None \<or> sv_redirects s \<longrightarrow> sv_https_ports s \<noteq> []) \<and>
     (case sv_start s of
        None \<Rightarrow> True
      | Some (StartServer _) \<Rightarrow> sv_close_task s = None \<and> sv_server s = None \<and> sv_http_server s = None
      | Some StartHttp \<Rightarrow> sv_close_task s = None \<and> sv_http_server s = None \<and> sv_https_ports s \<noteq> []
      | Some StartRollback \<Rightarrow> sv_close_task s \<noteq> None
      | Some _ \<Rightarrow> sv_close_task s = None)"

definition server_ok :: "server \<Rightarrow> bool" where
  "server_ok s \<longleftrightarrow> clients_ok s \<and> shutdown_ok s \<and> start_ok s"

lemma clients_shrink:
  assumes "clients_ok s" and "length (sv_clients s') \<le> length (sv_clients s)" "length (sv_report_clients s') \<le> length (sv_report_clients s)"
    "set (sv_report_clients s') \<subseteq> set (sv_running s')" "set (sv_running s') \<subseteq> set (sv_clients s')" "set (sv_open s') \<subseteq> set (sv_clients s')"
  shows "clients_ok s'"
  using assms by (auto simp: clients_ok_def)

lemma clients_same:
  assumes "clients_ok s" and "sv_clients s' = sv_clients s" "sv_report_clients s' = sv_report_clients s" "sv_running s' = sv_running s"
    "set (sv_open s') \<subseteq> set (sv_open s)"
  shows "clients_ok s'"
  using assms by (auto simp: clients_ok_def)

lemma https_port_found:
  "ports \<noteq> [] \<Longrightarrow> \<exists>port. https_port_for ports family = Some port \<and> port \<in> snd ` set ports \<and> (\<forall>p. map_of ports family = Some p \<longrightarrow> port = p)"
proof (cases "map_of ports family")
  case (Some p)
  then have "p \<in> snd ` set ports" by (force dest: map_of_SomeD)
  then show "ports \<noteq> [] \<Longrightarrow> ?thesis" using Some by (auto simp: https_port_for_def neq_Nil_conv)
qed (auto simp: https_port_for_def neq_Nil_conv)

lemma clients_step:
  assumes "step s s'" and "clients_ok s" "start_ok s"
  shows "clients_ok s'"
  using assms(1)
proof cases
  case (accept redirect r)
  with assms(3) have "redirect = Some family \<Longrightarrow> https_port_for (sv_https_ports s) family \<noteq> None" for family
    using https_port_found [of "sv_https_ports s" family] by (auto simp: start_ok_def)
  with accept assms(2) show ?thesis by (auto simp: clients_ok_def accept_client_def Let_def split: if_splits option.splits)
next
  case (slot task b)
  with assms(2) show ?thesis by (auto simp: clients_ok_def take_report_def split: if_splits)
next
  case (handler task)
  show ?thesis by (rule clients_shrink [OF assms(2)]) (use assms(2) handler(1) in \<open>auto simp: handler_done_def clients_ok_def\<close>)
next
  case (finished task)
  show ?thesis by (rule clients_shrink [OF assms(2)]) (use assms(2) finished in \<open>auto simp: client_done_def close_writer_def clients_ok_def\<close>)
qed (rule clients_same [OF assms(2)]; auto simp: lifecycle_defs Let_def split: if_splits option.splits prod.splits)+

lemma dict_of_empty: "dict_of d = [] \<longleftrightarrow> d = []"
  using map_of_dict_of [of d] map_of_eq_empty_iff [of "dict_of d"] map_of_eq_empty_iff [of "rev d"] by simp

lemma start_same:
  assumes "start_ok s" and "sv_http_server s' = sv_http_server s" "sv_https_ports s' = sv_https_ports s" "sv_start s' = sv_start s"
    "sv_close_task s' = sv_close_task s" "sv_server s' = sv_server s" "sv_redirects s' = sv_redirects s"
  shows "start_ok s'"
  using assms(1) unfolding start_ok_def assms(2-) .

lemma start_closing:
  assumes "start_ok s" and "sv_http_server s' \<in> {None, sv_http_server s}" "sv_https_ports s' = sv_https_ports s" "sv_start s' = sv_start s"
    and "sv_close_task s' \<noteq> None" and "sv_close_task s \<noteq> None \<or> sv_start s = None"
    and "sv_redirects s' = sv_redirects s"
  shows "start_ok s'"
  using assms by (cases "sv_start s") (auto simp: start_ok_def split: starting.splits)

lemma start_free: "start_ok s \<Longrightarrow> sv_start s' = None \<Longrightarrow> sv_http_server s' = sv_http_server s \<Longrightarrow> sv_https_ports s' = sv_https_ports s \<Longrightarrow> sv_redirects s' = sv_redirects s \<Longrightarrow> start_ok s'"
  by (simp add: start_ok_def)

lemma start_close: "start_ok s \<Longrightarrow> sv_start s = None \<Longrightarrow> start_ok (close_server e s)"
  by (auto simp: close_server_def start_ok_def)

lemma start_step:
  assumes "step s s'" and "start_ok s"
  shows "start_ok s'"
  using assms(1)
proof cases
  case (accept redirect r)
  then show ?thesis by (intro start_same [OF assms(2)]) (auto simp: accept_client_def Let_def split: if_splits option.splits)
next
  case close
  then show ?thesis using start_close [OF assms(2)] by simp
next
  case (serve_close serving)
  then show ?thesis using start_close [OF assms(2)] by simp
next
  case stop
  then show ?thesis by (intro start_closing [OF assms(2)]) (auto simp: shutdown_begin_def Let_def)
next
  case (cancel servers clients)
  then show ?thesis by (intro start_closing [OF assms(2)]) (auto simp: shutdown_cancel_def)
next
  case (gather servers clients)
  then show ?thesis by (intro start_closing [OF assms(2)]) auto
next
  case (stopped servers)
  then show ?thesis by (intro start_closing [OF assms(2)]) (auto simp: shutdown_end_def)
next
  case (broken servers clients)
  then show ?thesis by (intro start_closing [OF assms(2)]) (auto simp: shutdown_failed_def)
next
  case (enter http_port)
  with assms(2) show ?thesis by (auto simp: start_ok_def start_enter_def split: if_splits)
next
  case (unbound http_port)
  then show ?thesis by (intro start_free [OF assms(2)]) (auto simp: start_leave_def)
next
  case (https http_port sockets)
  with assms(2) show ?thesis by (auto simp: start_ok_def start_https_def dict_of_empty)
next
  case http
  with assms(2) show ?thesis by (auto simp: start_ok_def start_http_def)
next
  case served
  with assms(2) show ?thesis by (auto simp: start_ok_def start_served_def)
next
  case failed
  with assms(2) show ?thesis by (auto simp: start_ok_def start_failed_def)
next
  case rolled
  then show ?thesis by (intro start_free [OF assms(2)]) (auto simp: start_leave_def)
qed (rule start_same [OF assms(2)]; auto simp: lifecycle_defs split: if_splits option.splits prod.splits)+

text \<open>Most steps only take away from what the shutdown looks at; others run while there is none.\<close>

lemma shutdown_shrinks:
  assumes "shutdown_ok s" and "sv_closing s' = sv_closing s" "sv_close_task s' = sv_close_task s" "sv_server s' = sv_server s"
    "sv_http_server s' = sv_http_server s" "set (sv_sockets s') \<subseteq> set (sv_sockets s)" "set (sv_clients s') \<subseteq> set (sv_clients s)"
    "set (sv_running s') \<subseteq> set (sv_running s)" "set (sv_open s') \<subseteq> set (sv_open s)" "sv_cancelled s' = sv_cancelled s"
  shows "shutdown_ok s'"
  using assms unfolding shutdown_ok_def by (cases "sv_close_task s") (auto split: shutdown.split_asm)

lemma shutdown_none:
  "sv_close_task s' \<in> {None, Some ShutCreated, Some ShutFailed} \<Longrightarrow> sv_closing s' = (sv_close_task s' \<noteq> None) \<Longrightarrow> owned_sockets s' \<Longrightarrow> shutdown_ok s'"
  by (auto simp: shutdown_ok_def)

lemma shutdown_owned: "shutdown_ok s \<Longrightarrow> sv_close_task s \<in> {None, Some ShutCreated, Some ShutFailed} \<Longrightarrow> owned_sockets s"
  by (auto simp: shutdown_ok_def)

lemma close_ok: "shutdown_ok s \<Longrightarrow> shutdown_ok (close_server e s)"
  unfolding close_server_def by (auto intro!: shutdown_none dest!: shutdown_owned)

lemma accept_ok: "shutdown_ok s \<Longrightarrow> accept_client redirect s = (r, s') \<Longrightarrow> shutdown_ok s'"
proof (cases "sv_closing s")
  case False
  assume a: "shutdown_ok s" "accept_client redirect s = (r, s')"
  with False have n: "sv_close_task s = None" by (simp add: shutdown_ok_def)
  with a shutdown_owned [of s] show ?thesis
    by (auto simp: accept_client_def Let_def False split: if_splits option.splits intro!: shutdown_none)
qed (auto simp: accept_client_def)

lemma shutdown_step:
  assumes "step s s'" and "shutdown_ok s" "start_ok s" "clients_ok s"
  shows "shutdown_ok s'"
  using assms(1)
proof cases
  case (accept redirect r)
  with accept_ok [OF assms(2)] show ?thesis by blast
next
  case (close)
  then show ?thesis using close_ok [OF assms(2)] by simp
next
  case stop
  with assms(2) show ?thesis by (auto simp: shutdown_ok_def shutdown_begin_def Let_def filter_empty_conv)
next
  case (cancel servers clients)
  with assms(2,4) show ?thesis by (auto simp: shutdown_ok_def clients_ok_def shutdown_cancel_def)
next
  case (gather servers clients)
  have "sv_clients s = []" using gather(2,3) assms(2) by (cases "sv_clients s") (auto simp: shutdown_ok_def gathered_def list_all_iff)
  with gather assms(2) show ?thesis by (simp add: shutdown_ok_def)
next
  case (stopped servers)
  with assms(2) show ?thesis by (auto simp: shutdown_ok_def shutdown_end_def)
next
  case (broken servers clients)
  with assms(2) show ?thesis by (auto simp: shutdown_ok_def shutdown_failed_def)
next
  case (enter http_port)
  with assms(2) show ?thesis
    by (auto simp: start_enter_def shutdown_ok_def split: if_splits option.splits)
next
  case (https http_port sockets)
  with assms(2,3) shutdown_owned [of s] show ?thesis
    by (auto simp: start_https_def start_ok_def shutdown_ok_def)
next
  case http
  with assms(2,3) shutdown_owned [of s] show ?thesis
    by (auto simp: start_http_def start_ok_def shutdown_ok_def)
next
  case failed
  with assms(2,3) shutdown_owned [of s] show ?thesis
    by (auto simp: start_failed_def start_ok_def intro!: shutdown_none)
next
  case (serve_close serving)
  then show ?thesis using close_ok [OF assms(2)] by simp
qed (rule shutdown_shrinks [OF assms(2)]; auto simp: lifecycle_defs split: if_splits option.splits prod.splits)+

interpretation sv: inductive_invariant SolveTLS step server_ok
proof
  show "server_ok SolveTLS" by (simp add: server_ok_def clients_ok_def shutdown_ok_def start_ok_def SolveTLS_def)
  show "server_ok s \<Longrightarrow> step s s' \<Longrightarrow> server_ok s'" for s s'
    using clients_step start_step shutdown_step by (auto simp: server_ok_def)
qed

section \<open>A small server\<close>

text \<open>Both listeners serve, one client is connected and holds a report slot.\<close>

definition running_server :: server where
  "running_server = snd (take_report 2 (snd (accept_client None (start_served (start_served (start_http (start_https (Some 80) [(2, 443)]
     (SolveTLS\<lparr>sv_start := Some (StartServer (Some 80))\<rparr>))))))))"

lemma running_server_state:
  "running_server = \<lparr>sv_server = Some 0, sv_http_server = Some 1, sv_https_ports = [(2, 443)], sv_clients = [2], sv_report_clients = [2],
     sv_serving = [], sv_close_task = None, sv_closing = False, sv_start = None, sv_sockets = [1, 0], sv_running = [2], sv_open = [2],
     sv_cancelled = [], sv_redirects = True, sv_next = 3\<rparr>"
  by (simp add: running_server_def take_report_def accept_client_def start_served_def start_http_def start_https_def SolveTLS_def dict_of_def
    MAX_CLIENTS_def MAX_REPORTS_def)

lemma running_server_reached: "reachable running_server"
proof -
  let ?a = "SolveTLS\<lparr>sv_start := Some (StartServer (Some 80))\<rparr>"
  let ?b = "start_https (Some 80) [(2, 443)] ?a"
  let ?c = "start_http ?b"
  let ?d = "start_served ?c"
  let ?e = "start_served ?d"
  let ?f = "snd (accept_client None ?e)"
  have "step SolveTLS ?a" by (rule step.enter [where http_port = "Some 80"]) (simp_all add: start_enter_def SolveTLS_def)
  moreover have "step ?a ?b" by (rule step.https) simp_all
  moreover have "step ?b ?c" by (rule step.http) (simp add: start_https_def)
  moreover have "step ?c ?d" by (rule step.served) (simp add: start_http_def)
  moreover have "step ?d ?e" by (rule step.served) (simp add: start_served_def start_http_def)
  moreover have "step ?e ?f" by (rule step.accept [OF _ surjective_pairing]) simp
  moreover have "step ?f running_server" unfolding running_server_def
    by (rule step.slot [OF _ surjective_pairing])
      (simp add: accept_client_def start_served_def start_http_def start_https_def SolveTLS_def MAX_CLIENTS_def)
  ultimately show ?thesis unfolding reachable_def
    by (elim converse_rtranclp_into_rtranclp) simp
qed

lemma reachable_step: "reachable s \<Longrightarrow> step s s' \<Longrightarrow> reachable s'"
  unfolding reachable_def by (rule rtranclp.rtrancl_into_rtrancl)

text \<open>It is closed; its client does not end in time and is cancelled.\<close>

definition closing_server :: server where
  "closing_server = shutdown_cancel [0, 1] [2] (shutdown_begin (close_server None running_server))"

lemma closing_server_state:
  "closing_server = running_server\<lparr>sv_close_task := Some (ShutGathering [0, 1] [2]), sv_closing := True, sv_sockets := [], sv_open := [],
     sv_cancelled := [2]\<rparr>"
  by (simp add: closing_server_def shutdown_cancel_def shutdown_begin_def close_server_def running_server_state)

lemma closing_server_reached: "reachable closing_server"
proof -
  let ?a = "close_server None running_server"
  have "step running_server ?a" by (rule step.close) (simp add: running_server_state)
  moreover have "step ?a (shutdown_begin ?a)" by (rule step.stop) (simp add: close_server_def running_server_state)
  moreover have "step (shutdown_begin ?a) closing_server" unfolding closing_server_def
    by (rule step.cancel) (simp add: shutdown_begin_def close_server_def running_server_state)
  ultimately show ?thesis using running_server_reached by (metis reachable_step)
qed

definition closed_server :: server where
  "closed_server = shutdown_end ((client_done 2 (handler_done 2 closing_server))\<lparr>sv_close_task := Some (ShutServers [0, 1])\<rparr>)"

lemma closed_server_reached: "reachable closed_server"
proof -
  let ?a = "handler_done 2 closing_server"
  let ?b = "client_done 2 ?a"
  let ?c = "?b\<lparr>sv_close_task := Some (ShutServers [0, 1])\<rparr>"
  have "step closing_server ?a" by (rule step.handler) (simp add: closing_server_state running_server_state)
  moreover have "step ?a ?b" by (rule step.finished) (simp_all add: handler_done_def closing_server_state running_server_state)
  moreover have "step ?b ?c"
    by (rule step.gather [where clients = "[2]"])
      (simp_all add: client_done_def close_writer_def handler_done_def closing_server_state gathered_def)
  moreover have "step ?c closed_server" unfolding closed_server_def by (rule step.stopped) simp
  ultimately show ?thesis using closing_server_reached by (metis reachable_step)
qed

section \<open>Properties\<close>

text \<open>C3. In every state the server can reach it has at most 32 clients and at most 4 reports under way. Every report belongs to
  a handler that still runs, and every running handler and every open connection to an entry of the table, so that what
  it holds for its clients is bounded whatever they do.\<close>

theorem server_load_is_bounded:
  assumes "reachable s"
  shows "length (sv_clients s) \<le> MAX_CLIENTS \<and> length (sv_report_clients s) \<le> MAX_REPORTS \<and>
    set (sv_report_clients s) \<subseteq> set (sv_running s) \<and> set (sv_running s) \<subseteq> set (sv_clients s) \<and>
    set (sv_open s) \<subseteq> set (sv_clients s) \<and> card (set (sv_open s)) \<le> MAX_CLIENTS"
proof -
  have ok: "clients_ok s" using sv.reached assms by (auto simp: server_ok_def reachable_def)
  then have "card (set (sv_open s)) \<le> card (set (sv_clients s))" by (intro card_mono) (auto simp: clients_ok_def)
  with ok card_length [of "sv_clients s"] show ?thesis by (auto simp: clients_ok_def)
qed

theorem server_load_is_bounded_witness:
  "reachable running_server \<and> set (sv_report_clients running_server) \<subseteq> set (sv_running running_server)"
  using server_load_is_bounded [OF running_server_reached] running_server_reached by simp

text \<open>C6. A shutdown leaves nothing behind: when \<open>_shutdown\<close> has run to its end, no listener has an open socket, no client
  is in the table, no handler runs, no connection is open, no report slot is taken, and the server can be started again.\<close>

theorem shutdown_leaves_nothing:
  assumes "reachable s" and "sv_close_task s = Some ShutDone"
  shows "sv_sockets s = [] \<and> sv_clients s = [] \<and> sv_running s = [] \<and> sv_open s = [] \<and> sv_report_clients s = [] \<and>
    (\<exists>s'. start_enter http_port s = Inr s')"
proof -
  have "server_ok s" using sv.reached assms(1) by (simp add: reachable_def)
  with assms(2) show ?thesis by (auto simp: server_ok_def clients_ok_def shutdown_ok_def start_enter_def)
qed

theorem shutdown_leaves_nothing_witness:
  "\<exists>s. reachable s \<and> sv_close_task s = Some ShutDone \<and> sv_open s = [] \<and> sv_sockets s = []"
proof -
  have "sv_close_task closed_server = Some ShutDone" by (simp add: closed_server_def shutdown_end_def)
  with shutdown_leaves_nothing [OF closed_server_reached this, of None] closed_server_reached show ?thesis by blast
qed

text \<open>C14. A shutdown is not held up by its clients. From its first part on no listener has an open socket and \<open>clients\<close>, the
  tasks it waits for, are all there are. When the grace period is over, every handler that still runs has been cancelled and its
  connection is not open: none is left to run on, whatever its peer does.\<close>

theorem shutdown_cancels_clients:
  assumes "reachable s" and "sv_close_task s = Some (ShutWaiting servers clients) \<or> sv_close_task s = Some (ShutGathering servers clients)"
  shows "sv_sockets s = [] \<and> set (sv_clients s) \<subseteq> set clients \<and>
    (sv_close_task s = Some (ShutGathering servers clients) \<longrightarrow>
       (\<forall>task \<in> set (sv_running s). task \<in> set (sv_cancelled s) \<and> task \<notin> set (sv_open s)))"
proof -
  have "server_ok s" using sv.reached assms(1) by (simp add: reachable_def)
  with assms(2) show ?thesis by (auto simp: server_ok_def shutdown_ok_def)
qed

theorem shutdown_cancels_clients_witness:
  "sv_running closing_server = [2] \<and> 2 \<in> set (sv_cancelled closing_server) \<and> 2 \<notin> set (sv_open closing_server)"
proof -
  have c: "sv_close_task closing_server = Some (ShutGathering [0, 1] [2])" "sv_running closing_server = [2]"
    by (simp_all add: closing_server_state running_server_state)
  with shutdown_cancels_clients [OF closing_server_reached, of "[0, 1]" "[2]"] show ?thesis by simp
qed

text \<open>Nobody is admitted while the server closes: until it is started again, no step adds a client, and a new connection is
  closed at once.\<close>

theorem closing_admits_nobody:
  assumes "sv_closing s" and "step s s'"
  shows "set (sv_clients s') \<subseteq> set (sv_clients s) \<and> accept_client redirect s = (WriterClosed, s)"
  using assms by (auto elim!: step.cases simp: lifecycle_defs Let_def split: if_splits option.splits prod.splits)

theorem closing_admits_nobody_witness:
  "accept_client None (close_server None running_server) = (WriterClosed, close_server None running_server)"
proof -
  have "sv_closing (close_server None running_server)" by (simp add: close_server_def running_server_state)
  moreover have "step (close_server None running_server) (handler_done 2 (close_server None running_server))"
    by (rule step.handler) (simp add: close_server_def running_server_state)
  ultimately show ?thesis using closing_admits_nobody by blast
qed

text \<open>C17. While the redirect service has a listener, a connection to it is never lost to an empty table of ports: if it is
  admitted, it is redirected to a port of the HTTPS listener, the one of its own address family if there is one.\<close>

theorem redirect_has_a_port:
  assumes "reachable s" and "sv_http_server s \<noteq> None" and "accept_client (Some family) s = (r, s')"
  shows "r = WriterClosed \<or> r = WriterAborted \<or> (\<exists>port. r = Serving (Some port) \<and> port \<in> snd ` set (sv_https_ports s) \<and>
    (\<forall>p. map_of (sv_https_ports s) family = Some p \<longrightarrow> port = p))"
proof -
  have "server_ok s" using sv.reached assms(1) by (simp add: reachable_def)
  with assms(2) have "sv_https_ports s \<noteq> []" by (simp add: server_ok_def start_ok_def)
  from https_port_found [OF this, of family] assms(3) show ?thesis by (auto simp: accept_client_def Let_def split: if_splits)
qed

theorem redirect_has_a_port_witness:
  "fst (accept_client (Some 10) running_server) = Serving (Some 443)"
proof -
  have r: "accept_client (Some 10) running_server = (fst (accept_client (Some 10) running_server), snd (accept_client (Some 10) running_server))" by simp
  have "sv_http_server running_server \<noteq> None" by (simp add: running_server_state)
  from redirect_has_a_port [OF running_server_reached this r] show ?thesis
    by (auto simp: running_server_state accept_client_def MAX_CLIENTS_def https_port_for_def)
qed

end
