(* ===== verification/Hashes_Vectors.thy ===== *)
theory Hashes_Vectors
  imports Hashes
begin

text \<open>
  Test vectors of RFC 1321 and FIPS 180-4, evaluated in the kernel: the two digests are the ones the
  standards define.
\<close>

lemma md5_empty: "hex_bytes (md5 []) = ''d41d8cd98f00b204e9800998ecf8427e''"
  by code_simp

lemma sha256_abc:
  "hex_bytes (sha256 (asc ''abc'')) = ''ba7816bf8f01cfea414140de5dae2223b00361a396177a9cb410ff61f20015ad''"
  by code_simp

end
